theory Spec2Isabelle
  imports Complex_Main "HOL-Library.Sublist" "HOL-Library.Log_Nat"
begin

section \<open>JavaScript values and built-ins used by the handlers\<close>

text \<open>
  In this first part a JSON number of a provider feed is an exact rational: the lookups,
  the filters and the orderings of the handlers do not depend on the rounding of IEEE
  doubles. There only a division can leave the finite numbers (\<open>x / 0\<close>), so the result
  of a division is a \<open>jsnum\<close>. The arithmetic of doubles, on which the totals and the
  shares depend, has its own sections below.
\<close>

datatype jsnum = Num rat | NaN | PosInf | NegInf

definition js_div :: "rat \<Rightarrow> rat \<Rightarrow> jsnum" where
  "js_div a b =
     (if b \<noteq> 0 then Num (a / b)
      else if a = 0 then NaN
      else if 0 < a then PosInf else NegInf)"

definition js_times :: "jsnum \<Rightarrow> rat \<Rightarrow> jsnum" where
  "js_times x c =
     (case x of
        Num a \<Rightarrow> Num (a * c)
      | NaN \<Rightarrow> NaN
      | PosInf \<Rightarrow> (if 0 < c then PosInf else if c < 0 then NegInf else NaN)
      | NegInf \<Rightarrow> (if 0 < c then NegInf else if c < 0 then PosInf else NaN))"

text \<open>
  A template string is kept as its pieces: literal text and \<open>x.toFixed(d)\<close>
  (the number and the digits asked for), so that the number a string shows stays readable.
\<close>

datatype piece = Lit string | Fixed jsnum nat

type_synonym rendered = "piece list"

text \<open>\<open>String.prototype.toLowerCase\<close>, on the ASCII letters.\<close>

definition lower_char :: "char \<Rightarrow> char" where
  "lower_char c =
     (case map_of (zip ''ABCDEFGHIJKLMNOPQRSTUVWXYZ'' ''abcdefghijklmnopqrstuvwxyz'') c of
        Some d \<Rightarrow> d
      | None \<Rightarrow> c)"

definition toLowerCase :: "string \<Rightarrow> string" where
  "toLowerCase s = map lower_char s"

text \<open>\<open>s.includes(t)\<close>: \<open>t\<close> occurs in \<open>s\<close> as a contiguous run.\<close>

fun js_includes :: "string \<Rightarrow> string \<Rightarrow> bool" where
  "js_includes [] t = (t = [])"
| "js_includes (x # xs) t = (take (length t) (x # xs) = t \<or> js_includes xs t)"

text \<open>\<open>Array.prototype.some\<close>, \<open>find\<close>, \<open>findIndex\<close> (which answers -1 for no match).\<close>

definition some :: "('a \<Rightarrow> bool) \<Rightarrow> 'a list \<Rightarrow> bool" where
  "some p xs = list_ex p xs"

fun js_find :: "('a \<Rightarrow> bool) \<Rightarrow> 'a list \<Rightarrow> 'a option" where
  "js_find p [] = None"
| "js_find p (x # xs) = (if p x then Some x else js_find p xs)"

fun findIndexFrom :: "int \<Rightarrow> ('a \<Rightarrow> bool) \<Rightarrow> 'a list \<Rightarrow> int" where
  "findIndexFrom i p [] = -1"
| "findIndexFrom i p (x # xs) = (if p x then i else findIndexFrom (i + 1) p xs)"

definition findIndex :: "('a \<Rightarrow> bool) \<Rightarrow> 'a list \<Rightarrow> int" where
  "findIndex p xs = findIndexFrom 0 p xs"

text \<open>
  \<open>xs.map((x, i) => f(x, i))\<close>, and \<open>xs.reduce(f, init)\<close>.
  \<open>xs.reduce(f)\<close> with no initial value starts from the first element and raises a
  TypeError on the empty array.
\<close>

fun mapFrom :: "nat \<Rightarrow> ('a \<Rightarrow> nat \<Rightarrow> 'b) \<Rightarrow> 'a list \<Rightarrow> 'b list" where
  "mapFrom i f [] = []"
| "mapFrom i f (x # xs) = f x i # mapFrom (Suc i) f xs"

definition mapi :: "('a \<Rightarrow> nat \<Rightarrow> 'b) \<Rightarrow> 'a list \<Rightarrow> 'b list" where
  "mapi f xs = mapFrom 0 f xs"

definition reduce :: "('b \<Rightarrow> 'a \<Rightarrow> 'b) \<Rightarrow> 'b \<Rightarrow> 'a list \<Rightarrow> 'b" where
  "reduce f init xs = foldl f init xs"

datatype js_error = ApiError string nat | NetworkError | TypeError

definition reduce1 :: "('a \<Rightarrow> 'a \<Rightarrow> 'a) \<Rightarrow> 'a list \<Rightarrow> js_error + 'a" where
  "reduce1 f xs = (case xs of [] \<Rightarrow> Inl TypeError | x # rest \<Rightarrow> Inr (foldl f x rest))"

text \<open>
  \<open>xs.slice(0, end)\<close>: \<open>end\<close> is truncated to an integer, a negative one counts
  from the end of the array, and the result is clamped to the array.
\<close>

definition trunc :: "rat \<Rightarrow> int" where
  "trunc q = (if 0 \<le> q then \<lfloor>q\<rfloor> else \<lceil>q\<rceil>)"

definition slice0 :: "rat \<Rightarrow> 'a list \<Rightarrow> 'a list" where
  "slice0 end xs =
     (let len = int (length xs);
          rel = trunc end;
          fin = (if rel < 0 then max (len + rel) 0 else min rel len)
      in take (nat fin) xs)"

text \<open>
  \<open>xs.sort(cmp)\<close> is a stable sort: \<open>a\<close> stays before \<open>b\<close> unless
  \<open>cmp(a, b) > 0\<close>. It sorts the array in place, so in a handler every later use of
  the array sees the sorted order; the models below say so where it happens.
\<close>

fun insort_by :: "('a \<Rightarrow> 'a \<Rightarrow> rat) \<Rightarrow> 'a \<Rightarrow> 'a list \<Rightarrow> 'a list" where
  "insort_by cmp x [] = [x]"
| "insort_by cmp x (y # ys) =
     (if cmp x y \<le> 0 then x # y # ys else y # insort_by cmp x ys)"

definition js_sort :: "('a \<Rightarrow> 'a \<Rightarrow> rat) \<Rightarrow> 'a list \<Rightarrow> 'a list" where
  "js_sort cmp xs = foldr (insort_by cmp) xs []"

text \<open>\<open>v || 0\<close> on a number that may be absent: an absent and a zero value give 0.\<close>

definition or_zero :: "rat option \<Rightarrow> rat" where
  "or_zero v = (case v of None \<Rightarrow> 0 | Some x \<Rightarrow> (if x = 0 then 0 else x))"

text \<open>Truthiness of a number that may be absent.\<close>

definition truthy :: "rat option \<Rightarrow> bool" where
  "truthy v = (case v of None \<Rightarrow> False | Some x \<Rightarrow> x \<noteq> 0)"

section \<open>The three feeds\<close>

text \<open>
  The records of the three feeds, field by field as the handlers declare them. The field
  \<open>id\<close> of a bridge is \<open>bridgeId\<close> here, since \<open>id\<close> is the identity function of HOL.
  An optional field (\<open>peggedUSD?\<close>) and a nullable one are options.
\<close>

record Chain =
  name :: string
  tvl :: rat
  tokenSymbol :: "string option"
  gecko_id :: "string option"
  chainId :: "int option"

record Circulating =
  peggedUSD :: "rat option"

record StablecoinChain =
  name :: string
  gecko_id :: "string option"
  tokenSymbol :: "string option"
  totalCirculatingUSD :: Circulating

record Bridge =
  bridgeId :: int
  name :: string
  displayName :: string
  last24hVolume :: rat
  weeklyVolume :: rat
  monthlyVolume :: rat
  chains :: "string list"

record BridgesBody =
  bridges :: "Bridge list"

text \<open>
  What the provider answers to one request: no answer at all, or a status and a body.
  A feed is the sequence of its answers to the successive requests of one query, so
  that a handler which asked again after a failure would be seen to do so.
\<close>

datatype 'a fetched = NoResponse | Response nat 'a

type_synonym 'a feed = "nat \<Rightarrow> 'a fetched"

definition ok :: "nat \<Rightarrow> bool" where
  "ok status = (200 \<le> status \<and> status \<le> 299)"

definition fetchJson :: "string \<Rightarrow> 'a feed \<Rightarrow> js_error + 'a" where
  "fetchJson api feed =
     (case feed 0 of
        NoResponse \<Rightarrow> Inl NetworkError
      | Response status body \<Rightarrow> (if \<not> ok status then Inl (ApiError api status) else Inr body))"

definition fetchChains :: "Chain list feed \<Rightarrow> js_error + Chain list" where
  "fetchChains feed = fetchJson ''Chains'' feed"

definition fetchStablecoins :: "StablecoinChain list feed \<Rightarrow> js_error + StablecoinChain list" where
  "fetchStablecoins feed = fetchJson ''Stablecoins'' feed"

definition fetchBridges :: "BridgesBody feed \<Rightarrow> js_error + BridgesBody" where
  "fetchBridges feed = fetchJson ''Bridges'' feed"

text \<open>
  \<open>Promise.all\<close>: all the values, or a failure when one of the promises fails. When
  several fail, the one reported here is the first of the array (in the program, the
  first in time).
\<close>

definition all2 :: "js_error + 'a \<Rightarrow> js_error + 'b \<Rightarrow> js_error + 'a \<times> 'b" where
  "all2 pa pb =
     (case pa of
        Inl e \<Rightarrow> Inl e
      | Inr a \<Rightarrow> (case pb of Inl e \<Rightarrow> Inl e | Inr b \<Rightarrow> Inr (a, b)))"

definition all3 ::
  "js_error + 'a \<Rightarrow> js_error + 'b \<Rightarrow> js_error + 'c \<Rightarrow> js_error + 'a \<times> 'b \<times> 'c" where
  "all3 pa pb pc =
     (case pa of
        Inl e \<Rightarrow> Inl e
      | Inr a \<Rightarrow> (case all2 pb pc of Inl e \<Rightarrow> Inl e | Inr bc \<Rightarrow> Inr (a, bc)))"

text \<open>
  The case-insensitive comparison that every lookup by name of the handlers uses:
  \<open>x.toLowerCase() === name.toLowerCase()\<close>.
\<close>

definition sameName :: "string \<Rightarrow> string \<Rightarrow> bool" where
  "sameName x query = (toLowerCase x = toLowerCase query)"

section \<open>Overview\<close>

record Market =
  totalChains :: nat
  totalTVL :: rendered
  totalTVLRaw :: rat

record Top5Entry =
  rank :: nat
  name :: string
  tvl :: rendered

record Overview =
  fetchedAt :: string
  market :: Market
  top5 :: "Top5Entry list"
  dataSource :: string

text \<open>
  The handler after its fetch; \<open>now\<close> is the reading of the clock. The sort is in
  place: \<open>chains\<close> and \<open>sorted\<close> are one array from then on.
\<close>

definition overview_output :: "string \<Rightarrow> Chain list \<Rightarrow> Overview" where
  "overview_output now fetched =
     (let sorted = js_sort (\<lambda>a b. Chain.tvl b - Chain.tvl a) fetched;
          chains = sorted;
          totalTVL = reduce (\<lambda>sum c. sum + Chain.tvl c) 0 chains
      in \<lparr> fetchedAt = now,
           market = \<lparr> totalChains = length chains,
                      totalTVL = [Lit ''$'', Fixed (js_div totalTVL 1000000000) 1, Lit ''B''],
                      totalTVLRaw = totalTVL \<rparr>,
           top5 = mapi (\<lambda>c i. \<lparr> rank = i + 1,
                                 name = Chain.name c,
                                 tvl = [Lit ''$'', Fixed (js_div (Chain.tvl c) 1000000000) 2,
                                        Lit ''B''] \<rparr>)
                    (slice0 5 sorted),
           dataSource = ''DeFiLlama (live)'' \<rparr>)"

definition overview :: "string \<Rightarrow> Chain list feed \<Rightarrow> js_error + Overview" where
  "overview now chainsFeed =
     (case fetchChains chainsFeed of
        Inl e \<Rightarrow> Inl e
      | Inr body \<Rightarrow> Inr (overview_output now body))"

section \<open>Chain details\<close>

record ChainInfo =
  name :: string
  tvl :: rendered
  tvlRaw :: rat
  rank :: int
  totalChains :: nat
  tokenSymbol :: "string option"
  geckoId :: "string option"
  chainId :: "int option"

record StableInfo =
  totalUSD :: rendered
  totalUSDRaw :: rat

text \<open>The two shapes of the handler's output: the not-found payload, and the details.\<close>

datatype ChainDetails =
  NotFound string "string list"
| Details string ChainInfo "StableInfo option"

text \<open>
  \<open>query\<close> is the input field \<open>chain\<close>. The lookup and the sample of names read
  the array as fetched; the sort comes after them.
\<close>

definition chain_details_output ::
  "string \<Rightarrow> string \<Rightarrow> Chain list \<Rightarrow> StablecoinChain list \<Rightarrow> ChainDetails" where
  "chain_details_output now query fetched stables =
     (case js_find (\<lambda>c. sameName (Chain.name c) query) fetched of
        None \<Rightarrow>
          (let available = map Chain.name (slice0 20 fetched)
           in NotFound ''Chain not found'' available)
      | Some chainData \<Rightarrow>
          (let stableData = js_find (\<lambda>s. sameName (StablecoinChain.name s) query) stables;
               sorted = js_sort (\<lambda>a b. Chain.tvl b - Chain.tvl a) fetched;
               chains = sorted;
               rank = findIndex (\<lambda>c. Chain.name c = Chain.name chainData) sorted + 1
           in Details now
                \<lparr> name = Chain.name chainData,
                  tvl = [Lit ''$'', Fixed (js_div (Chain.tvl chainData) 1000000000) 3, Lit ''B''],
                  tvlRaw = Chain.tvl chainData,
                  rank = rank,
                  totalChains = length chains,
                  tokenSymbol = Chain.tokenSymbol chainData,
                  geckoId = Chain.gecko_id chainData,
                  chainId = Chain.chainId chainData \<rparr>
                (case stableData of
                   None \<Rightarrow> None
                 | Some s \<Rightarrow>
                     Some \<lparr> totalUSD =
                              [Lit ''$'',
                               Fixed (js_div (or_zero (peggedUSD (totalCirculatingUSD s))) 1000000) 1,
                               Lit ''M''],
                            totalUSDRaw = or_zero (peggedUSD (totalCirculatingUSD s)) \<rparr>)))"

definition chain_details ::
  "string \<Rightarrow> string \<Rightarrow> Chain list feed \<Rightarrow> StablecoinChain list feed \<Rightarrow> js_error + ChainDetails" where
  "chain_details now query chainsFeed stablesFeed =
     (case all2 (fetchChains chainsFeed) (fetchStablecoins stablesFeed) of
        Inl e \<Rightarrow> Inl e
      | Inr (body, stables) \<Rightarrow> Inr (chain_details_output now query body stables))"

section \<open>Top chains\<close>

datatype category = All | L2 | L1 | AltL1

record TopChainsInput =
  limit :: rat
  minTvl :: rat
  category :: category

record TopChainEntry =
  rank :: nat
  name :: string
  tvl :: rendered
  tvlRaw :: rat
  tokenSymbol :: "string option"

record TopChains =
  fetchedAt :: string
  filters :: TopChainsInput
  count :: nat
  totalTVL :: rendered
  chains :: "TopChainEntry list"

definition l2Names :: "string list" where
  "l2Names = [''Base'', ''Arbitrum'', ''OP Mainnet'', ''Scroll'', ''Linea'', ''Blast'',
     ''zkSync Era'', ''Polygon zkEVM'', ''Mantle'', ''Mode'', ''Starknet'', ''Taiko'', ''Manta'']"

definition l1Names :: "string list" where
  "l1Names = [''Ethereum'', ''BSC'', ''Solana'', ''Tron'', ''Bitcoin'']"

text \<open>The two tests of the category filters, each written out three times in the handler.\<close>

definition inL2 :: "Chain \<Rightarrow> bool" where
  "inL2 c = some (\<lambda>l2. js_includes (toLowerCase (Chain.name c)) (toLowerCase l2)) l2Names"

definition inL1 :: "Chain \<Rightarrow> bool" where
  "inL1 c = some (\<lambda>l1. js_includes (toLowerCase (Chain.name c)) (toLowerCase l1)) l1Names"

definition by_category :: "category \<Rightarrow> Chain list \<Rightarrow> Chain list" where
  "by_category cat filtered =
     (if cat = L2 then filter inL2 filtered
      else if cat = L1 then filter inL1 filtered
      else if cat = AltL1 then filter (\<lambda>c. \<not> inL2 c \<and> \<not> inL1 c) filtered
      else filtered)"

text \<open>The handler's \<open>filtered\<close> (after both filters) and \<open>sorted\<close>.\<close>

definition top_chains_filtered :: "TopChainsInput \<Rightarrow> Chain list \<Rightarrow> Chain list" where
  "top_chains_filtered input fetched =
     by_category (category input) (filter (\<lambda>c. minTvl input \<le> Chain.tvl c) fetched)"

definition top_chains_sorted :: "TopChainsInput \<Rightarrow> Chain list \<Rightarrow> Chain list" where
  "top_chains_sorted input fetched =
     slice0 (limit input)
       (js_sort (\<lambda>a b. Chain.tvl b - Chain.tvl a) (top_chains_filtered input fetched))"

definition top_chains_output :: "string \<Rightarrow> TopChainsInput \<Rightarrow> Chain list \<Rightarrow> TopChains" where
  "top_chains_output now input fetched =
     (let sorted = top_chains_sorted input fetched;
          totalTVL = reduce (\<lambda>sum c. sum + Chain.tvl c) 0 sorted
      in \<lparr> fetchedAt = now,
           filters = \<lparr> limit = limit input, minTvl = minTvl input, category = category input \<rparr>,
           count = length sorted,
           totalTVL = [Lit ''$'', Fixed (js_div totalTVL 1000000000) 2, Lit ''B''],
           chains = mapi (\<lambda>c i. \<lparr> rank = i + 1,
                                   name = Chain.name c,
                                   tvl = [Lit ''$'', Fixed (js_div (Chain.tvl c) 1000000000) 3,
                                          Lit ''B''],
                                   tvlRaw = Chain.tvl c,
                                   tokenSymbol = Chain.tokenSymbol c \<rparr>)
                      sorted \<rparr>)"

definition top_chains :: "string \<Rightarrow> TopChainsInput \<Rightarrow> Chain list feed \<Rightarrow> js_error + TopChains" where
  "top_chains now input chainsFeed =
     (case fetchChains chainsFeed of
        Inl e \<Rightarrow> Inl e
      | Inr body \<Rightarrow> Inr (top_chains_output now input body))"

section \<open>Stablecoin distribution\<close>

record StablecoinFlowsInput =
  limit :: rat

record WithUSD =
  name :: string
  stablecoinsUSD :: rat
  tokenSymbol :: "string option"

record DistEntry =
  rank :: nat
  chain :: string
  stablecoins :: rendered
  stablecoinsRaw :: rat
  share :: rendered

record StablecoinFlows =
  fetchedAt :: string
  totalStablecoins :: rendered
  chainCount :: nat
  distribution :: "DistEntry list"

text \<open>\<open>v > 0\<close> on a number that may be absent: false when it is.\<close>

definition positive :: "rat option \<Rightarrow> bool" where
  "positive v = (case v of None \<Rightarrow> False | Some x \<Rightarrow> 0 < x)"

text \<open>
  The handler's \<open>withUSD\<close> and \<open>totalStables\<close>. The non-null assertion of the
  source is \<open>the\<close>: it only reads records that passed the filter.
\<close>

definition withUSD :: "StablecoinFlowsInput \<Rightarrow> StablecoinChain list \<Rightarrow> WithUSD list" where
  "withUSD input stables =
     slice0 (limit input)
       (js_sort (\<lambda>a b. stablecoinsUSD b - stablecoinsUSD a)
          (map (\<lambda>s. \<lparr> name = StablecoinChain.name s,
                       stablecoinsUSD = the (peggedUSD (totalCirculatingUSD s)),
                       tokenSymbol = StablecoinChain.tokenSymbol s \<rparr>)
             (filter (\<lambda>s. truthy (peggedUSD (totalCirculatingUSD s)) \<and>
                           positive (peggedUSD (totalCirculatingUSD s)))
                stables)))"

definition totalStables :: "StablecoinFlowsInput \<Rightarrow> StablecoinChain list \<Rightarrow> rat" where
  "totalStables input stables = reduce (\<lambda>sum s. sum + stablecoinsUSD s) 0 (withUSD input stables)"

definition stablecoin_flows_output :: "string \<Rightarrow> StablecoinFlowsInput \<Rightarrow> StablecoinChain list \<Rightarrow> StablecoinFlows" where
  "stablecoin_flows_output now input stables =
     \<lparr> fetchedAt = now,
       totalStablecoins =
         [Lit ''$'', Fixed (js_div (totalStables input stables) 1000000000) 2, Lit ''B''],
       chainCount = length (withUSD input stables),
       distribution =
         mapi (\<lambda>s i. \<lparr> rank = i + 1,
                        chain = WithUSD.name s,
                        stablecoins = [Lit ''$'', Fixed (js_div (stablecoinsUSD s) 1000000000) 3,
                                       Lit ''B''],
                        stablecoinsRaw = stablecoinsUSD s,
                        share = [Fixed (js_times (js_div (stablecoinsUSD s)
                                                    (totalStables input stables)) 100) 1,
                                 Lit ''%''] \<rparr>)
           (withUSD input stables) \<rparr>"

definition stablecoin_flows ::
  "string \<Rightarrow> StablecoinFlowsInput \<Rightarrow> StablecoinChain list feed \<Rightarrow> js_error + StablecoinFlows" where
  "stablecoin_flows now input stablesFeed =
     (case fetchStablecoins stablesFeed of
        Inl e \<Rightarrow> Inl e
      | Inr stables \<Rightarrow> Inr (stablecoin_flows_output now input stables))"

section \<open>Bridge volume\<close>

datatype period = P24h | P7d | P30d

record BridgeVolumeInput =
  limit :: rat
  period :: period

record BridgeEntry =
  rank :: nat
  name :: string
  volume :: rendered
  volumeRaw :: rat
  share :: rendered
  supportedChains :: nat
  chains :: "string list"

record BridgeVolume =
  fetchedAt :: string
  period :: period
  totalVolume :: rendered
  bridgeCount :: nat
  bridges :: "BridgeEntry list"

text \<open>The volume field the period selects, and \<open>b[volumeKey]\<close> for the input's period.\<close>

definition volumeKey :: "period \<Rightarrow> Bridge \<Rightarrow> rat" where
  "volumeKey p =
     (if p = P24h then last24hVolume else if p = P7d then weeklyVolume else monthlyVolume)"

definition volumeOf :: "BridgeVolumeInput \<Rightarrow> Bridge \<Rightarrow> rat" where
  "volumeOf input b = volumeKey (BridgeVolumeInput.period input) b"

text \<open>The handler's \<open>sorted\<close> and \<open>totalVolume\<close>.\<close>

definition bridge_sorted :: "BridgeVolumeInput \<Rightarrow> Bridge list \<Rightarrow> Bridge list" where
  "bridge_sorted input fetched =
     slice0 (BridgeVolumeInput.limit input)
       (js_sort (\<lambda>a b. volumeOf input b - volumeOf input a)
          (filter (\<lambda>b. 0 < volumeOf input b) fetched))"

definition totalVolume_of :: "BridgeVolumeInput \<Rightarrow> Bridge list \<Rightarrow> rat" where
  "totalVolume_of input fetched =
     reduce (\<lambda>sum b. sum + volumeOf input b) 0 (bridge_sorted input fetched)"

definition bridge_volume_output :: "string \<Rightarrow> BridgeVolumeInput \<Rightarrow> Bridge list \<Rightarrow> BridgeVolume" where
  "bridge_volume_output now input fetched =
     \<lparr> fetchedAt = now,
       period = BridgeVolumeInput.period input,
       totalVolume =
         [Lit ''$'', Fixed (js_div (totalVolume_of input fetched) 1000000000) 2, Lit ''B''],
       bridgeCount = length (bridge_sorted input fetched),
       bridges =
         mapi (\<lambda>b i. \<lparr> rank = i + 1,
                        name = displayName b,
                        volume = [Lit ''$'', Fixed (js_div (volumeOf input b) 1000000) 1, Lit ''M''],
                        volumeRaw = volumeOf input b,
                        share = [Fixed (js_times (js_div (volumeOf input b)
                                                    (totalVolume_of input fetched)) 100) 1,
                                 Lit ''%''],
                        supportedChains = length (Bridge.chains b),
                        chains = slice0 5 (Bridge.chains b) \<rparr>)
           (bridge_sorted input fetched) \<rparr>"

definition bridge_volume ::
  "string \<Rightarrow> BridgeVolumeInput \<Rightarrow> BridgesBody feed \<Rightarrow> js_error + BridgeVolume" where
  "bridge_volume now input bridgesFeed =
     (case fetchBridges bridgesFeed of
        Inl e \<Rightarrow> Inl e
      | Inr body \<Rightarrow> Inr (bridge_volume_output now input (BridgesBody.bridges body)))"

section \<open>Chain comparison\<close>

record CompareEntry =
  name :: string
  found :: bool
  tvl :: "rendered option"
  tvlRaw :: rat
  rank :: "int option"
  tokenSymbol :: "string option option"
  stablecoins :: "rendered option"
  stablecoinsRaw :: rat
  bridgesSupported :: nat

record Winners =
  highestTVL :: string
  mostStablecoins :: string

record Compare =
  fetchedAt :: string
  chainsCompared :: nat
  comparison :: "CompareEntry list"
  winners :: Winners
  summary :: rendered

text \<open>
  One entry of \<open>comparison\<close>. \<open>allChains\<close> is the array the handler has already
  sorted in place, so the lookup of the chain reads the sorted order.
\<close>

definition compare_entry ::
  "Chain list \<Rightarrow> StablecoinChain list \<Rightarrow> Bridge list \<Rightarrow> string \<Rightarrow> CompareEntry" where
  "compare_entry allChains stables fetchedBridges query =
     (let sorted = allChains;
          chain = js_find (\<lambda>c. sameName (Chain.name c) query) allChains;
          stable = js_find (\<lambda>s. sameName (StablecoinChain.name s) query) stables;
          rank = (case chain of
                    None \<Rightarrow> None
                  | Some ch \<Rightarrow> Some (findIndex (\<lambda>c. Chain.name c = Chain.name ch) sorted + 1));
          bridgeCount = length (filter (\<lambda>b. some (\<lambda>c. sameName c query) (Bridge.chains b))
                                  fetchedBridges);
          pegged = (case stable of None \<Rightarrow> None | Some s \<Rightarrow> peggedUSD (totalCirculatingUSD s))
      in \<lparr> name = (case chain of
                     None \<Rightarrow> query
                   | Some ch \<Rightarrow> (if Chain.name ch = [] then query else Chain.name ch)),
           found = (chain \<noteq> None),
           tvl = (case chain of
                    None \<Rightarrow> None
                  | Some ch \<Rightarrow>
                      Some [Lit ''$'', Fixed (js_div (Chain.tvl ch) 1000000000) 3, Lit ''B'']),
           tvlRaw = or_zero (map_option Chain.tvl chain),
           rank = rank,
           tokenSymbol = map_option Chain.tokenSymbol chain,
           stablecoins = (if truthy pegged
                          then Some [Lit ''$'', Fixed (js_div (the pegged) 1000000) 1, Lit ''M'']
                          else None),
           stablecoinsRaw = or_zero pegged,
           bridgesSupported = bridgeCount \<rparr>)"

text \<open>The two callbacks of the winners' \<open>reduce\<close>.\<close>

definition moreTVL :: "CompareEntry \<Rightarrow> CompareEntry \<Rightarrow> CompareEntry" where
  "moreTVL a b = (if tvlRaw a > tvlRaw b then a else b)"

definition moreStable :: "CompareEntry \<Rightarrow> CompareEntry \<Rightarrow> CompareEntry" where
  "moreStable a b = (if stablecoinsRaw a > stablecoinsRaw b then a else b)"

text \<open>\<open>parts.join(sep)\<close> on template strings.\<close>

fun join :: "rendered \<Rightarrow> rendered list \<Rightarrow> rendered" where
  "join sep [] = []"
| "join sep [p] = p"
| "join sep (p # q # ps) = p @ sep @ join sep (q # ps)"

definition chain_compare_output ::
  "string \<Rightarrow> string list \<Rightarrow> Chain list \<Rightarrow> StablecoinChain list \<Rightarrow> Bridge list
     \<Rightarrow> js_error + Compare" where
  "chain_compare_output now chainNames fetched stables fetchedBridges =
     (let sorted = js_sort (\<lambda>a b. Chain.tvl b - Chain.tvl a) fetched;
          allChains = sorted;
          comparison = map (compare_entry allChains stables fetchedBridges) chainNames
      in case reduce1 moreTVL comparison of
           Inl e \<Rightarrow> Inl e
         | Inr tvlWinner \<Rightarrow>
             (case reduce1 moreStable comparison of
                Inl e \<Rightarrow> Inl e
              | Inr stableWinner \<Rightarrow>
                  Inr \<lparr> fetchedAt = now,
                        chainsCompared = length chainNames,
                        comparison = comparison,
                        winners = \<lparr> highestTVL = CompareEntry.name tvlWinner,
                                    mostStablecoins = CompareEntry.name stableWinner \<rparr>,
                        summary =
                          join [Lit '' | '']
                            (map (\<lambda>c. [Lit (CompareEntry.name c), Lit '': ''] @
                                       (case CompareEntry.tvl c of
                                          None \<Rightarrow> [Lit ''N/A'']
                                        | Some t \<Rightarrow> t))
                               comparison) \<rparr>))"

definition chain_compare ::
  "string \<Rightarrow> string list \<Rightarrow> Chain list feed \<Rightarrow> StablecoinChain list feed \<Rightarrow> BridgesBody feed
     \<Rightarrow> js_error + Compare" where
  "chain_compare now chainNames chainsFeed stablesFeed bridgesFeed =
     (case all3 (fetchChains chainsFeed) (fetchStablecoins stablesFeed) (fetchBridges bridgesFeed) of
        Inl e \<Rightarrow> Inl e
      | Inr (body, stables, bridgesBody) \<Rightarrow>
          chain_compare_output now chainNames body stables (BridgesBody.bridges bridgesBody))"

section \<open>The numbers of the program: doubles\<close>

text \<open>
  The handlers above compute with exact rationals, which is what their lookups, filters and
  orderings need. The numbers of the program are IEEE doubles: a JSON number is rounded to
  the nearest double when the feed is parsed (one beyond the range of doubles to an
  infinity), and every sum, quotient and product is rounded again and can overflow. This
  section gives that arithmetic; the next one gives the three views whose totals and shares
  depend on it.

  A double is a \<open>jsnum\<close>: \<open>Num r\<close> with \<open>r\<close> on the grid of doubles, an infinity, or
  NaN. The sign of zero is left out (\<open>-0\<close> is \<open>Num 0\<close>).
\<close>

text \<open>Rounding to the nearest integer, a tie to the even one.\<close>

definition rhe :: "rat \<Rightarrow> int" where
  "rhe y =
     (let f = \<lfloor>y\<rfloor>; r = y - of_int f
      in if r < 1 / 2 then f else if 1 / 2 < r then f + 1 else if even f then f else f + 1)"

text \<open>The binary exponent of a positive rational: \<open>2 ^ expo x \<le> x < 2 ^ (expo x + 1)\<close>.\<close>

definition expo :: "rat \<Rightarrow> int" where
  "expo x =
     (let (p, q) = quotient_of x; d = bitlen p - bitlen q
      in if 2 powi d \<le> x then d else d - 1)"

text \<open>
  The doubles around a positive \<open>x\<close> are the multiples of \<open>ulp x\<close>: 53 significant
  bits, and the fixed step \<open>2 ^ -1074\<close> below \<open>2 ^ -1022\<close>. \<open>nearest x\<close> is the nearest
  of them, a tie going to the even multiple; from \<open>2 ^ 1024\<close> on the result is Infinity.
\<close>

definition ulp :: "rat \<Rightarrow> rat" where
  "ulp x = 2 powi (max (expo x) (- 1022) - 52)"

definition nearest :: "rat \<Rightarrow> rat" where
  "nearest x = of_int (rhe (x / ulp x)) * ulp x"

definition round_pos :: "rat \<Rightarrow> jsnum" where
  "round_pos x = (if 2 powi 1024 \<le> nearest x then PosInf else Num (nearest x))"

definition negate :: "jsnum \<Rightarrow> jsnum" where
  "negate x = (case x of Num a \<Rightarrow> Num (- a) | NaN \<Rightarrow> NaN | PosInf \<Rightarrow> NegInf | NegInf \<Rightarrow> PosInf)"

definition to_double :: "rat \<Rightarrow> jsnum" where
  "to_double x =
     (if x = 0 then Num 0 else if 0 < x then round_pos x else negate (round_pos (- x)))"

text \<open>\<open>x + y\<close>, \<open>x - y\<close>, \<open>x * y\<close> and \<open>x / y\<close> on doubles.\<close>

fun dadd :: "jsnum \<Rightarrow> jsnum \<Rightarrow> jsnum" where
  "dadd (Num a) (Num b) = to_double (a + b)"
| "dadd NaN y = NaN"
| "dadd x NaN = NaN"
| "dadd PosInf NegInf = NaN"
| "dadd NegInf PosInf = NaN"
| "dadd PosInf y = PosInf"
| "dadd x PosInf = PosInf"
| "dadd NegInf y = NegInf"
| "dadd x NegInf = NegInf"

definition dsub :: "jsnum \<Rightarrow> jsnum \<Rightarrow> jsnum" where
  "dsub x y = dadd x (negate y)"

fun dmul :: "jsnum \<Rightarrow> jsnum \<Rightarrow> jsnum" where
  "dmul (Num a) (Num b) = to_double (a * b)"
| "dmul NaN y = NaN"
| "dmul x NaN = NaN"
| "dmul PosInf (Num b) = (if b = 0 then NaN else if 0 < b then PosInf else NegInf)"
| "dmul NegInf (Num b) = (if b = 0 then NaN else if 0 < b then NegInf else PosInf)"
| "dmul (Num a) PosInf = (if a = 0 then NaN else if 0 < a then PosInf else NegInf)"
| "dmul (Num a) NegInf = (if a = 0 then NaN else if 0 < a then NegInf else PosInf)"
| "dmul PosInf PosInf = PosInf"
| "dmul NegInf NegInf = PosInf"
| "dmul PosInf NegInf = NegInf"
| "dmul NegInf PosInf = NegInf"

fun ddiv :: "jsnum \<Rightarrow> jsnum \<Rightarrow> jsnum" where
  "ddiv (Num a) (Num b) =
     (if b \<noteq> 0 then to_double (a / b)
      else if a = 0 then NaN
      else if 0 < a then PosInf else NegInf)"
| "ddiv NaN y = NaN"
| "ddiv x NaN = NaN"
| "ddiv (Num a) PosInf = Num 0"
| "ddiv (Num a) NegInf = Num 0"
| "ddiv PosInf (Num b) = (if 0 \<le> b then PosInf else NegInf)"
| "ddiv NegInf (Num b) = (if 0 \<le> b then NegInf else PosInf)"
| "ddiv PosInf PosInf = NaN"
| "ddiv PosInf NegInf = NaN"
| "ddiv NegInf PosInf = NaN"
| "ddiv NegInf NegInf = NaN"

text \<open>\<open>x <= y\<close> and \<open>x < y\<close> on doubles: false when either is NaN.\<close>

fun dle :: "jsnum \<Rightarrow> jsnum \<Rightarrow> bool" where
  "dle (Num a) (Num b) = (a \<le> b)"
| "dle NaN y = False"
| "dle x NaN = False"
| "dle NegInf y = True"
| "dle x PosInf = True"
| "dle PosInf y = False"
| "dle x NegInf = False"

fun dlt :: "jsnum \<Rightarrow> jsnum \<Rightarrow> bool" where
  "dlt (Num a) (Num b) = (a < b)"
| "dlt NaN y = False"
| "dlt x NaN = False"
| "dlt PosInf y = False"
| "dlt x NegInf = False"
| "dlt NegInf y = True"
| "dlt x PosInf = True"

text \<open>
  How \<open>sort\<close> reads the answer of its comparator: as a number, NaN as 0. Only the sign
  is used.
\<close>

definition cmp_num :: "jsnum \<Rightarrow> rat" where
  "cmp_num v = (case v of Num a \<Rightarrow> a | NaN \<Rightarrow> 0 | PosInf \<Rightarrow> 1 | NegInf \<Rightarrow> - 1)"

text \<open>Truthiness of a double that may be absent, and \<open>v > 0\<close> on one.\<close>

definition dtruthy :: "jsnum option \<Rightarrow> bool" where
  "dtruthy v = (case v of None \<Rightarrow> False | Some x \<Rightarrow> x \<noteq> NaN \<and> x \<noteq> Num 0)"

definition dpositive :: "jsnum option \<Rightarrow> bool" where
  "dpositive v = (case v of None \<Rightarrow> False | Some x \<Rightarrow> dlt (Num 0) x)"

section \<open>Top chains, stablecoin distribution and bridge volume on doubles\<close>

text \<open>
  The three feeds with their numbers as doubles, and the three handlers whose totals and
  shares are sums and quotients of them, statement by statement as above with the
  arithmetic of doubles. The names of these records and functions, and of the fields,
  carry a \<open>D\<close> or \<open>_d\<close> to keep them apart from those above.
\<close>

record ChainD =
  name_d :: string
  tvl_d :: jsnum
  tokenSymbol_d :: "string option"
  gecko_id_d :: "string option"
  chainId_d :: "int option"

record CirculatingD =
  peggedUSD_d :: "jsnum option"

record StablecoinChainD =
  name_d :: string
  gecko_id_d :: "string option"
  tokenSymbol_d :: "string option"
  totalCirculatingUSD_d :: CirculatingD

record BridgeD =
  bridgeId_d :: int
  name_d :: string
  displayName_d :: string
  last24hVolume_d :: jsnum
  weeklyVolume_d :: jsnum
  monthlyVolume_d :: jsnum
  chains_d :: "string list"

subsection \<open>Top chains\<close>

record TopChainEntryD =
  rank_d :: nat
  name_d :: string
  tvl_d :: rendered
  tvlRaw_d :: jsnum
  tokenSymbol_d :: "string option"

record TopChainsD =
  fetchedAt_d :: string
  filters_d :: TopChainsInput
  count_d :: nat
  totalTVL_d :: rendered
  chains_d :: "TopChainEntryD list"

definition inL2_d :: "ChainD \<Rightarrow> bool" where
  "inL2_d c = some (\<lambda>l2. js_includes (toLowerCase (ChainD.name_d c)) (toLowerCase l2)) l2Names"

definition inL1_d :: "ChainD \<Rightarrow> bool" where
  "inL1_d c = some (\<lambda>l1. js_includes (toLowerCase (ChainD.name_d c)) (toLowerCase l1)) l1Names"

definition by_category_d :: "category \<Rightarrow> ChainD list \<Rightarrow> ChainD list" where
  "by_category_d cat filtered =
     (if cat = L2 then filter inL2_d filtered
      else if cat = L1 then filter inL1_d filtered
      else if cat = AltL1 then filter (\<lambda>c. \<not> inL2_d c \<and> \<not> inL1_d c) filtered
      else filtered)"

definition top_chains_filtered_d :: "TopChainsInput \<Rightarrow> ChainD list \<Rightarrow> ChainD list" where
  "top_chains_filtered_d input fetched =
     by_category_d (category input)
       (filter (\<lambda>c. dle (Num (minTvl input)) (ChainD.tvl_d c)) fetched)"

definition top_chains_all_d :: "TopChainsInput \<Rightarrow> ChainD list \<Rightarrow> ChainD list" where
  "top_chains_all_d input fetched =
     js_sort (\<lambda>a b. cmp_num (dsub (ChainD.tvl_d b) (ChainD.tvl_d a)))
       (top_chains_filtered_d input fetched)"

definition top_chains_sorted_d :: "TopChainsInput \<Rightarrow> ChainD list \<Rightarrow> ChainD list" where
  "top_chains_sorted_d input fetched =
     slice0 (TopChainsInput.limit input) (top_chains_all_d input fetched)"

definition top_chains_output_d :: "string \<Rightarrow> TopChainsInput \<Rightarrow> ChainD list \<Rightarrow> TopChainsD" where
  "top_chains_output_d now input fetched =
     (let sorted = top_chains_sorted_d input fetched;
          totalTVL = reduce (\<lambda>sum c. dadd sum (ChainD.tvl_d c)) (Num 0) sorted
      in \<lparr> fetchedAt_d = now,
           filters_d = \<lparr> TopChainsInput.limit = TopChainsInput.limit input,
                         minTvl = minTvl input, category = category input \<rparr>,
           count_d = length sorted,
           totalTVL_d = [Lit ''$'', Fixed (ddiv totalTVL (Num 1000000000)) 2, Lit ''B''],
           chains_d = mapi (\<lambda>c i. \<lparr> rank_d = i + 1,
                                     name_d = ChainD.name_d c,
                                     tvl_d = [Lit ''$'',
                                              Fixed (ddiv (ChainD.tvl_d c) (Num 1000000000)) 3,
                                              Lit ''B''],
                                     tvlRaw_d = ChainD.tvl_d c,
                                     tokenSymbol_d = ChainD.tokenSymbol_d c \<rparr>)
                        sorted \<rparr>)"

subsection \<open>Stablecoin distribution\<close>

record WithUSDD =
  name_d :: string
  stablecoinsUSD_d :: jsnum
  tokenSymbol_d :: "string option"

record DistEntryD =
  rank_d :: nat
  chain_d :: string
  stablecoins_d :: rendered
  stablecoinsRaw_d :: jsnum
  share_d :: rendered

record StablecoinFlowsD =
  fetchedAt_d :: string
  totalStablecoins_d :: rendered
  chainCount_d :: nat
  distribution_d :: "DistEntryD list"

definition withUSD_d :: "StablecoinFlowsInput \<Rightarrow> StablecoinChainD list \<Rightarrow> WithUSDD list" where
  "withUSD_d input stables =
     slice0 (StablecoinFlowsInput.limit input)
       (js_sort (\<lambda>a b. cmp_num (dsub (stablecoinsUSD_d b) (stablecoinsUSD_d a)))
          (map (\<lambda>s. \<lparr> WithUSDD.name_d = StablecoinChainD.name_d s,
                       stablecoinsUSD_d = the (peggedUSD_d (totalCirculatingUSD_d s)),
                       tokenSymbol_d = StablecoinChainD.tokenSymbol_d s \<rparr>)
             (filter (\<lambda>s. dtruthy (peggedUSD_d (totalCirculatingUSD_d s)) \<and>
                           dpositive (peggedUSD_d (totalCirculatingUSD_d s)))
                stables)))"

definition totalStables_d :: "StablecoinFlowsInput \<Rightarrow> StablecoinChainD list \<Rightarrow> jsnum" where
  "totalStables_d input stables =
     reduce (\<lambda>sum s. dadd sum (stablecoinsUSD_d s)) (Num 0) (withUSD_d input stables)"

definition stablecoin_flows_output_d ::
  "string \<Rightarrow> StablecoinFlowsInput \<Rightarrow> StablecoinChainD list \<Rightarrow> StablecoinFlowsD" where
  "stablecoin_flows_output_d now input stables =
     \<lparr> fetchedAt_d = now,
       totalStablecoins_d =
         [Lit ''$'', Fixed (ddiv (totalStables_d input stables) (Num 1000000000)) 2, Lit ''B''],
       chainCount_d = length (withUSD_d input stables),
       distribution_d =
         mapi (\<lambda>s i. \<lparr> rank_d = i + 1,
                        chain_d = WithUSDD.name_d s,
                        stablecoins_d = [Lit ''$'',
                                         Fixed (ddiv (stablecoinsUSD_d s) (Num 1000000000)) 3,
                                         Lit ''B''],
                        stablecoinsRaw_d = stablecoinsUSD_d s,
                        share_d = [Fixed (dmul (ddiv (stablecoinsUSD_d s)
                                                  (totalStables_d input stables)) (Num 100)) 1,
                                   Lit ''%''] \<rparr>)
           (withUSD_d input stables) \<rparr>"

subsection \<open>Bridge volume\<close>

record BridgeEntryD =
  rank_d :: nat
  name_d :: string
  volume_d :: rendered
  volumeRaw_d :: jsnum
  share_d :: rendered
  supportedChains_d :: nat
  chains_d :: "string list"

record BridgeVolumeD =
  fetchedAt_d :: string
  period_d :: period
  totalVolume_d :: rendered
  bridgeCount_d :: nat
  bridges_d :: "BridgeEntryD list"

definition volumeKey_d :: "period \<Rightarrow> BridgeD \<Rightarrow> jsnum" where
  "volumeKey_d p =
     (if p = P24h then last24hVolume_d else if p = P7d then weeklyVolume_d else monthlyVolume_d)"

definition volumeOf_d :: "BridgeVolumeInput \<Rightarrow> BridgeD \<Rightarrow> jsnum" where
  "volumeOf_d input b = volumeKey_d (BridgeVolumeInput.period input) b"

definition bridge_sorted_d :: "BridgeVolumeInput \<Rightarrow> BridgeD list \<Rightarrow> BridgeD list" where
  "bridge_sorted_d input fetched =
     slice0 (BridgeVolumeInput.limit input)
       (js_sort (\<lambda>a b. cmp_num (dsub (volumeOf_d input b) (volumeOf_d input a)))
          (filter (\<lambda>b. dlt (Num 0) (volumeOf_d input b)) fetched))"

definition totalVolume_d_of :: "BridgeVolumeInput \<Rightarrow> BridgeD list \<Rightarrow> jsnum" where
  "totalVolume_d_of input fetched =
     reduce (\<lambda>sum b. dadd sum (volumeOf_d input b)) (Num 0) (bridge_sorted_d input fetched)"

definition bridge_volume_output_d :: "string \<Rightarrow> BridgeVolumeInput \<Rightarrow> BridgeD list \<Rightarrow> BridgeVolumeD" where
  "bridge_volume_output_d now input fetched =
     \<lparr> fetchedAt_d = now,
       period_d = BridgeVolumeInput.period input,
       totalVolume_d =
         [Lit ''$'', Fixed (ddiv (totalVolume_d_of input fetched) (Num 1000000000)) 2, Lit ''B''],
       bridgeCount_d = length (bridge_sorted_d input fetched),
       bridges_d =
         mapi (\<lambda>b i. \<lparr> rank_d = i + 1,
                        name_d = displayName_d b,
                        volume_d = [Lit ''$'', Fixed (ddiv (volumeOf_d input b) (Num 1000000)) 1,
                                    Lit ''M''],
                        volumeRaw_d = volumeOf_d input b,
                        share_d = [Fixed (dmul (ddiv (volumeOf_d input b)
                                                  (totalVolume_d_of input fetched)) (Num 100)) 1,
                                   Lit ''%''],
                        supportedChains_d = length (BridgeD.chains_d b),
                        chains_d = slice0 5 (BridgeD.chains_d b) \<rparr>)
           (bridge_sorted_d input fetched) \<rparr>"

section \<open>Notions the properties are stated with\<close>

text \<open>An answer of the provider that makes the fetch fail: none, or a non-success status.\<close>

definition failed :: "'a fetched \<Rightarrow> bool" where
  "failed r = (case r of NoResponse \<Rightarrow> True | Response status body \<Rightarrow> \<not> ok status)"

text \<open>What the input schema of top-chains accepts for \<open>limit\<close>: a number from 1 to 50.\<close>

definition valid_top_chains_input :: "TopChainsInput \<Rightarrow> bool" where
  "valid_top_chains_input input =
     (1 \<le> TopChainsInput.limit input \<and> TopChainsInput.limit input \<le> 50)"

text \<open>
  A list \<open>shown\<close> ranks the candidates by \<open>f\<close> in descending order and stably:
  \<open>f\<close> does not increase along it, and for every value the entries shown with that
  value are the first candidates with that value, in the candidates' order.
\<close>

definition stable_desc :: "('a \<Rightarrow> rat) \<Rightarrow> 'a list \<Rightarrow> 'a list \<Rightarrow> bool" where
  "stable_desc f candidates shown =
     (sorted_wrt (\<lambda>a b. f b \<le> f a) shown \<and>
      (\<forall>v. prefix (filter (\<lambda>x. f x = v) shown) (filter (\<lambda>x. f x = v) candidates)))"

text \<open>Small feeds on which the properties are run.\<close>

definition example_chains :: "Chain list" where
  "example_chains =
     [\<lparr> Chain.name = ''Base'', tvl = 5000000000, tokenSymbol = None,
        gecko_id = None, chainId = Some 8453 \<rparr>,
      \<lparr> Chain.name = ''Ethereum'', tvl = 50000000000, tokenSymbol = Some ''ETH'',
        gecko_id = Some ''ethereum'', chainId = Some 1 \<rparr>,
      \<lparr> Chain.name = ''Tron'', tvl = 5000000000, tokenSymbol = Some ''TRON'',
        gecko_id = Some ''tron'', chainId = None \<rparr>]"

definition example_stables :: "StablecoinChain list" where
  "example_stables =
     [\<lparr> StablecoinChain.name = ''Tron'', gecko_id = None, tokenSymbol = Some ''TRON'',
        totalCirculatingUSD = \<lparr> peggedUSD = Some 1 \<rparr> \<rparr>,
      \<lparr> StablecoinChain.name = ''Solana'', gecko_id = None, tokenSymbol = None,
        totalCirculatingUSD = \<lparr> peggedUSD = None \<rparr> \<rparr>,
      \<lparr> StablecoinChain.name = ''Ethereum'', gecko_id = None, tokenSymbol = Some ''ETH'',
        totalCirculatingUSD = \<lparr> peggedUSD = Some 3 \<rparr> \<rparr>,
      \<lparr> StablecoinChain.name = ''BSC'', gecko_id = None, tokenSymbol = None,
        totalCirculatingUSD = \<lparr> peggedUSD = Some 0 \<rparr> \<rparr>]"

definition example_bridges :: "Bridge list" where
  "example_bridges =
     [\<lparr> bridgeId = 1, Bridge.name = ''first'', displayName = ''First'', last24hVolume = 7,
        weeklyVolume = 100, monthlyVolume = 300, chains = [''Ethereum'', ''Base''] \<rparr>,
      \<lparr> bridgeId = 2, Bridge.name = ''second'', displayName = ''Second'', last24hVolume = 0,
        weeklyVolume = 0, monthlyVolume = 10, chains = [''ethereum''] \<rparr>]"

text \<open>A stablecoin feed with a record for a name that the chains feed above does not have.\<close>

definition example_unlisted :: "StablecoinChain list" where
  "example_unlisted =
     [\<lparr> StablecoinChain.name = ''Aptos'', gecko_id = None, tokenSymbol = Some ''APT'',
        totalCirculatingUSD = \<lparr> peggedUSD = Some 10 \<rparr> \<rparr>]"

text \<open>A chain record whose name holds an entry of each of the two lists.\<close>

definition example_both :: Chain where
  "example_both =
     \<lparr> Chain.name = ''Ethereum Mode'', tvl = 1000000, tokenSymbol = None,
       gecko_id = None, chainId = None \<rparr>"

text \<open>
  The doubles: a \<open>Num r\<close> is one when rounding leaves \<open>r\<close> as it is. Every number that
  the parsing of a feed gives is a double; it is finite unless the JSON number was beyond
  the range (\<open>1e400\<close> parses to Infinity).
\<close>

definition is_double :: "jsnum \<Rightarrow> bool" where
  "is_double x = (case x of Num a \<Rightarrow> to_double a = Num a | _ \<Rightarrow> True)"

definition finite_double :: "jsnum \<Rightarrow> bool" where
  "finite_double x = (case x of Num a \<Rightarrow> to_double a = Num a | _ \<Rightarrow> False)"

text \<open>The small feeds above with their numbers as doubles.\<close>

definition example_chains_d :: "ChainD list" where
  "example_chains_d =
     [\<lparr> ChainD.name_d = ''Base'', tvl_d = Num 5000000000, tokenSymbol_d = None,
        gecko_id_d = None, chainId_d = Some 8453 \<rparr>,
      \<lparr> ChainD.name_d = ''Ethereum'', tvl_d = Num 50000000000, tokenSymbol_d = Some ''ETH'',
        gecko_id_d = Some ''ethereum'', chainId_d = Some 1 \<rparr>,
      \<lparr> ChainD.name_d = ''Tron'', tvl_d = Num 5000000000, tokenSymbol_d = Some ''TRON'',
        gecko_id_d = Some ''tron'', chainId_d = None \<rparr>]"

definition example_stables_d :: "StablecoinChainD list" where
  "example_stables_d =
     [\<lparr> StablecoinChainD.name_d = ''Tron'', gecko_id_d = None, tokenSymbol_d = Some ''TRON'',
        totalCirculatingUSD_d = \<lparr> peggedUSD_d = Some (Num 1) \<rparr> \<rparr>,
      \<lparr> StablecoinChainD.name_d = ''Solana'', gecko_id_d = None, tokenSymbol_d = None,
        totalCirculatingUSD_d = \<lparr> peggedUSD_d = None \<rparr> \<rparr>,
      \<lparr> StablecoinChainD.name_d = ''Ethereum'', gecko_id_d = None, tokenSymbol_d = Some ''ETH'',
        totalCirculatingUSD_d = \<lparr> peggedUSD_d = Some (Num 3) \<rparr> \<rparr>,
      \<lparr> StablecoinChainD.name_d = ''BSC'', gecko_id_d = None, tokenSymbol_d = None,
        totalCirculatingUSD_d = \<lparr> peggedUSD_d = Some (Num 0) \<rparr> \<rparr>]"

definition example_bridges_d :: "BridgeD list" where
  "example_bridges_d =
     [\<lparr> bridgeId_d = 1, BridgeD.name_d = ''first'', displayName_d = ''First'',
        last24hVolume_d = Num 7, weeklyVolume_d = Num 100, monthlyVolume_d = Num 300,
        chains_d = [''Ethereum'', ''Base''] \<rparr>,
      \<lparr> bridgeId_d = 2, BridgeD.name_d = ''second'', displayName_d = ''Second'',
        last24hVolume_d = Num 0, weeklyVolume_d = Num 0, monthlyVolume_d = Num 10,
        chains_d = [''ethereum''] \<rparr>]"


text \<open>A supply and a volume that the feed gives as \<open>1e400\<close>, which parses to Infinity.\<close>

definition example_huge_stables :: "StablecoinChainD list" where
  "example_huge_stables =
     [\<lparr> StablecoinChainD.name_d = ''Ethereum'', gecko_id_d = None, tokenSymbol_d = Some ''ETH'',
        totalCirculatingUSD_d = \<lparr> peggedUSD_d = Some PosInf \<rparr> \<rparr>]"

definition example_huge_bridges :: "BridgeD list" where
  "example_huge_bridges =
     [\<lparr> bridgeId_d = 1, BridgeD.name_d = ''first'', displayName_d = ''First'',
        last24hVolume_d = PosInf, weeklyVolume_d = PosInf, monthlyVolume_d = PosInf,
        chains_d = [''Ethereum'', ''Base''] \<rparr>]"

text \<open>
  Two chains whose tvl are \<open>2 ^ 53\<close> and 1: the next double after \<open>2 ^ 53\<close> is
  \<open>2 ^ 53 + 2\<close>.
\<close>

definition example_precise :: "ChainD list" where
  "example_precise =
     [\<lparr> ChainD.name_d = ''Ethereum'', tvl_d = Num 9007199254740992, tokenSymbol_d = Some ''ETH'',
        gecko_id_d = None, chainId_d = Some 1 \<rparr>,
      \<lparr> ChainD.name_d = ''Tron'', tvl_d = Num 1, tokenSymbol_d = Some ''TRON'',
        gecko_id_d = None, chainId_d = None \<rparr>]"

section \<open>Facts about the built-ins\<close>

lemma insort_by_key:
  "insort_by (\<lambda>a b. f b - f a) x ys = insort_key (\<lambda>c. - f c) x ys"
  by (induction ys) auto

lemma js_sort_key: "js_sort (\<lambda>a b. f b - f a) xs = sort_key (\<lambda>c. - f c) xs"
  by (induction xs) (simp_all add: js_sort_def insort_by_key sort_key_def)

lemma slice0_take: "slice0 e xs = take (nat (if trunc e < 0 then max (int (length xs) + trunc e) 0 else min (trunc e) (int (length xs)))) xs"
  by (simp add: slice0_def Let_def)

lemma slice0_numeral: "slice0 (numeral k) xs = take (numeral k) xs"
  by (cases "numeral k \<le> length xs") (simp_all add: slice0_def trunc_def min_def)

lemma reduce_sum: "reduce (\<lambda>sum c. sum + f c) a xs = a + sum_list (map f xs)"
  unfolding reduce_def by (induction xs arbitrary: a) (simp_all add: add.assoc)

lemma map_mapFrom: "map g (mapFrom i f xs) = mapFrom i (\<lambda>x j. g (f x j)) xs"
  by (induction xs arbitrary: i) simp_all

lemma mapFrom_const: "mapFrom i (\<lambda>x j. h x) xs = map h xs"
  by (induction xs arbitrary: i) simp_all

lemma length_mapFrom: "length (mapFrom i f xs) = length xs"
  by (induction xs arbitrary: i) simp_all

lemma set_mapFrom: "e \<in> set (mapFrom i f xs) \<Longrightarrow> \<exists>x j. x \<in> set xs \<and> e = f x j"
  by (induction xs arbitrary: i) (simp, fastforce)

lemma js_find_None: "js_find p xs = None \<longleftrightarrow> (\<forall>x\<in>set xs. \<not> p x)"
  by (induction xs) simp_all

lemma js_find_Some: "js_find p xs = Some x \<Longrightarrow> x \<in> set xs \<and> p x"
  by (induction xs) (auto split: if_splits)

lemma set_js_sort: "set (js_sort (\<lambda>a b. f b - f a) xs) = set xs"
  by (simp add: js_sort_key)

lemma length_js_sort: "length (js_sort (\<lambda>a b. f b - f a) xs) = length xs"
  by (simp add: js_sort_key)

lemma sorted_js_sort: "sorted_wrt (\<lambda>a b. f b \<le> f a) (js_sort (\<lambda>a b. f b - f a) xs)"
proof -
  have "sorted (map (\<lambda>c. - f c) (sort_key (\<lambda>c. - f c) xs))"
    by (rule sorted_sort_key)
  then show ?thesis
    by (simp add: js_sort_key sorted_map)
qed

lemma stable_js_sort:
  "filter (\<lambda>y. f y = k) (js_sort (\<lambda>a b. f b - f a) xs) = filter (\<lambda>y. f y = k) xs"
  using sort_key_stable [of "\<lambda>c. - f c" "- k" xs] by (simp add: js_sort_key)

lemma sum_insort_key: "sum_list (map g (insort_key h x xs)) = g x + sum_list (map g xs)"
  for g :: "'a \<Rightarrow> rat"
  by (induction xs) simp_all

lemma sum_js_sort:
  "sum_list (map g (js_sort (\<lambda>a b. f b - f a) xs)) = sum_list (map g (xs :: 'a list))"
  for g :: "'a \<Rightarrow> rat"
  by (induction xs) (simp_all add: js_sort_key sort_key_def sum_insort_key)

lemma set_slice0: "set (slice0 e xs) \<subseteq> set xs"
  by (simp add: slice0_take set_take_subset)

lemma length_slice0: "length (slice0 e xs) \<le> length xs"
  by (simp add: slice0_take)

lemma mapi_proj: "map g (mapi f xs) = mapi (\<lambda>x j. g (f x j)) xs"
  by (simp add: mapi_def map_mapFrom)

lemma mapi_const: "mapi (\<lambda>x j. h x) xs = map h xs"
  by (simp add: mapi_def mapFrom_const)

lemma mapFrom_Suc: "mapFrom i (\<lambda>x j. Suc j) xs = [Suc i ..< Suc i + length xs]"
  by (induction xs arbitrary: i) (simp_all add: upt_rec)

lemma mapi_index: "mapi (\<lambda>x j. Suc j) xs = [Suc 0 ..< Suc (length xs)]"
  by (simp add: mapi_def mapFrom_Suc del: upt_Suc)

lemma length_mapi: "length (mapi f xs) = length xs"
  by (simp add: mapi_def length_mapFrom)

lemma sameName_cong: "toLowerCase qa = toLowerCase qb \<Longrightarrow> sameName x qa = sameName x qb"
  by (simp add: sameName_def)

lemma fetchJson_failed: "failed (feed 0) \<Longrightarrow> \<exists>e. fetchJson api feed = Inl e"
  by (auto simp: failed_def fetchJson_def split: fetched.splits)

lemma fetchJson_ok: "feed 0 = Response status body \<Longrightarrow> ok status \<Longrightarrow> fetchJson api feed = Inr body"
  by (simp add: fetchJson_def)

lemma fetchJson_first: "fetchJson api feed = fetchJson api (\<lambda>n. feed 0)"
  by (simp add: fetchJson_def)

lemmas example_defs = example_chains_def example_stables_def example_bridges_def

lemmas string_defs = sameName_def toLowerCase_def lower_char_def

section \<open>Facts about doubles\<close>

text \<open>
  Rounding is monotone and leaves a double as it is; the integers below \<open>2 ^ 53\<close> are
  doubles. \<open>to_double_near\<close> and \<open>to_double_tie\<close> compute a rounding from the exponent
  and the mantissa of the result.
\<close>

lemma rhe_of_int: "rhe (of_int n) = n"
  by (simp add: rhe_def)

lemma rhe_lower: "\<lfloor>y\<rfloor> \<le> rhe y"
  by (simp add: rhe_def Let_def)

lemma rhe_upper: "rhe y \<le> \<lfloor>y\<rfloor> + 1"
  by (simp add: rhe_def Let_def)

lemma rhe_mono:
  assumes "y \<le> z"
  shows "rhe y \<le> rhe z"
proof (cases "\<lfloor>y\<rfloor> = \<lfloor>z\<rfloor>")
  case True
  with assms have "y - of_int \<lfloor>y\<rfloor> \<le> z - of_int \<lfloor>z\<rfloor>"
    by simp
  with True show ?thesis
    by (auto simp: rhe_def Let_def)
next
  case False
  with assms have "\<lfloor>y\<rfloor> < \<lfloor>z\<rfloor>"
    by (simp add: floor_mono le_neq_trans)
  then have "\<lfloor>y\<rfloor> + 1 \<le> \<lfloor>z\<rfloor>"
    by simp
  with rhe_upper [of y] rhe_lower [of z] show ?thesis
    by linarith
qed

lemma two_powi_pos: "0 < (2::rat) powi k"
  by (simp add: zero_less_power_int)

lemma two_powi_mono: "j \<le> k \<Longrightarrow> (2::rat) powi j \<le> 2 powi k"
  by (simp add: power_int_increasing)

lemma two_powi_strict: "(2::rat) powi j < 2 powi k \<longleftrightarrow> j < k"
proof
  assume "(2::rat) powi j < 2 powi k"
  show "j < k"
  proof (rule ccontr)
    assume "\<not> j < k"
    then have "(2::rat) powi k \<le> 2 powi j"
      by (simp add: two_powi_mono)
    with \<open>(2::rat) powi j < 2 powi k\<close> show False
      by simp
  qed
next
  assume "j < k"
  then show "(2::rat) powi j < 2 powi k"
    by (simp add: power_int_strict_increasing)
qed

lemma two_powi_add: "(2::rat) powi j * 2 powi k = 2 powi (j + k)"
  by (simp add: power_int_add)

lemma two_powi_diff: "(2::rat) powi j / 2 powi k = 2 powi (j - k)"
  by (simp add: power_int_diff)

lemma two_powi_of_int: "0 \<le> k \<Longrightarrow> (2::rat) powi k = of_int (2 ^ nat k)"
  by (simp add: power_int_def)

lemma two_powi_Suc: "(2::rat) powi (k + 1) = 2 * 2 powi k"
  by (simp add: power_int_add)

lemma expo_bounds:
  assumes "0 < x"
  shows "2 powi expo x \<le> x \<and> x < 2 powi (expo x + 1)"
proof -
  obtain p q where pq: "quotient_of x = (p, q)"
    by (cases "quotient_of x")
  then have q: "0 < q" and x: "x = of_int p / of_int q"
    using quotient_of_denom_pos quotient_of_div by blast+
  with assms have p: "0 < p"
    by (simp add: zero_less_divide_iff)
  define d where "d = bitlen p - bitlen q"
  from bitlen_bounds [OF p] have pb: "2 ^ nat (bitlen p - 1) \<le> p" "p < 2 ^ nat (bitlen p)"
    by blast+
  from bitlen_bounds [OF q] have qb: "2 ^ nat (bitlen q - 1) \<le> q" "q < 2 ^ nat (bitlen q)"
    by blast+
  have bp: "1 \<le> bitlen p" and bq: "1 \<le> bitlen q"
    using p q by (simp_all add: bitlen_alt_def)
  have P1: "(2::rat) powi (bitlen p - 1) \<le> of_int p"
    using pb(1) bp by (simp only: two_powi_of_int of_int_le_iff)
  have P2: "of_int p < (2::rat) powi (bitlen p)"
    using pb(2) bp by (simp only: two_powi_of_int of_int_less_iff)
  have Q1: "(2::rat) powi (bitlen q - 1) \<le> of_int q"
    using qb(1) bq by (simp only: two_powi_of_int of_int_le_iff)
  have Q2: "of_int q < (2::rat) powi (bitlen q)"
    using qb(2) bq by (simp only: two_powi_of_int of_int_less_iff)
  have qq: "(0::rat) < of_int q"
    using q by simp
  have up: "x < 2 powi (d + 1)"
  proof -
    have "of_int p < (2::rat) powi (d + 1) * 2 powi (bitlen q - 1)"
      using P2 by (simp add: d_def flip: power_int_add)
    also have "\<dots> \<le> 2 powi (d + 1) * of_int q"
      using Q1 two_powi_pos [of "d + 1"] by simp
    finally show ?thesis
      using qq by (simp add: x pos_divide_less_eq)
  qed
  have low: "2 powi (d - 1) \<le> x"
  proof -
    have "(2::rat) powi (d - 1) * of_int q \<le> 2 powi (d - 1) * 2 powi (bitlen q)"
      using Q2 two_powi_pos [of "d - 1"] by simp
    also have "\<dots> = 2 powi (bitlen p - 1)"
      by (simp add: d_def flip: power_int_add)
    also have "\<dots> \<le> of_int p"
      by (rule P1)
    finally show ?thesis
      using qq by (simp add: x pos_le_divide_eq)
  qed
  have e: "expo x = (if 2 powi d \<le> x then d else d - 1)"
    by (simp add: expo_def pq d_def)
  show ?thesis
  proof (cases "2 powi d \<le> x")
    case True
    with e up show ?thesis by simp
  next
    case False
    with e low show ?thesis by simp
  qed
qed

lemma expo_unique:
  assumes "0 < x" "2 powi e \<le> x" "x < 2 powi (e + 1)"
  shows "expo x = e"
proof -
  from expo_bounds [OF assms(1)] have b: "2 powi expo x \<le> x" "x < 2 powi (expo x + 1)"
    by blast+
  from b(1) assms(3) have "(2::rat) powi expo x < 2 powi (e + 1)"
    by (rule le_less_trans)
  then have "expo x < e + 1"
    by (simp add: two_powi_strict)
  moreover from assms(2) b(2) have "(2::rat) powi e < 2 powi (expo x + 1)"
    by (rule le_less_trans)
  then have "e < expo x + 1"
    by (simp add: two_powi_strict)
  ultimately show ?thesis
    by simp
qed

lemma expo_mono:
  assumes "0 < x" "x \<le> y"
  shows "expo x \<le> expo y"
proof -
  from assms have "0 < y" by simp
  from expo_bounds [OF assms(1)] expo_bounds [OF this] assms(2)
  have "(2::rat) powi expo x < 2 powi (expo y + 1)"
    by linarith
  then show ?thesis
    by (simp add: two_powi_strict)
qed

lemma ulp_pos: "0 < ulp x"
  by (simp add: ulp_def two_powi_pos)

lemma ulp_mono: "0 < x \<Longrightarrow> x \<le> y \<Longrightarrow> ulp x \<le> ulp y"
  unfolding ulp_def by (intro two_powi_mono) (use expo_mono [of x y] in simp)

lemma nearest_nonneg: "0 < x \<Longrightarrow> 0 \<le> nearest x"
proof -
  assume "0 < x"
  with ulp_pos [of x] have "0 \<le> x / ulp x"
    by simp
  then have "rhe 0 \<le> rhe (x / ulp x)"
    by (rule rhe_mono)
  then have "0 \<le> rhe (x / ulp x)"
    using rhe_of_int [of 0] by simp
  with ulp_pos [of x] show ?thesis
    by (simp add: nearest_def)
qed

text \<open>the grid value is at most the next power of two\<close>

lemma nearest_upper:
  assumes "0 < x"
  shows "nearest x \<le> 2 powi (max (expo x) (- 1022) + 1)"
proof -
  let ?e = "max (expo x) (- 1022)"
  from expo_bounds [OF assms] have "x < 2 powi (expo x + 1)"
    by blast
  also have "\<dots> \<le> 2 powi (?e + 1)"
    by (intro two_powi_mono) simp
  finally have "x / ulp x \<le> 2 powi (?e + 1) / ulp x"
    using ulp_pos [of x] by (simp add: divide_right_mono)
  also have "2 powi (?e + 1) / ulp x = (2::rat) powi 53"
    unfolding ulp_def two_powi_diff by (rule arg_cong [where f = "\<lambda>k. 2 powi k"]) simp
  also have "\<dots> = of_int (2 ^ 53)"
    by (simp add: two_powi_of_int)
  finally have "rhe (x / ulp x) \<le> rhe (of_int (2 ^ 53))"
    by (rule rhe_mono)
  then have "rhe (x / ulp x) \<le> 2 ^ 53"
    by (simp only: rhe_of_int)
  then have "(of_int (rhe (x / ulp x)) :: rat) \<le> of_int (2 ^ 53)"
    by (simp only: of_int_le_iff)
  then have "nearest x \<le> of_int (2 ^ 53) * ulp x"
    unfolding nearest_def using ulp_pos [of x] by (simp only: mult_le_cancel_right_pos)
  also have "of_int (2 ^ 53) * ulp x = (2::rat) powi 53 * ulp x"
    by (simp add: two_powi_of_int)
  also have "\<dots> = 2 powi (?e + 1)"
    unfolding ulp_def two_powi_add by (rule arg_cong [where f = "\<lambda>k. 2 powi k"]) simp
  finally show ?thesis .
qed

text \<open>in the normal range the grid value is at least the power of two below\<close>

lemma nearest_lower:
  assumes "0 < x" "- 1022 \<le> expo x"
  shows "2 powi expo x \<le> nearest x"
proof -
  from assms(2) have e: "max (expo x) (- 1022) = expo x"
    by simp
  from expo_bounds [OF assms(1)] have "2 powi expo x \<le> x"
    by blast
  then have "2 powi expo x / ulp x \<le> x / ulp x"
    using ulp_pos [of x] by (simp add: divide_right_mono)
  moreover have "2 powi expo x / ulp x = (2::rat) powi 52"
    unfolding ulp_def e two_powi_diff by (rule arg_cong [where f = "\<lambda>k. 2 powi k"]) simp
  moreover have "(2::rat) powi 52 = of_int (2 ^ 52)"
    by (simp add: two_powi_of_int)
  ultimately have "rhe (of_int (2 ^ 52)) \<le> rhe (x / ulp x)"
    by (simp only: rhe_mono)
  then have "2 ^ 52 \<le> rhe (x / ulp x)"
    by (simp only: rhe_of_int)
  then have "(of_int (2 ^ 52) :: rat) \<le> of_int (rhe (x / ulp x))"
    by (simp only: of_int_le_iff)
  then have "of_int (2 ^ 52) * ulp x \<le> nearest x"
    unfolding nearest_def using ulp_pos [of x] by (simp only: mult_le_cancel_right_pos)
  moreover have "of_int (2 ^ 52) * ulp x = (2::rat) powi 52 * ulp x"
    by (simp add: two_powi_of_int)
  moreover have "\<dots> = 2 powi expo x"
    unfolding ulp_def e two_powi_add by (rule arg_cong [where f = "\<lambda>k. 2 powi k"]) simp
  ultimately show ?thesis
    by simp
qed

lemma nearest_mono:
  assumes "0 < x" "x \<le> y"
  shows "nearest x \<le> nearest y"
proof (cases "max (expo x) (- 1022) = max (expo y) (- 1022)")
  case True
  then have u: "ulp x = ulp y"
    by (simp add: ulp_def)
  from assms(2) have "x / ulp y \<le> y / ulp y"
    using ulp_pos [of y] by (simp add: divide_right_mono)
  then have "rhe (x / ulp y) \<le> rhe (y / ulp y)"
    by (rule rhe_mono)
  then have "(of_int (rhe (x / ulp y)) :: rat) \<le> of_int (rhe (y / ulp y))"
    by (simp only: of_int_le_iff)
  then show ?thesis
    unfolding nearest_def u using ulp_pos [of y] by (simp only: mult_le_cancel_right_pos)
next
  case False
  from assms have y: "0 < y"
    by simp
  from expo_mono [OF assms] False have lt: "max (expo x) (- 1022) < expo y" and n: "- 1022 \<le> expo y"
    by linarith+
  have "nearest x \<le> 2 powi (max (expo x) (- 1022) + 1)"
    by (rule nearest_upper [OF assms(1)])
  also have "\<dots> \<le> 2 powi expo y"
    using lt by (intro two_powi_mono) linarith
  also have "\<dots> \<le> nearest y"
    by (rule nearest_lower [OF y n])
  finally show ?thesis .
qed

lemma expo_le:
  assumes "0 < v" "v < 2 powi k"
  shows "expo v < k"
proof -
  from expo_bounds [OF assms(1)] assms(2) have "(2::rat) powi expo v < 2 powi k"
    by linarith
  then show ?thesis
    by (simp add: two_powi_strict)
qed

lemma nearest_idem:
  assumes "0 < x" "0 < nearest x"
  shows "nearest (nearest x) = nearest x"
proof -
  let ?e = "max (expo x) (- 1022)"
  let ?v = "nearest x"
  let ?n = "rhe (x / ulp x)"
  have v: "?v = of_int ?n * ulp x"
    by (simp add: nearest_def)
  have same: "nearest ?v = ?v" if u: "ulp ?v = ulp x"
  proof -
    have "?v / ulp x = of_int ?n"
      using ulp_pos [of x] by (simp add: v)
    then have "rhe (?v / ulp ?v) = ?n"
      by (simp only: u rhe_of_int)
    then show ?thesis
      unfolding nearest_def [of ?v] u by (simp only: v)
  qed
  from nearest_upper [OF assms(1)] have up: "?v \<le> 2 powi (?e + 1)" .
  show ?thesis
  proof (cases "?v = 2 powi (?e + 1)")
    case True
    have "expo ?v = ?e + 1"
    proof (rule expo_unique [OF assms(2)])
      show "2 powi (?e + 1) \<le> ?v"
        by (simp only: True)
      show "?v < 2 powi (?e + 1 + 1)"
        unfolding True by (simp add: two_powi_strict)
    qed
    then have m: "max (expo ?v) (- 1022) = ?e + 1"
      by simp
    have u: "ulp ?v = 2 powi (?e + 1 - 52)"
      by (simp only: ulp_def m)
    have "?v / ulp ?v = 2 powi (?e + 1) / 2 powi (?e + 1 - 52)"
      unfolding u by (simp only: True)
    also have "\<dots> = (2::rat) powi 52"
      unfolding two_powi_diff by (rule arg_cong [where f = "\<lambda>k. 2 powi k"]) simp
    also have "\<dots> = of_int (2 ^ 52)"
      by (simp add: two_powi_of_int)
    finally have "rhe (?v / ulp ?v) = 2 ^ 52"
      by (simp only: rhe_of_int)
    then have "nearest ?v = of_int (2 ^ 52) * ulp ?v"
      by (simp only: nearest_def [of ?v])
    also have "of_int (2 ^ 52) = (2::rat) powi 52"
      by (simp add: two_powi_of_int)
    also have "2 powi 52 * ulp ?v = 2 powi (?e + 1)"
      unfolding u two_powi_add by (rule arg_cong [where f = "\<lambda>k. 2 powi k"]) simp
    finally show ?thesis
      by (simp only: True)
  next
    case False
    with up have lt: "?v < 2 powi (?e + 1)"
      by simp
    have "max (expo ?v) (- 1022) = ?e"
    proof (cases "- 1022 \<le> expo x")
      case True
      then have e: "?e = expo x"
        by simp
      from nearest_lower [OF assms(1) True] lt have "expo ?v = expo x"
        by (intro expo_unique [OF assms(2)]) (simp_all only: e)
      with True show ?thesis
        by simp
    next
      case False
      then have e: "?e = - 1022"
        by simp
      from lt have "?v < 2 powi (- 1021)"
        by (simp add: e)
      from expo_le [OF assms(2) this] have "expo ?v \<le> - 1022"
        by simp
      with e show ?thesis
        by simp
    qed
    then have "ulp ?v = ulp x"
      by (simp only: ulp_def)
    then show ?thesis
      by (rule same)
  qed
qed

lemma round_pos_idem:
  assumes "0 < x" "round_pos x = Num v" "0 < v"
  shows "round_pos v = Num v"
proof -
  from assms(2) have v: "v = nearest x" and small: "\<not> 2 powi 1024 \<le> nearest x"
    by (auto simp: round_pos_def split: if_splits)
  from assms(3) have "nearest v = v"
    unfolding v using assms(1) by (intro nearest_idem) (simp_all add: v)
  with small show ?thesis
    by (simp add: round_pos_def v)
qed

lemma round_pos_cases:
  assumes "0 < x"
  shows "round_pos x = PosInf \<or> (\<exists>v. round_pos x = Num v \<and> 0 \<le> v)"
  using nearest_nonneg [OF assms] by (simp add: round_pos_def)

lemma round_pos_mono:
  assumes "0 < x" "x \<le> y"
  shows "dle (round_pos x) (round_pos y)"
  using nearest_mono [OF assms] by (simp add: round_pos_def)

lemma to_double_idem:
  assumes "to_double x = Num v"
  shows "to_double v = Num v"
proof (cases "v = 0")
  case True
  then show ?thesis
    by (simp add: to_double_def)
next
  case False
  consider "x = 0" | "0 < x" | "x < 0"
    by linarith
  then show ?thesis
  proof cases
    case 1
    with assms False show ?thesis
      by (simp add: to_double_def)
  next
    case 2
    with assms have r: "round_pos x = Num v"
      by (simp add: to_double_def)
    with round_pos_cases [OF 2] False have "0 < v"
      by auto
    from round_pos_idem [OF 2 r this] this show ?thesis
      by (simp add: to_double_def)
  next
    case 3
    then have p: "0 < - x"
      by simp
    from 3 assms have "negate (round_pos (- x)) = Num v"
      by (simp add: to_double_def)
    then have r: "round_pos (- x) = Num (- v)"
      by (cases "round_pos (- x)") (simp_all add: negate_def)
    with round_pos_cases [OF p] False have "0 < - v"
      by auto
    from round_pos_idem [OF p r this] this show ?thesis
      by (simp add: to_double_def negate_def)
  qed
qed

lemma dle_negate: "dle a b \<Longrightarrow> dle (negate b) (negate a)"
  by (cases a; cases b) (simp_all add: negate_def)

lemma dle_zero_round_pos: "0 < x \<Longrightarrow> dle (Num 0) (round_pos x)"
  using round_pos_cases [of x] by auto

lemma dle_trans: "dle a b \<Longrightarrow> dle b c \<Longrightarrow> dle a c"
  by (cases a; cases b; cases c) simp_all

lemma to_double_mono:
  assumes "x \<le> y"
  shows "dle (to_double x) (to_double y)"
proof -
  have pos: "dle (Num 0) (to_double z)" if "0 \<le> z" for z
    using that dle_zero_round_pos [of z] by (simp add: to_double_def)
  have neg: "dle (to_double z) (Num 0)" if "z \<le> 0" for z
  proof (cases "z = 0")
    case True
    then show ?thesis by (simp add: to_double_def)
  next
    case False
    with that have "0 < - z" by simp
    from dle_negate [OF dle_zero_round_pos [OF this]] False that show ?thesis
      by (simp add: to_double_def negate_def)
  qed
  consider "0 < x" | "x \<le> 0" "0 \<le> y" | "y < 0"
    using assms by linarith
  then show ?thesis
  proof cases
    case 1
    with assms round_pos_mono [OF 1 assms] show ?thesis
      by (simp add: to_double_def)
  next
    case 2
    from dle_trans [OF neg [OF 2(1)] pos [OF 2(2)]] show ?thesis .
  next
    case 3
    with assms have "0 < - y" "- y \<le> - x" "x < 0"
      by simp_all
    from dle_negate [OF round_pos_mono [OF this(1,2)]] 3 this(3) show ?thesis
      by (simp add: to_double_def)
  qed
qed

lemma to_double_normal:
  assumes "0 < x" "2 powi e \<le> x" "x < 2 powi (e + 1)" "- 1022 \<le> e" "e \<le> 1022"
  shows "to_double x = Num (of_int (rhe (x / 2 powi (e - 52))) * 2 powi (e - 52))"
proof -
  from expo_unique [OF assms(1-3)] have e: "expo x = e" .
  with assms(4) have u: "ulp x = 2 powi (e - 52)"
    by (simp add: ulp_def)
  from nearest_upper [OF assms(1)] e assms(4) have "nearest x \<le> 2 powi (e + 1)"
    by simp
  also have "\<dots> < 2 powi 1024"
    using assms(5) by (simp only: two_powi_strict)
  finally have "\<not> 2 powi 1024 \<le> nearest x"
    by simp
  with assms(1) show ?thesis
    by (simp add: to_double_def round_pos_def nearest_def u)
qed

lemma rhe_near:
  assumes "\<bar>y - of_int n\<bar> < 1 / 2"
  shows "rhe y = n"
proof (cases "of_int n \<le> y")
  case True
  with assms have "\<lfloor>y\<rfloor> = n"
    by (intro floor_unique) (simp_all add: abs_less_iff)
  with assms True show ?thesis
    by (simp add: rhe_def Let_def abs_less_iff)
next
  case False
  with assms have f: "\<lfloor>y\<rfloor> = n - 1"
    by (intro floor_unique) (simp_all add: abs_less_iff)
  from assms False have "1 / 2 < y - of_int (n - 1)"
    by (simp add: abs_less_iff)
  then show ?thesis
    by (simp add: rhe_def Let_def f)
qed

lemma rhe_tie:
  assumes "y = of_int n + 1 / 2"
  shows "rhe y = (if even n then n else n + 1)"
proof -
  from assms have "\<lfloor>y\<rfloor> = n"
    by (intro floor_unique) simp_all
  with assms show ?thesis
    by (simp add: rhe_def Let_def)
qed

lemma to_double_near:
  assumes "0 < x" "2 powi e \<le> x" "x < 2 powi (e + 1)" "- 1022 \<le> e" "e \<le> 1022"
    and "\<bar>x / 2 powi (e - 52) - of_int n\<bar> < 1 / 2"
  shows "to_double x = Num (of_int n * 2 powi (e - 52))"
  using to_double_normal [OF assms(1-5)] rhe_near [OF assms(6)] by simp

lemma to_double_tie:
  assumes "0 < x" "2 powi e \<le> x" "x < 2 powi (e + 1)" "- 1022 \<le> e" "e \<le> 1022"
    and "x / 2 powi (e - 52) = of_int n + 1 / 2"
  shows "to_double x = Num (of_int (if even n then n else n + 1) * 2 powi (e - 52))"
  using to_double_normal [OF assms(1-5)] rhe_tie [OF assms(6)] by simp

lemma to_double_int:
  assumes "0 < n" "n < 2 ^ 53"
  shows "to_double (of_int n) = Num (of_int n)"
proof -
  let ?x = "of_int n :: rat"
  let ?e = "expo ?x"
  from assms have pos: "0 < ?x"
    by simp
  from expo_bounds [OF pos] have lo: "2 powi ?e \<le> ?x" and hi: "?x < 2 powi (?e + 1)"
    by simp_all
  from assms have "(2::rat) powi 0 \<le> ?x"
    by simp
  with hi have "(2::rat) powi 0 < 2 powi (?e + 1)"
    by linarith
  then have e0: "0 \<le> ?e"
    by (simp only: two_powi_strict)
  from assms have "?x < of_int (2 ^ 53)"
    by (simp only: of_int_less_iff)
  then have "?x < 2 powi 53"
    by simp
  with lo have "(2::rat) powi ?e < 2 powi 53"
    by linarith
  then have e52: "?e \<le> 52"
    by (simp only: two_powi_strict)
  have inv: "(2::rat) powi (?e - 52) * 2 powi (52 - ?e) = 1"
    unfolding two_powi_add by simp
  have "?x / 2 powi (?e - 52) = ?x * 2 powi (52 - ?e)"
    using inv two_powi_pos [of "?e - 52"] by (simp add: field_simps)
  also have "\<dots> = of_int (n * 2 ^ nat (52 - ?e))"
    using e52 by (simp add: two_powi_of_int)
  finally have "rhe (?x / 2 powi (?e - 52)) = n * 2 ^ nat (52 - ?e)"
    by (simp only: rhe_of_int)
  moreover have "of_int (n * 2 ^ nat (52 - ?e)) * 2 powi (?e - 52) = ?x"
  proof -
    have "of_int (n * 2 ^ nat (52 - ?e)) * 2 powi (?e - 52) = ?x * (2 powi (52 - ?e) * 2 powi (?e - 52))"
      using e52 by (simp add: two_powi_of_int)
    also have "\<dots> = ?x"
      using inv by (simp add: mult.commute)
    finally show ?thesis .
  qed
  moreover from e0 e52 have "- 1022 \<le> ?e" "?e \<le> 1022"
    by simp_all
  ultimately show ?thesis
    using to_double_normal [OF pos lo hi] by simp
qed

lemma to_double_zero: "to_double 0 = Num 0"
  by (simp add: to_double_def)

lemma to_double_numeral:
  "numeral k < (2 ^ 53 :: int) \<Longrightarrow> to_double (numeral k) = Num (numeral k)"
  using to_double_int [of "numeral k"] by simp

lemma to_double_one: "to_double 1 = Num 1"
  using to_double_int [of 1] by simp

lemma to_double_neg: "to_double (- x) = negate (to_double x)"
  by (simp add: to_double_def negate_def round_pos_def)

lemma to_double_not_NaN: "to_double x \<noteq> NaN"
  by (simp add: to_double_def negate_def round_pos_def)

lemmas double_eval = dsub_def negate_def cmp_num_def to_double_numeral to_double_neg
  to_double_zero to_double_one

lemma to_double_2_53: "to_double 9007199254740992 = Num 9007199254740992"
  using to_double_near [of 9007199254740992 53 4503599627370496] by simp

lemma to_double_2_53_1: "to_double 9007199254740993 = Num 9007199254740992"
  using to_double_tie [of 9007199254740993 53 4503599627370496] by simp






lemma dlt_dle: "dlt a b \<Longrightarrow> dle a b"
  by (cases a; cases b) simp_all

lemma set_insort_by: "set (insort_by cmp x ys) = insert x (set ys)"
  by (induction ys) auto

lemma set_js_sort_any: "set (js_sort cmp xs) = set xs"
  by (induction xs) (simp_all add: js_sort_def set_insort_by)

lemma reduce_dadd: "reduce (\<lambda>sum c. dadd sum (f c)) a xs = foldl dadd a (map f xs)"
  by (simp add: reduce_def foldl_map)

lemma to_double_between:
  assumes "0 \<le> x" "x \<le> c" "to_double c = Num c"
  shows "\<exists>q. to_double x = Num q \<and> 0 \<le> q \<and> q \<le> c"
proof -
  from to_double_mono [OF assms(1)] have "dle (Num 0) (to_double x)"
    by (simp add: to_double_zero)
  moreover from to_double_mono [OF assms(2)] have "dle (to_double x) (Num c)"
    by (simp add: assms(3))
  ultimately show ?thesis
    by (cases "to_double x") simp_all
qed

lemma dadd_pos_step:
  assumes "dle (Num 0) acc" "is_double x" "dlt (Num 0) x"
  shows "dle (Num 0) (dadd acc x)"
    and "dle x (dadd acc x)"
    and "is_double y \<Longrightarrow> dle y acc \<Longrightarrow> dle y (dadd acc x)"
proof -
  show "dle (Num 0) (dadd acc x)"
  proof (cases acc)
    case (Num t)
    show ?thesis
    proof (cases x)
      case (Num r)
      with assms \<open>acc = Num t\<close> have "0 \<le> t + r"
        by simp
      from to_double_mono [OF this] show ?thesis
        by (simp add: Num \<open>acc = Num t\<close> to_double_zero)
    qed (use assms Num in simp_all)
  qed (use assms in \<open>cases x; simp\<close>)+
  show "dle x (dadd acc x)"
  proof (cases acc)
    case (Num t)
    show ?thesis
    proof (cases x)
      case (Num r)
      with assms \<open>acc = Num t\<close> have "r \<le> t + r" "to_double r = Num r"
        by (simp_all add: is_double_def)
      with to_double_mono [of r "t + r"] show ?thesis
        by (simp add: Num \<open>acc = Num t\<close>)
    qed (use assms Num in simp_all)
  qed (use assms in \<open>cases x; simp\<close>)+
  show "dle y (dadd acc x)" if "is_double y" "dle y acc"
  proof (cases acc)
    case (Num t)
    show ?thesis
    proof (cases x)
      case (Num r)
      show ?thesis
      proof (cases y)
        case (Num u)
        with that assms \<open>acc = Num t\<close> \<open>x = Num r\<close> have "u \<le> t + r" "to_double u = Num u"
          by (simp_all add: is_double_def)
        with to_double_mono [of u "t + r"] show ?thesis
          by (simp add: Num \<open>acc = Num t\<close> \<open>x = Num r\<close>)
      next
        case NegInf
        then show ?thesis
          using to_double_not_NaN [of "t + r"] \<open>acc = Num t\<close> \<open>x = Num r\<close>
          by (cases "to_double (t + r)") simp_all
      qed (use that \<open>acc = Num t\<close> in simp_all)
    next
      case PosInf
      with that \<open>acc = Num t\<close> show ?thesis
        by (cases y) simp_all
    qed (use assms Num in simp_all)
  next
    case PosInf
    with that assms show ?thesis
      by (cases x; cases y) simp_all
  qed (use assms in simp_all)
qed

lemma foldl_dadd_pos:
  assumes "\<forall>x\<in>set xs. is_double x \<and> dlt (Num 0) x"
    and "dle (Num 0) acc"
    and "\<forall>y\<in>S. is_double y \<and> dle y acc"
  shows "dle (Num 0) (foldl dadd acc xs) \<and> (\<forall>y\<in>S \<union> set xs. dle y (foldl dadd acc xs))"
  using assms
proof (induction xs arbitrary: acc S)
  case Nil
  then show ?case by simp
next
  case (Cons x xs)
  from Cons.prems have x: "is_double x" "dlt (Num 0) x"
    by simp_all
  have "dle (Num 0) (foldl dadd (dadd acc x) xs) \<and>
      (\<forall>y\<in>insert x S \<union> set xs. dle y (foldl dadd (dadd acc x) xs))"
  proof (rule Cons.IH)
    show "\<forall>x\<in>set xs. is_double x \<and> dlt (Num 0) x"
      using Cons.prems(1) by simp
    show "dle (Num 0) (dadd acc x)"
      using Cons.prems(2) x by (rule dadd_pos_step(1))
    show "\<forall>y\<in>insert x S. is_double y \<and> dle y (dadd acc x)"
      using dadd_pos_step(2,3) [OF Cons.prems(2) x] x(1) Cons.prems(3) by blast
  qed
  then show ?case
    by simp
qed

lemma total_pos:
  assumes "\<forall>x\<in>set xs. is_double x \<and> dlt (Num 0) x"
  shows "\<forall>x\<in>set xs. dle x (foldl dadd (Num 0) xs)"
    and "foldl dadd (Num 0) xs = Num 0 \<longleftrightarrow> xs = []"
    and "foldl dadd (Num 0) xs \<noteq> NaN"
proof -
  from foldl_dadd_pos [OF assms, of "Num 0" "{}"]
  have a: "dle (Num 0) (foldl dadd (Num 0) xs)" and b: "\<forall>y\<in>set xs. dle y (foldl dadd (Num 0) xs)"
    by simp_all
  from b show "\<forall>x\<in>set xs. dle x (foldl dadd (Num 0) xs)" .
  from a show "foldl dadd (Num 0) xs \<noteq> NaN"
    by (cases "foldl dadd (Num 0) xs") simp_all
  show "foldl dadd (Num 0) xs = Num 0 \<longleftrightarrow> xs = []"
  proof
    assume z: "foldl dadd (Num 0) xs = Num 0"
    show "xs = []"
    proof (rule ccontr)
      assume "xs \<noteq> []"
      then obtain x where x: "x \<in> set xs"
        by (cases xs) auto
      with assms b z have "dlt (Num 0) x" "dle x (Num 0)"
        by auto
      then show False
        by (cases x) simp_all
    qed
  qed simp
qed

lemma share_between:
  assumes "finite_double v" "dlt (Num 0) v" "dle v T"
  shows "\<exists>p. dmul (ddiv v T) (Num 100) = Num p \<and> 0 \<le> p \<and> p \<le> 100"
proof -
  from assms(1,2) obtain r where v: "v = Num r" and r: "0 < r"
    by (cases v) (simp_all add: finite_double_def)
  have c: "to_double 100 = Num 100"
    by (simp add: to_double_numeral)
  show ?thesis
  proof (cases T)
    case (Num t)
    with assms(3) v r have t: "r \<le> t" "0 < t"
      by simp_all
    then have "0 \<le> r / t" "r / t \<le> 1"
      using r by simp_all
    from to_double_between [OF this to_double_one]
    obtain q where q: "to_double (r / t) = Num q" "0 \<le> q" "q \<le> 1"
      by blast
    then have "0 \<le> q * 100" "q * 100 \<le> 100"
      by simp_all
    from to_double_between [OF this c] q(1) t(2) show ?thesis
      by (simp add: v Num)
  next
    case PosInf
    then show ?thesis
      by (simp add: v to_double_zero)
  qed (use assms(3) v in simp_all)
qed


lemma dadd_grow_step:
  assumes "is_double acc" "acc \<noteq> NaN" "finite_double x"
  shows "is_double (dadd acc x)" "dadd acc x \<noteq> NaN" "dle (Num 0) x \<Longrightarrow> dle acc (dadd acc x)"
proof -
  from assms(3) obtain r where x: "x = Num r"
    by (cases x) (simp_all add: finite_double_def)
  show "is_double (dadd acc x)"
  proof (cases acc)
    case (Num t)
    show ?thesis
      using to_double_idem [of "t + r"]
      by (cases "to_double (t + r)") (simp_all add: is_double_def x Num)
  qed (simp_all add: x is_double_def)
  show "dadd acc x \<noteq> NaN"
    using assms(2) by (cases acc) (simp_all add: x to_double_not_NaN)
  show "dle acc (dadd acc x)" if "dle (Num 0) x"
  proof (cases acc)
    case (Num t)
    with that x assms(1) have "t \<le> t + r" "to_double t = Num t"
      by (simp_all add: is_double_def)
    with to_double_mono [of t "t + r"] show ?thesis
      by (simp add: x Num)
  qed (use assms(2) in \<open>simp_all add: x\<close>)
qed

lemma foldl_dadd_double:
  assumes "\<forall>x\<in>set xs. finite_double x" "is_double acc" "acc \<noteq> NaN"
  shows "is_double (foldl dadd acc xs) \<and> foldl dadd acc xs \<noteq> NaN"
  using assms
proof (induction xs arbitrary: acc)
  case Nil
  then show ?case by simp
next
  case (Cons x xs)
  from Cons.prems have x: "finite_double x"
    by simp
  from dadd_grow_step(1,2) [OF Cons.prems(2,3) x] Cons.prems(1) Cons.IH [of "dadd acc x"]
  show ?case
    by simp
qed

lemma foldl_dadd_grow:
  assumes "\<forall>x\<in>set xs. finite_double x \<and> dle (Num 0) x" "is_double acc" "acc \<noteq> NaN"
  shows "dle acc (foldl dadd acc xs)"
  using assms
proof (induction xs arbitrary: acc)
  case Nil
  then show ?case by (cases acc) simp_all
next
  case (Cons x xs)
  from Cons.prems have x: "finite_double x" "dle (Num 0) x"
    by simp_all
  note step = dadd_grow_step [OF Cons.prems(2,3) x(1)]
  from Cons.prems(1) have "dle (dadd acc x) (foldl dadd (dadd acc x) xs)"
    by (intro Cons.IH step(1,2)) simp
  with step(3) [OF x(2)] show ?case
    by (simp add: dle_trans)
qed

section \<open>Lookup by name\<close>

text \<open>
  C8. A lookup by name compares the lowercased names for equality. Two queries that are
  equal after lowercasing find the same chain record and the same stablecoin record, give
  the same chain-details output and the same comparison entry up to the name it echoes.
  A record that is found is a record of the collection whose lowercased name is the
  lowercased query, neither more nor less: no blank is trimmed and no part of a name
  matches. ``ETHEREUM'' and ``ethereum'' lowercase to what ``Ethereum'' does, and a
  collection with a record named ``Ethereum'' answers them.
\<close>

theorem lookup_case_insensitive:
  assumes "toLowerCase qa = toLowerCase qb"
  shows
    "js_find (\<lambda>c. sameName (Chain.name c) qa) cs = js_find (\<lambda>c. sameName (Chain.name c) qb) cs \<and>
     js_find (\<lambda>s. sameName (StablecoinChain.name s) qa) ss =
       js_find (\<lambda>s. sameName (StablecoinChain.name s) qb) ss \<and>
     chain_details_output now qa cs ss = chain_details_output now qb cs ss \<and>
     compare_entry cs ss bs qa =
       (compare_entry cs ss bs qb)\<lparr>CompareEntry.name := CompareEntry.name (compare_entry cs ss bs qa)\<rparr> \<and>
     (\<forall>c. js_find (\<lambda>c. sameName (Chain.name c) qa) cs = Some c \<longrightarrow>
          c \<in> set cs \<and> toLowerCase (Chain.name c) = toLowerCase qa) \<and>
     toLowerCase ''ETHEREUM'' = toLowerCase ''Ethereum'' \<and>
     toLowerCase ''ethereum'' = toLowerCase ''Ethereum'' \<and>
     ((\<exists>c\<in>set cs. Chain.name c = ''Ethereum'') \<longrightarrow>
        js_find (\<lambda>c. sameName (Chain.name c) ''ETHEREUM'') cs \<noteq> None) \<and>
     \<not> sameName ''Ethereum'' '' Ethereum'' \<and>
     \<not> sameName ''Ethereum'' ''Ether''"
proof -
  have s: "\<And>x. sameName x qa = sameName x qb"
    using assms by (rule sameName_cong)
  have lower: "toLowerCase ''ETHEREUM'' = toLowerCase ''Ethereum''"
    "toLowerCase ''ethereum'' = toLowerCase ''Ethereum''"
    by (simp_all add: toLowerCase_def lower_char_def)
  have hit: "(\<exists>c\<in>set cs. Chain.name c = ''Ethereum'') \<longrightarrow>
        js_find (\<lambda>c. sameName (Chain.name c) ''ETHEREUM'') cs \<noteq> None"
  proof
    assume "\<exists>c\<in>set cs. Chain.name c = ''Ethereum''"
    then obtain c where "c \<in> set cs" "Chain.name c = ''Ethereum''" by blast
    with lower(1) have "c \<in> set cs" "sameName (Chain.name c) ''ETHEREUM''"
      by (simp_all add: sameName_def)
    then show "js_find (\<lambda>c. sameName (Chain.name c) ''ETHEREUM'') cs \<noteq> None"
      unfolding js_find_None by blast
  qed
  have exact: "\<not> sameName ''Ethereum'' '' Ethereum''" "\<not> sameName ''Ethereum'' ''Ether''"
    by (simp_all add: sameName_def toLowerCase_def)
  have found: "\<forall>c. js_find (\<lambda>c. sameName (Chain.name c) qa) cs = Some c \<longrightarrow>
          c \<in> set cs \<and> toLowerCase (Chain.name c) = toLowerCase qa"
    using js_find_Some [of "\<lambda>c. sameName (Chain.name c) qa" cs] by (simp add: sameName_def)
  have same: "js_find (\<lambda>c. sameName (Chain.name c) qa) cs = js_find (\<lambda>c. sameName (Chain.name c) qb) cs"
    "js_find (\<lambda>s. sameName (StablecoinChain.name s) qa) ss =
       js_find (\<lambda>s. sameName (StablecoinChain.name s) qb) ss"
    "chain_details_output now qa cs ss = chain_details_output now qb cs ss"
    "compare_entry cs ss bs qa =
       (compare_entry cs ss bs qb)\<lparr>CompareEntry.name := CompareEntry.name (compare_entry cs ss bs qa)\<rparr>"
    by (simp_all add: s chain_details_output_def compare_entry_def Let_def split: option.splits)
  from same lower hit exact found show ?thesis by blast
qed


theorem lookup_case_insensitive_witness:
  "toLowerCase ''ETHEREUM'' = toLowerCase ''ethereum'' \<and>
   js_find (\<lambda>c. sameName (Chain.name c) ''ETHEREUM'') example_chains =
     js_find (\<lambda>c. sameName (Chain.name c) ''ethereum'') example_chains \<and>
   map_option Chain.tvl (js_find (\<lambda>c. sameName (Chain.name c) ''ETHEREUM'') example_chains) =
     Some 50000000000 \<and>
   (\<exists>c\<in>set example_chains. Chain.name c = ''Ethereum'')"
proof -
  have h: "toLowerCase ''ETHEREUM'' = toLowerCase ''ethereum''"
    by (simp add: string_defs)
  have v: "map_option Chain.tvl (js_find (\<lambda>c. sameName (Chain.name c) ''ETHEREUM'') example_chains) =
     Some 50000000000"
    by (simp add: string_defs example_defs)
  have e: "\<exists>c\<in>set example_chains. Chain.name c = ''Ethereum''"
    by (simp add: example_defs)
  from lookup_case_insensitive [OF h, where cs = example_chains] h v e show ?thesis
    by blast
qed

section \<open>Chain details: the misses\<close>

text \<open>
  C6. When both fetches succeed and the query matches no chain record after lowercasing,
  chain-details returns (it does not fail) the not-found payload, with the names of the
  first 20 records of the chains feed in the order fetched. When the chain is found and no
  stablecoin record matches, it returns the details with \<open>stablecoins\<close> null.
\<close>

theorem chain_details_not_found:
  assumes "chainsFeed 0 = Response sc cs" "ok sc" "stablesFeed 0 = Response st ss" "ok st"
  shows
    "((\<forall>c\<in>set cs. toLowerCase (Chain.name c) \<noteq> toLowerCase query) \<longrightarrow>
        chain_details now query chainsFeed stablesFeed =
          Inr (NotFound ''Chain not found'' (map Chain.name (take 20 cs)))) \<and>
     ((\<exists>c\<in>set cs. toLowerCase (Chain.name c) = toLowerCase query) \<and>
      (\<forall>s\<in>set ss. toLowerCase (StablecoinChain.name s) \<noteq> toLowerCase query) \<longrightarrow>
        (\<exists>info. chain_details now query chainsFeed stablesFeed = Inr (Details now info None)))"
proof -
  have fetches: "fetchChains chainsFeed = Inr cs" "fetchStablecoins stablesFeed = Inr ss"
    using assms by (simp_all add: fetchChains_def fetchStablecoins_def fetchJson_ok)
  have run: "chain_details now query chainsFeed stablesFeed = Inr (chain_details_output now query cs ss)"
    by (simp add: chain_details_def fetches all2_def)
  have miss: "chain_details_output now query cs ss = NotFound ''Chain not found'' (map Chain.name (take 20 cs))"
    if "\<forall>c\<in>set cs. toLowerCase (Chain.name c) \<noteq> toLowerCase query"
  proof -
    from that have "js_find (\<lambda>c. sameName (Chain.name c) query) cs = None"
      by (simp add: js_find_None sameName_def)
    then show ?thesis
      by (simp add: chain_details_output_def slice0_numeral)
  qed
  have hit: "\<exists>info. chain_details_output now query cs ss = Details now info None"
    if c: "\<exists>c\<in>set cs. toLowerCase (Chain.name c) = toLowerCase query"
      and s: "\<forall>s\<in>set ss. toLowerCase (StablecoinChain.name s) \<noteq> toLowerCase query"
  proof -
    from c obtain chainData where "js_find (\<lambda>c. sameName (Chain.name c) query) cs = Some chainData"
      by (cases "js_find (\<lambda>c. sameName (Chain.name c) query) cs")
        (auto simp: js_find_None sameName_def)
    moreover from s have "js_find (\<lambda>s. sameName (StablecoinChain.name s) query) ss = None"
      by (simp add: js_find_None sameName_def)
    ultimately show ?thesis
      by (simp add: chain_details_output_def Let_def)
  qed
  from run miss hit show ?thesis by simp
qed

theorem chain_details_not_found_witness:
  "chain_details ''now'' ''Polygon'' (\<lambda>n. Response 200 example_chains)
     (\<lambda>n. Response 200 example_stables) =
     Inr (NotFound ''Chain not found'' [''Base'', ''Ethereum'', ''Tron'']) \<and>
   (\<exists>info. chain_details ''now'' ''BASE'' (\<lambda>n. Response 200 example_chains)
      (\<lambda>n. Response 200 example_stables) = Inr (Details ''now'' info None))"
proof -
  have miss: "\<forall>c\<in>set example_chains. toLowerCase (Chain.name c) \<noteq> toLowerCase ''Polygon''"
    by (simp add: string_defs example_defs)
  have hit: "\<exists>c\<in>set example_chains. toLowerCase (Chain.name c) = toLowerCase ''BASE''"
    by (simp add: string_defs example_defs)
  have nostable: "\<forall>s\<in>set example_stables. toLowerCase (StablecoinChain.name s) \<noteq> toLowerCase ''BASE''"
    by (simp add: string_defs example_defs)
  have names: "map Chain.name (take 20 example_chains) = [''Base'', ''Ethereum'', ''Tron'']"
    by (simp add: example_defs)
  have ok200: "ok 200"
    by (simp add: ok_def)
  note inst = chain_details_not_found [where chainsFeed = "\<lambda>n. Response 200 example_chains"
      and sc = 200 and cs = example_chains
      and stablesFeed = "\<lambda>n. Response 200 example_stables"
      and st = 200 and ss = example_stables and now = "''now''", OF refl ok200 refl ok200]
  from inst [where query = "''Polygon''"] miss names
  have a: "chain_details ''now'' ''Polygon'' (\<lambda>n. Response 200 example_chains)
     (\<lambda>n. Response 200 example_stables) =
     Inr (NotFound ''Chain not found'' [''Base'', ''Ethereum'', ''Tron''])"
    by simp
  from inst [where query = "''BASE''"] hit nostable
  have b: "\<exists>info. chain_details ''now'' ''BASE'' (\<lambda>n. Response 200 example_chains)
      (\<lambda>n. Response 200 example_stables) = Inr (Details ''now'' info None)"
    by blast
  from a b show ?thesis by blast
qed

section \<open>Failing fetches\<close>

text \<open>
  C7. A fetch fails when the provider does not answer or answers with a non-success
  status. When the chains fetch fails, overview and top-chains fail with that very error,
  and chain-details and chain-compare fail with the error of a failed fetch; likewise for
  the stablecoins fetch (stablecoin-flows, chain-details, chain-compare) and the bridges
  fetch (bridge-volume, chain-compare): the result is the error and no output record. A
  non-success status \<open>s\<close> of the chains feed reaches the caller of overview as
  \<open>Chains API error: s\<close>. Every handler reads only the first answer of each of its feeds:
  whatever the provider would answer to a second request, none is made.
\<close>

theorem fetch_failure_aborts:
  "(failed (chainsFeed 0) \<longrightarrow>
      (\<exists>e. fetchChains chainsFeed = Inl e \<and>
           overview now chainsFeed = Inl e \<and>
           top_chains now tinput chainsFeed = Inl e) \<and>
      (\<exists>e. chain_details now query chainsFeed stablesFeed = Inl e \<and>
           (fetchChains chainsFeed = Inl e \<or> fetchStablecoins stablesFeed = Inl e)) \<and>
      (\<exists>e. chain_compare now names chainsFeed stablesFeed bridgesFeed = Inl e \<and>
           (fetchChains chainsFeed = Inl e \<or> fetchStablecoins stablesFeed = Inl e \<or>
            fetchBridges bridgesFeed = Inl e))) \<and>
   (failed (stablesFeed 0) \<longrightarrow>
      (\<exists>e. fetchStablecoins stablesFeed = Inl e \<and>
           stablecoin_flows now sinput stablesFeed = Inl e) \<and>
      (\<exists>e. chain_details now query chainsFeed stablesFeed = Inl e \<and>
           (fetchChains chainsFeed = Inl e \<or> fetchStablecoins stablesFeed = Inl e)) \<and>
      (\<exists>e. chain_compare now names chainsFeed stablesFeed bridgesFeed = Inl e \<and>
           (fetchChains chainsFeed = Inl e \<or> fetchStablecoins stablesFeed = Inl e \<or>
            fetchBridges bridgesFeed = Inl e))) \<and>
   (failed (bridgesFeed 0) \<longrightarrow>
      (\<exists>e. fetchBridges bridgesFeed = Inl e \<and>
           bridge_volume now binput bridgesFeed = Inl e) \<and>
      (\<exists>e. chain_compare now names chainsFeed stablesFeed bridgesFeed = Inl e \<and>
           (fetchChains chainsFeed = Inl e \<or> fetchStablecoins stablesFeed = Inl e \<or>
            fetchBridges bridgesFeed = Inl e))) \<and>
   (\<forall>status body. chainsFeed 0 = Response status body \<and> \<not> ok status \<longrightarrow>
      overview now chainsFeed = Inl (ApiError ''Chains'' status)) \<and>
   overview now chainsFeed = overview now (\<lambda>n. chainsFeed 0) \<and>
   top_chains now tinput chainsFeed = top_chains now tinput (\<lambda>n. chainsFeed 0) \<and>
   stablecoin_flows now sinput stablesFeed = stablecoin_flows now sinput (\<lambda>n. stablesFeed 0) \<and>
   bridge_volume now binput bridgesFeed = bridge_volume now binput (\<lambda>n. bridgesFeed 0) \<and>
   chain_details now query chainsFeed stablesFeed =
     chain_details now query (\<lambda>n. chainsFeed 0) (\<lambda>n. stablesFeed 0) \<and>
   chain_compare now names chainsFeed stablesFeed bridgesFeed =
     chain_compare now names (\<lambda>n. chainsFeed 0) (\<lambda>n. stablesFeed 0) (\<lambda>n. bridgesFeed 0)"
proof -
  have c: "(\<exists>e. fetchChains chainsFeed = Inl e \<and>
           overview now chainsFeed = Inl e \<and>
           top_chains now tinput chainsFeed = Inl e) \<and>
      (\<exists>e. chain_details now query chainsFeed stablesFeed = Inl e \<and>
           (fetchChains chainsFeed = Inl e \<or> fetchStablecoins stablesFeed = Inl e)) \<and>
      (\<exists>e. chain_compare now names chainsFeed stablesFeed bridgesFeed = Inl e \<and>
           (fetchChains chainsFeed = Inl e \<or> fetchStablecoins stablesFeed = Inl e \<or>
            fetchBridges bridgesFeed = Inl e))"
    if "failed (chainsFeed 0)"
  proof -
    from that obtain e where "fetchChains chainsFeed = Inl e"
      unfolding fetchChains_def using fetchJson_failed by blast
    then show ?thesis
      by (simp add: overview_def top_chains_def chain_details_def chain_compare_def all2_def all3_def)
  qed
  have s: "(\<exists>e. fetchStablecoins stablesFeed = Inl e \<and>
           stablecoin_flows now sinput stablesFeed = Inl e) \<and>
      (\<exists>e. chain_details now query chainsFeed stablesFeed = Inl e \<and>
           (fetchChains chainsFeed = Inl e \<or> fetchStablecoins stablesFeed = Inl e)) \<and>
      (\<exists>e. chain_compare now names chainsFeed stablesFeed bridgesFeed = Inl e \<and>
           (fetchChains chainsFeed = Inl e \<or> fetchStablecoins stablesFeed = Inl e \<or>
            fetchBridges bridgesFeed = Inl e))"
    if "failed (stablesFeed 0)"
  proof -
    from that obtain e where "fetchStablecoins stablesFeed = Inl e"
      unfolding fetchStablecoins_def using fetchJson_failed by blast
    then show ?thesis
      by (cases "fetchChains chainsFeed")
        (simp_all add: stablecoin_flows_def chain_details_def chain_compare_def all2_def all3_def)
  qed
  have b: "(\<exists>e. fetchBridges bridgesFeed = Inl e \<and>
           bridge_volume now binput bridgesFeed = Inl e) \<and>
      (\<exists>e. chain_compare now names chainsFeed stablesFeed bridgesFeed = Inl e \<and>
           (fetchChains chainsFeed = Inl e \<or> fetchStablecoins stablesFeed = Inl e \<or>
            fetchBridges bridgesFeed = Inl e))"
    if "failed (bridgesFeed 0)"
  proof -
    from that obtain e where "fetchBridges bridgesFeed = Inl e"
      unfolding fetchBridges_def using fetchJson_failed by blast
    then show ?thesis
      by (cases "fetchChains chainsFeed"; cases "fetchStablecoins stablesFeed")
        (simp_all add: bridge_volume_def chain_compare_def all2_def all3_def)
  qed
  have api: "\<forall>status body. chainsFeed 0 = Response status body \<and> \<not> ok status \<longrightarrow>
      overview now chainsFeed = Inl (ApiError ''Chains'' status)"
    by (simp add: overview_def fetchChains_def fetchJson_def)
  have first: "fetchChains chainsFeed = fetchChains (\<lambda>n. chainsFeed 0)"
    "fetchStablecoins stablesFeed = fetchStablecoins (\<lambda>n. stablesFeed 0)"
    "fetchBridges bridgesFeed = fetchBridges (\<lambda>n. bridgesFeed 0)"
    unfolding fetchChains_def fetchStablecoins_def fetchBridges_def
    by (rule fetchJson_first)+
  have once: "overview now chainsFeed = overview now (\<lambda>n. chainsFeed 0)"
    "top_chains now tinput chainsFeed = top_chains now tinput (\<lambda>n. chainsFeed 0)"
    "stablecoin_flows now sinput stablesFeed = stablecoin_flows now sinput (\<lambda>n. stablesFeed 0)"
    "bridge_volume now binput bridgesFeed = bridge_volume now binput (\<lambda>n. bridgesFeed 0)"
    "chain_details now query chainsFeed stablesFeed =
       chain_details now query (\<lambda>n. chainsFeed 0) (\<lambda>n. stablesFeed 0)"
    "chain_compare now names chainsFeed stablesFeed bridgesFeed =
       chain_compare now names (\<lambda>n. chainsFeed 0) (\<lambda>n. stablesFeed 0) (\<lambda>n. bridgesFeed 0)"
    unfolding overview_def top_chains_def stablecoin_flows_def bridge_volume_def
      chain_details_def chain_compare_def
    using first by simp_all
  from c s b api once show ?thesis by blast
qed


theorem fetch_failure_aborts_witness:
  "failed ((\<lambda>n::nat. if n = 0 then Response 503 [] else Response 200 example_chains) 0) \<and>
   overview ''now'' (\<lambda>n. if n = 0 then Response 503 [] else Response 200 example_chains) =
     Inl (ApiError ''Chains'' 503)"
proof -
  let ?feed = "\<lambda>n::nat. if n = 0 then Response 503 [] else Response 200 example_chains"
  have f: "failed (?feed 0)"
    by (simp add: failed_def ok_def)
  have r: "?feed 0 = Response 503 [] \<and> \<not> ok 503"
    by (simp add: ok_def)
  note api = fetch_failure_aborts [where chainsFeed = ?feed and now = "''now''",
      THEN conjunct2, THEN conjunct2, THEN conjunct2, THEN conjunct1]
  from api r have "overview ''now'' ?feed = Inl (ApiError ''Chains'' 503)"
    by blast
  with f show ?thesis
    by blast
qed

section \<open>Bridge volume: bridges without volume\<close>

text \<open>
  C9. Every bridge that bridge-volume shows has a strictly positive volume for the
  selected period: the entries are those of the handler's \<open>sorted\<close>, which holds only
  fetched bridges with a positive volume, so a bridge without one is not shown at all.
  For the period 7d, two bridges with weekly volumes 100 and 0 and any limit of at least 1,
  the output holds the first bridge alone, with rank 1 and a share of 100 per cent.
\<close>

lemma bridge_sorted_positive: "b \<in> set (bridge_sorted input fetched) \<Longrightarrow> b \<in> set fetched \<and> 0 < volumeOf input b"
  using set_slice0 [of "BridgeVolumeInput.limit input"
      "js_sort (\<lambda>a b. volumeOf input b - volumeOf input a) (filter (\<lambda>b. 0 < volumeOf input b) fetched)"]
  by (auto simp: bridge_sorted_def set_js_sort)

lemma volumeRaw_bridges:
  "map volumeRaw (BridgeVolume.bridges (bridge_volume_output now input fetched)) =
     map (volumeOf input) (bridge_sorted input fetched)"
  by (simp add: bridge_volume_output_def mapi_proj mapi_const)

lemma slice0_single: "1 \<le> e \<Longrightarrow> slice0 e [x] = [x]"
proof -
  assume e: "1 \<le> e"
  then have "1 \<le> \<lfloor>e\<rfloor>" by (simp add: le_floor_iff)
  then have "nat (min \<lfloor>e\<rfloor> 1) = 1" by simp
  with e show ?thesis
    by (simp add: slice0_def trunc_def)
qed

theorem bridge_volume_positive_only:
  "(\<forall>e\<in>set (BridgeVolume.bridges (bridge_volume_output now input fetched)). 0 < volumeRaw e) \<and>
   map volumeRaw (BridgeVolume.bridges (bridge_volume_output now input fetched)) =
     map (volumeOf input) (bridge_sorted input fetched) \<and>
   map BridgeEntry.name (BridgeVolume.bridges (bridge_volume_output now input fetched)) =
     map displayName (bridge_sorted input fetched) \<and>
   set (bridge_sorted input fetched) \<subseteq> {b \<in> set fetched. 0 < volumeOf input b} \<and>
   (weeklyVolume a = 100 \<and> weeklyVolume b = 0 \<and> 1 \<le> lm \<longrightarrow>
      BridgeVolume.bridges
        (bridge_volume_output now \<lparr> BridgeVolumeInput.limit = lm, period = P7d \<rparr> [a, b]) =
        [\<lparr> BridgeEntry.rank = 1,
           name = displayName a,
           volume = [Lit ''$'', Fixed (Num (100 / 1000000)) 1, Lit ''M''],
           volumeRaw = 100,
           share = [Fixed (Num 100) 1, Lit ''%''],
           supportedChains = length (Bridge.chains a),
           chains = slice0 5 (Bridge.chains a) \<rparr>])"
proof -
  have pos: "\<forall>e\<in>set (BridgeVolume.bridges (bridge_volume_output now input fetched)). 0 < volumeRaw e"
  proof -
    have "\<forall>v\<in>set (map (volumeOf input) (bridge_sorted input fetched)). 0 < v"
      using bridge_sorted_positive by auto
    then have "\<forall>v\<in>set (map volumeRaw (BridgeVolume.bridges (bridge_volume_output now input fetched))). 0 < v"
      by (simp only: volumeRaw_bridges)
    then show ?thesis by simp
  qed
  have names: "map BridgeEntry.name (BridgeVolume.bridges (bridge_volume_output now input fetched)) =
     map displayName (bridge_sorted input fetched)"
    by (simp add: bridge_volume_output_def mapi_proj mapi_const)
  have sub: "set (bridge_sorted input fetched) \<subseteq> {b \<in> set fetched. 0 < volumeOf input b}"
    using bridge_sorted_positive by blast
  have scen: "BridgeVolume.bridges
        (bridge_volume_output now \<lparr> BridgeVolumeInput.limit = lm, period = P7d \<rparr> [a, b]) =
        [\<lparr> BridgeEntry.rank = 1,
           name = displayName a,
           volume = [Lit ''$'', Fixed (Num (100 / 1000000)) 1, Lit ''M''],
           volumeRaw = 100,
           share = [Fixed (Num 100) 1, Lit ''%''],
           supportedChains = length (Bridge.chains a),
           chains = slice0 5 (Bridge.chains a) \<rparr>]"
    if "weeklyVolume a = 100" "weeklyVolume b = 0" "1 \<le> lm"
  proof -
    let ?i = "\<lparr> BridgeVolumeInput.limit = lm, period = P7d \<rparr>"
    have v: "volumeOf ?i a = 100" "volumeOf ?i b = 0"
      using that by (simp_all add: volumeOf_def volumeKey_def)
    have s: "bridge_sorted ?i [a, b] = [a]"
      using that(3) by (simp add: bridge_sorted_def v js_sort_def slice0_single)
    show ?thesis
      by (simp add: bridge_volume_output_def totalVolume_of_def s v reduce_def mapi_def
          js_div_def js_times_def)
  qed
  from pos volumeRaw_bridges names sub scen show ?thesis by blast
qed

theorem bridge_volume_positive_only_witness:
  "weeklyVolume (example_bridges ! 0) = 100 \<and> weeklyVolume (example_bridges ! 1) = 0 \<and>
   map (\<lambda>e. (BridgeEntry.rank e, BridgeEntry.name e, BridgeEntry.share e))
     (BridgeVolume.bridges (bridge_volume_output ''now''
        \<lparr> BridgeVolumeInput.limit = 10, period = P7d \<rparr> [example_bridges ! 0, example_bridges ! 1])) =
     [(1, ''First'', [Fixed (Num 100) 1, Lit ''%''])]"
proof -
  have w: "weeklyVolume (example_bridges ! 0) = 100" "weeklyVolume (example_bridges ! 1) = 0"
    "displayName (example_bridges ! 0) = ''First''"
    by (simp_all add: example_defs)
  note inst = bridge_volume_positive_only [where now = "''now''"
      and input = "\<lparr> BridgeVolumeInput.limit = 10, period = P7d \<rparr>" and fetched = example_bridges
      and a = "example_bridges ! 0" and b = "example_bridges ! 1" and lm = 10]
  from inst w show ?thesis
    by simp
qed

section \<open>Top chains: what the total counts\<close>

lemma tvlRaw_chains:
  "map TopChainEntry.tvlRaw (TopChains.chains (top_chains_output now input fetched)) =
     map Chain.tvl (top_chains_sorted input fetched)"
  by (simp add: top_chains_output_def mapi_proj mapi_const Let_def)

lemma slice0_drop: "slice0 e xs @ drop (length (slice0 e xs)) xs = xs"
  by (simp add: slice0_take)

lemma tvlRaw_chains_d:
  "map tvlRaw_d (TopChainsD.chains_d (top_chains_output_d now input fetched)) =
     map ChainD.tvl_d (top_chains_sorted_d input fetched)"
  by (simp add: top_chains_output_d_def mapi_proj mapi_const Let_def)

lemma example_all_d:
  "top_chains_all_d \<lparr> TopChainsInput.limit = 2, minTvl = 0, category = All \<rparr> example_chains_d =
     [example_chains_d ! 1, example_chains_d ! 0, example_chains_d ! 2]"
  by (simp add: top_chains_all_d_def top_chains_filtered_d_def by_category_d_def js_sort_def
      example_chains_d_def double_eval)

lemma precise_all_d:
  "top_chains_all_d \<lparr> TopChainsInput.limit = l, minTvl = 0, category = All \<rparr> example_precise =
     example_precise"
  by (simp add: top_chains_all_d_def top_chains_filtered_d_def by_category_d_def js_sort_def
      example_precise_def double_eval)

text \<open>
  C10. In top-chains the total shown is the sum of \<open>tvlRaw\<close> over the chains the output
  lists, added up as doubles in the order of the list, and \<open>count\<close> is their number: both
  are taken after the minTvl filter, the category filter, the descending sort and the slice
  to \<open>limit\<close>. Adding on the tvl of the chains that the slice cut off gives the total of
  all chains that passed the filters. When every tvl of the feed is a finite double and the
  chains cut off have a positive tvl, the total shown is at most that total. It need not be
  strictly less: every sum is rounded, and a small tvl added to a large total can leave it
  as it is.
\<close>

theorem top_chains_total_of_returned:
  "totalTVL_d (top_chains_output_d now input fetched) =
     [Lit ''$'',
      Fixed (ddiv (foldl dadd (Num 0)
                     (map tvlRaw_d (TopChainsD.chains_d (top_chains_output_d now input fetched))))
               (Num 1000000000)) 2,
      Lit ''B''] \<and>
   count_d (top_chains_output_d now input fetched) =
     length (TopChainsD.chains_d (top_chains_output_d now input fetched)) \<and>
   map tvlRaw_d (TopChainsD.chains_d (top_chains_output_d now input fetched)) =
     map ChainD.tvl_d
       (slice0 (TopChainsInput.limit input)
          (js_sort (\<lambda>a b. cmp_num (dsub (ChainD.tvl_d b) (ChainD.tvl_d a)))
             (by_category_d (category input)
                (filter (\<lambda>c. dle (Num (minTvl input)) (ChainD.tvl_d c)) fetched)))) \<and>
   foldl dadd (Num 0) (map ChainD.tvl_d (top_chains_all_d input fetched)) =
     foldl dadd
       (foldl dadd (Num 0)
          (map tvlRaw_d (TopChainsD.chains_d (top_chains_output_d now input fetched))))
       (map ChainD.tvl_d
          (drop (length (top_chains_sorted_d input fetched)) (top_chains_all_d input fetched))) \<and>
   ((\<forall>c\<in>set fetched. finite_double (ChainD.tvl_d c)) \<and>
    (\<forall>c\<in>set (drop (length (top_chains_sorted_d input fetched))
                 (top_chains_all_d input fetched)).
        dlt (Num 0) (ChainD.tvl_d c)) \<longrightarrow>
      dle (foldl dadd (Num 0)
             (map tvlRaw_d (TopChainsD.chains_d (top_chains_output_d now input fetched))))
          (foldl dadd (Num 0) (map ChainD.tvl_d (top_chains_all_d input fetched))))"
proof -
  let ?out = "top_chains_output_d now input fetched"
  let ?all = "top_chains_all_d input fetched"
  let ?shown = "top_chains_sorted_d input fetched"
  let ?rest = "drop (length ?shown) ?all"
  let ?reported = "foldl dadd (Num 0) (map tvlRaw_d (TopChainsD.chains_d ?out))"
  have total: "totalTVL_d ?out = [Lit ''$'', Fixed (ddiv ?reported (Num 1000000000)) 2, Lit ''B'']"
    unfolding tvlRaw_chains_d
    by (simp add: top_chains_output_d_def Let_def reduce_dadd)
  have count: "count_d ?out = length (TopChainsD.chains_d ?out)"
    by (simp add: top_chains_output_d_def Let_def length_mapi)
  have raw: "map tvlRaw_d (TopChainsD.chains_d ?out) =
     map ChainD.tvl_d
       (slice0 (TopChainsInput.limit input)
          (js_sort (\<lambda>a b. cmp_num (dsub (ChainD.tvl_d b) (ChainD.tvl_d a)))
             (by_category_d (category input)
                (filter (\<lambda>c. dle (Num (minTvl input)) (ChainD.tvl_d c)) fetched))))"
    by (simp add: tvlRaw_chains_d top_chains_sorted_d_def top_chains_all_d_def
        top_chains_filtered_d_def)
  have split: "?all = ?shown @ ?rest"
    using slice0_drop [of "TopChainsInput.limit input" ?all]
    by (simp add: top_chains_sorted_d_def)
  have "foldl dadd (Num 0) (map ChainD.tvl_d ?all) =
      foldl dadd (Num 0) (map ChainD.tvl_d (?shown @ ?rest))"
    using split by simp
  then have continued: "foldl dadd (Num 0) (map ChainD.tvl_d ?all) =
      foldl dadd ?reported (map ChainD.tvl_d ?rest)"
    by (simp only: map_append foldl_append tvlRaw_chains_d)
  have le: "dle ?reported (foldl dadd (Num 0) (map ChainD.tvl_d ?all))"
    if fin: "\<forall>c\<in>set fetched. finite_double (ChainD.tvl_d c)"
      and pos: "\<forall>c\<in>set ?rest. dlt (Num 0) (ChainD.tvl_d c)"
  proof -
    have sub: "set ?all \<subseteq> set fetched"
      by (auto simp: top_chains_all_d_def set_js_sort_any top_chains_filtered_d_def
          by_category_d_def)
    have "set ?shown \<subseteq> set ?all"
      by (simp add: top_chains_sorted_d_def set_slice0)
    with sub fin have "\<forall>x\<in>set (map ChainD.tvl_d ?shown). finite_double x"
      by auto
    from foldl_dadd_double [OF this, of "Num 0"]
    have rep: "is_double ?reported" "?reported \<noteq> NaN"
      by (simp_all add: tvlRaw_chains_d is_double_def to_double_zero)
    have "set ?rest \<subseteq> set ?all"
      by (rule set_drop_subset)
    with sub fin pos have "\<forall>x\<in>set (map ChainD.tvl_d ?rest). finite_double x \<and> dle (Num 0) x"
      by (auto intro: dlt_dle)
    from foldl_dadd_grow [OF this rep] show ?thesis
      by (simp only: continued)
  qed
  from total count raw continued le show ?thesis
    by blast
qed

theorem top_chains_total_of_returned_witness:
  "\<not> (\<exists>c\<in>set example_chains_d. \<not> finite_double (ChainD.tvl_d c)) \<and>
   map ChainD.tvl_d
     (drop (length (top_chains_sorted_d
                      \<lparr> TopChainsInput.limit = 2, minTvl = 0, category = All \<rparr> example_chains_d))
        (top_chains_all_d
           \<lparr> TopChainsInput.limit = 2, minTvl = 0, category = All \<rparr> example_chains_d)) =
     [Num 5000000000] \<and>
   map tvlRaw_d (TopChainsD.chains_d (top_chains_output_d ''now''
      \<lparr> TopChainsInput.limit = 2, minTvl = 0, category = All \<rparr> example_chains_d)) =
     [Num 50000000000, Num 5000000000] \<and>
   totalTVL_d (top_chains_output_d ''now''
      \<lparr> TopChainsInput.limit = 2, minTvl = 0, category = All \<rparr> example_chains_d) =
     [Lit ''$'', Fixed (Num 55) 2, Lit ''B''] \<and>
   dle (foldl dadd (Num 0) (map tvlRaw_d (TopChainsD.chains_d (top_chains_output_d ''now''
          \<lparr> TopChainsInput.limit = 2, minTvl = 0, category = All \<rparr> example_chains_d))))
       (foldl dadd (Num 0) (map ChainD.tvl_d (top_chains_all_d
          \<lparr> TopChainsInput.limit = 2, minTvl = 0, category = All \<rparr> example_chains_d)))"
proof -
  let ?i = "\<lparr> TopChainsInput.limit = 2, minTvl = 0, category = All \<rparr>"
  let ?out = "top_chains_output_d ''now'' ?i example_chains_d"
  have shown: "top_chains_sorted_d ?i example_chains_d = [example_chains_d ! 1, example_chains_d ! 0]"
    unfolding top_chains_sorted_d_def example_all_d by (simp add: slice0_numeral)
  have fin: "\<forall>c\<in>set example_chains_d. finite_double (ChainD.tvl_d c)"
    by (simp add: example_chains_d_def finite_double_def double_eval)
  have rest: "map ChainD.tvl_d (drop (length (top_chains_sorted_d ?i example_chains_d))
      (top_chains_all_d ?i example_chains_d)) = [Num 5000000000]"
    unfolding shown example_all_d by (simp add: example_chains_d_def)
  then have pos: "\<forall>c\<in>set (drop (length (top_chains_sorted_d ?i example_chains_d))
      (top_chains_all_d ?i example_chains_d)). dlt (Num 0) (ChainD.tvl_d c)"
    unfolding shown example_all_d by (simp add: example_chains_d_def)
  note inst = top_chains_total_of_returned [where now = "''now''" and input = ?i
      and fetched = example_chains_d]
  have raw: "map tvlRaw_d (TopChainsD.chains_d ?out) = [Num 50000000000, Num 5000000000]"
    unfolding tvlRaw_chains_d shown by (simp add: example_chains_d_def)
  have total: "totalTVL_d ?out = [Lit ''$'', Fixed (Num 55) 2, Lit ''B'']"
    using inst [THEN conjunct1] by (simp add: raw double_eval)
  from inst fin pos
  have le: "dle (foldl dadd (Num 0) (map tvlRaw_d (TopChainsD.chains_d ?out)))
       (foldl dadd (Num 0) (map ChainD.tvl_d (top_chains_all_d ?i example_chains_d)))"
    by blast
  from fin have "\<not> (\<exists>c\<in>set example_chains_d. \<not> finite_double (ChainD.tvl_d c))"
    by blast
  with rest raw total le show ?thesis
    by (intro conjI)
qed

text \<open>
  C10, as the specification states it, fails: with a tvl of \<open>2 ^ 53\<close> and one of 1 and
  \<open>limit\<close> 1, one chain with a positive tvl is cut off, and the total shown is the total
  of the two chains.
\<close>

theorem total_not_strictly_less:
  "valid_top_chains_input \<lparr> TopChainsInput.limit = 1, minTvl = 0, category = All \<rparr> \<and>
   map (\<lambda>c. finite_double (ChainD.tvl_d c)) example_precise = [True, True] \<and>
   map ChainD.tvl_d
     (top_chains_filtered_d \<lparr> TopChainsInput.limit = 1, minTvl = 0, category = All \<rparr>
        example_precise) =
     [Num 9007199254740992, Num 1] \<and>
   map tvlRaw_d (TopChainsD.chains_d (top_chains_output_d ''now''
      \<lparr> TopChainsInput.limit = 1, minTvl = 0, category = All \<rparr> example_precise)) =
     [Num 9007199254740992] \<and>
   map ChainD.tvl_d
     (drop (length (top_chains_sorted_d
                      \<lparr> TopChainsInput.limit = 1, minTvl = 0, category = All \<rparr> example_precise))
        (top_chains_all_d
           \<lparr> TopChainsInput.limit = 1, minTvl = 0, category = All \<rparr> example_precise)) =
     [Num 1] \<and>
   foldl dadd (Num 0) (map tvlRaw_d (TopChainsD.chains_d (top_chains_output_d ''now''
      \<lparr> TopChainsInput.limit = 1, minTvl = 0, category = All \<rparr> example_precise))) =
     Num 9007199254740992 \<and>
   foldl dadd (Num 0) (map ChainD.tvl_d (top_chains_all_d
      \<lparr> TopChainsInput.limit = 1, minTvl = 0, category = All \<rparr> example_precise)) =
     Num 9007199254740992 \<and>
   foldl dadd (Num 0) (map ChainD.tvl_d (top_chains_filtered_d
      \<lparr> TopChainsInput.limit = 1, minTvl = 0, category = All \<rparr> example_precise)) =
     Num 9007199254740992 \<and>
   totalTVL_d (top_chains_output_d ''now''
      \<lparr> TopChainsInput.limit = 1, minTvl = 0, category = All \<rparr> example_precise) =
     totalTVL_d (top_chains_output_d ''now''
      \<lparr> TopChainsInput.limit = 2, minTvl = 0, category = All \<rparr> example_precise)"
proof -
  let ?i = "\<lparr> TopChainsInput.limit = 1, minTvl = 0, category = All \<rparr>"
  let ?j = "\<lparr> TopChainsInput.limit = 2, minTvl = 0, category = All \<rparr>"
  have v: "valid_top_chains_input ?i"
    by (simp add: valid_top_chains_input_def)
  have fin: "map (\<lambda>c. finite_double (ChainD.tvl_d c)) example_precise = [True, True]"
    by (simp add: example_precise_def finite_double_def to_double_2_53 to_double_one)
  have filtered: "top_chains_filtered_d ?i example_precise = example_precise"
    by (simp add: top_chains_filtered_d_def by_category_d_def example_precise_def)
  have shown: "top_chains_sorted_d ?i example_precise = [example_precise ! 0]"
    unfolding top_chains_sorted_d_def precise_all_d
    by (simp add: slice0_def trunc_def example_precise_def)
  have both: "top_chains_sorted_d ?j example_precise = example_precise"
    unfolding top_chains_sorted_d_def precise_all_d
    by (simp add: slice0_numeral example_precise_def)
  have f: "map ChainD.tvl_d (top_chains_filtered_d ?i example_precise) =
      [Num 9007199254740992, Num 1]"
    unfolding filtered by (simp add: example_precise_def)
  have raw: "map tvlRaw_d (TopChainsD.chains_d (top_chains_output_d ''now'' ?i example_precise)) =
      [Num 9007199254740992]"
    unfolding tvlRaw_chains_d shown by (simp add: example_precise_def)
  have rest: "map ChainD.tvl_d (drop (length (top_chains_sorted_d ?i example_precise))
      (top_chains_all_d ?i example_precise)) = [Num 1]"
    unfolding shown precise_all_d by (simp add: example_precise_def)
  have reported: "foldl dadd (Num 0) (map tvlRaw_d (TopChainsD.chains_d
      (top_chains_output_d ''now'' ?i example_precise))) = Num 9007199254740992"
    by (simp add: raw to_double_2_53)
  have whole: "foldl dadd (Num 0) (map ChainD.tvl_d (top_chains_all_d ?i example_precise)) =
      Num 9007199254740992"
    unfolding precise_all_d by (simp add: example_precise_def to_double_2_53 to_double_2_53_1)
  have whole': "foldl dadd (Num 0) (map ChainD.tvl_d (top_chains_filtered_d ?i example_precise)) =
      Num 9007199254740992"
    unfolding filtered by (simp add: example_precise_def to_double_2_53 to_double_2_53_1)
  have same: "totalTVL_d (top_chains_output_d ''now'' ?i example_precise) =
      totalTVL_d (top_chains_output_d ''now'' ?j example_precise)"
    unfolding top_chains_output_d_def Let_def reduce_dadd shown both
    by (simp add: example_precise_def to_double_2_53 to_double_2_53_1)
  from v fin f raw rest reported whole whole' same show ?thesis
    by (intro conjI)
qed

section \<open>Shares in the stablecoin and bridge views\<close>

lemma raw_distribution:
  "map DistEntry.stablecoinsRaw (distribution (stablecoin_flows_output now input stables)) =
     map stablecoinsUSD (withUSD input stables)"
  by (simp add: stablecoin_flows_output_def mapi_proj mapi_const)

lemma set_mapi: "e \<in> set (mapi f xs) \<Longrightarrow> \<exists>x j. x \<in> set xs \<and> e = f x j"
  unfolding mapi_def by (rule set_mapFrom)

lemma withUSD_d_mem:
  assumes "s \<in> set (withUSD_d input stables)"
  shows "dlt (Num 0) (stablecoinsUSD_d s) \<and>
     (\<exists>c\<in>set stables. peggedUSD_d (totalCirculatingUSD_d c) = Some (stablecoinsUSD_d s))"
proof -
  let ?conv = "\<lambda>s. \<lparr> WithUSDD.name_d = StablecoinChainD.name_d s,
                       stablecoinsUSD_d = the (peggedUSD_d (totalCirculatingUSD_d s)),
                       tokenSymbol_d = StablecoinChainD.tokenSymbol_d s \<rparr>"
  let ?keep = "\<lambda>s. dtruthy (peggedUSD_d (totalCirculatingUSD_d s)) \<and>
                           dpositive (peggedUSD_d (totalCirculatingUSD_d s))"
  let ?cmp = "\<lambda>a b. cmp_num (dsub (stablecoinsUSD_d b) (stablecoinsUSD_d a))"
  have "withUSD_d input stables =
      slice0 (StablecoinFlowsInput.limit input) (js_sort ?cmp (map ?conv (filter ?keep stables)))"
    by (simp only: withUSD_d_def)
  with assms have "s \<in> set (slice0 (StablecoinFlowsInput.limit input)
      (js_sort ?cmp (map ?conv (filter ?keep stables))))"
    by simp
  then have "s \<in> set (js_sort ?cmp (map ?conv (filter ?keep stables)))"
    by (rule subsetD [OF set_slice0])
  then have "s \<in> ?conv ` set (filter ?keep stables)"
    by (simp only: set_js_sort_any set_map)
  then obtain c where c: "c \<in> set (filter ?keep stables)" "s = ?conv c"
    by (rule imageE)
  from c(1) have in_feed: "c \<in> set stables" and pos: "dpositive (peggedUSD_d (totalCirculatingUSD_d c))"
    by simp_all
  from c(2) have v: "stablecoinsUSD_d s = the (peggedUSD_d (totalCirculatingUSD_d c))"
    by simp
  from pos obtain x where x: "peggedUSD_d (totalCirculatingUSD_d c) = Some x" "dlt (Num 0) x"
    by (cases "peggedUSD_d (totalCirculatingUSD_d c)") (simp_all add: dpositive_def)
  with v have "stablecoinsUSD_d s = x"
    by simp
  with x in_feed show ?thesis
    by blast
qed

lemma bridge_sorted_d_mem:
  assumes "b \<in> set (bridge_sorted_d input fetched)"
  shows "b \<in> set fetched \<and> dlt (Num 0) (volumeOf_d input b)"
proof -
  let ?cmp = "\<lambda>a b. cmp_num (dsub (volumeOf_d input b) (volumeOf_d input a))"
  from assms have "b \<in> set (slice0 (BridgeVolumeInput.limit input)
      (js_sort ?cmp (filter (\<lambda>b. dlt (Num 0) (volumeOf_d input b)) fetched)))"
    by (simp only: bridge_sorted_d_def)
  then have "b \<in> set (js_sort ?cmp (filter (\<lambda>b. dlt (Num 0) (volumeOf_d input b)) fetched))"
    by (rule subsetD [OF set_slice0])
  then show ?thesis
    by (simp add: set_js_sort_any)
qed

lemma raw_distribution_d:
  "map stablecoinsRaw_d (distribution_d (stablecoin_flows_output_d now input stables)) =
     map stablecoinsUSD_d (withUSD_d input stables)"
  by (simp add: stablecoin_flows_output_d_def mapi_proj mapi_const)

lemma volumeRaw_bridges_d:
  "map volumeRaw_d (bridges_d (bridge_volume_output_d now input fetched)) =
     map (volumeOf_d input) (bridge_sorted_d input fetched)"
  by (simp add: bridge_volume_output_d_def mapi_proj mapi_const)



lemma distribution_share_d:
  assumes "e \<in> set (distribution_d (stablecoin_flows_output_d now input stables))"
  shows "stablecoinsRaw_d e \<in> stablecoinsUSD_d ` set (withUSD_d input stables) \<and>
     DistEntryD.share_d e =
       [Fixed (dmul (ddiv (stablecoinsRaw_d e) (totalStables_d input stables)) (Num 100)) 1,
        Lit ''%'']"
  using assms unfolding stablecoin_flows_output_d_def by (auto dest: set_mapi)

lemma bridges_share_d:
  assumes "e \<in> set (bridges_d (bridge_volume_output_d now input fetched))"
  shows "volumeRaw_d e \<in> volumeOf_d input ` set (bridge_sorted_d input fetched) \<and>
     BridgeEntryD.share_d e =
       [Fixed (dmul (ddiv (volumeRaw_d e) (totalVolume_d_of input fetched)) (Num 100)) 1,
        Lit ''%'']"
  using assms unfolding bridge_volume_output_d_def by (auto dest: set_mapi)


lemma example_bridge_sorted_d:
  "bridge_sorted_d \<lparr> BridgeVolumeInput.limit = 10, period = P7d \<rparr> example_bridges_d =
     [example_bridges_d ! 0]"
  by (simp add: bridge_sorted_d_def volumeOf_d_def volumeKey_d_def example_bridges_d_def
      js_sort_def slice0_def trunc_def)





text \<open>
  C5. In stablecoin-flows and bridge-volume the records that are ranked all have a strictly
  positive value. When the values of the feed are doubles, the total is zero only when
  nothing is shown, and it is never NaN: no share divides by zero. When the values are
  moreover finite, every share shown is a finite number from 0 to 100. An infinite value
  in the feed makes the total infinite and the share NaN.
\<close>

theorem shares_are_finite:
  "(\<forall>s\<in>set (withUSD_d sinput stables). dlt (Num 0) (stablecoinsUSD_d s)) \<and>
   ((\<forall>s\<in>set stables. \<forall>v. peggedUSD_d (totalCirculatingUSD_d s) = Some v \<longrightarrow> is_double v) \<longrightarrow>
      (totalStables_d sinput stables = Num 0 \<longleftrightarrow> withUSD_d sinput stables = []) \<and>
      totalStables_d sinput stables \<noteq> NaN) \<and>
   ((\<forall>s\<in>set stables. \<forall>v. peggedUSD_d (totalCirculatingUSD_d s) = Some v \<longrightarrow> finite_double v) \<longrightarrow>
      (\<forall>e\<in>set (distribution_d (stablecoin_flows_output_d now sinput stables)).
         \<exists>r. DistEntryD.share_d e = [Fixed (Num r) 1, Lit ''%''] \<and> 0 \<le> r \<and> r \<le> 100)) \<and>
   (\<forall>b\<in>set (bridge_sorted_d binput fetched). dlt (Num 0) (volumeOf_d binput b)) \<and>
   ((\<forall>b\<in>set fetched. is_double (volumeOf_d binput b)) \<longrightarrow>
      (totalVolume_d_of binput fetched = Num 0 \<longleftrightarrow> bridge_sorted_d binput fetched = []) \<and>
      totalVolume_d_of binput fetched \<noteq> NaN) \<and>
   ((\<forall>b\<in>set fetched. finite_double (volumeOf_d binput b)) \<longrightarrow>
      (\<forall>e\<in>set (bridges_d (bridge_volume_output_d now binput fetched)).
         \<exists>r. BridgeEntryD.share_d e = [Fixed (Num r) 1, Lit ''%''] \<and> 0 \<le> r \<and> r \<le> 100))"
proof -
  let ?w = "map stablecoinsUSD_d (withUSD_d sinput stables)"
  let ?b = "map (volumeOf_d binput) (bridge_sorted_d binput fetched)"
  have fd: "is_double v" if "finite_double v" for v
    using that by (cases v) (simp_all add: finite_double_def is_double_def)
  have ts: "totalStables_d sinput stables = foldl dadd (Num 0) ?w"
    by (simp add: totalStables_d_def reduce_dadd)
  have tv: "totalVolume_d_of binput fetched = foldl dadd (Num 0) ?b"
    by (simp add: totalVolume_d_of_def reduce_dadd)
  have p1: "\<forall>s\<in>set (withUSD_d sinput stables). dlt (Num 0) (stablecoinsUSD_d s)"
    using withUSD_d_mem [of _ sinput stables] by blast
  have p2: "\<forall>b\<in>set (bridge_sorted_d binput fetched). dlt (Num 0) (volumeOf_d binput b)"
    using bridge_sorted_d_mem [of _ binput fetched] by blast
  have sw: "\<forall>x\<in>set ?w. is_double x \<and> dlt (Num 0) x"
    if "\<forall>s\<in>set stables. \<forall>v. peggedUSD_d (totalCirculatingUSD_d s) = Some v \<longrightarrow> is_double v"
  proof
    fix x
    assume "x \<in> set ?w"
    then obtain s where s: "s \<in> set (withUSD_d sinput stables)" "x = stablecoinsUSD_d s"
      by auto
    from withUSD_d_mem [OF s(1)] that s(2) show "is_double x \<and> dlt (Num 0) x"
      by blast
  qed
  have sb: "\<forall>x\<in>set ?b. is_double x \<and> dlt (Num 0) x"
    if "\<forall>b\<in>set fetched. is_double (volumeOf_d binput b)"
  proof
    fix x
    assume "x \<in> set ?b"
    then obtain b where b: "b \<in> set (bridge_sorted_d binput fetched)" "x = volumeOf_d binput b"
      by auto
    from bridge_sorted_d_mem [OF b(1)] that b(2) show "is_double x \<and> dlt (Num 0) x"
      by blast
  qed
  have z1: "(totalStables_d sinput stables = Num 0 \<longleftrightarrow> withUSD_d sinput stables = []) \<and>
      totalStables_d sinput stables \<noteq> NaN"
    if "\<forall>s\<in>set stables. \<forall>v. peggedUSD_d (totalCirculatingUSD_d s) = Some v \<longrightarrow> is_double v"
    using total_pos(2,3) [OF sw [OF that]] by (simp add: ts)
  have z2: "(totalVolume_d_of binput fetched = Num 0 \<longleftrightarrow> bridge_sorted_d binput fetched = []) \<and>
      totalVolume_d_of binput fetched \<noteq> NaN"
    if "\<forall>b\<in>set fetched. is_double (volumeOf_d binput b)"
    using total_pos(2,3) [OF sb [OF that]] by (simp add: tv)
  have f1: "\<exists>r. DistEntryD.share_d e = [Fixed (Num r) 1, Lit ''%''] \<and> 0 \<le> r \<and> r \<le> 100"
    if fin: "\<forall>s\<in>set stables. \<forall>v. peggedUSD_d (totalCirculatingUSD_d s) = Some v \<longrightarrow> finite_double v"
      and e: "e \<in> set (distribution_d (stablecoin_flows_output_d now sinput stables))" for e
  proof -
    from fin fd
    have "\<forall>s\<in>set stables. \<forall>v. peggedUSD_d (totalCirculatingUSD_d s) = Some v \<longrightarrow> is_double v"
      by blast
    from total_pos(1) [OF sw [OF this]] have le: "\<forall>x\<in>set ?w. dle x (totalStables_d sinput stables)"
      by (simp only: ts)
    from distribution_share_d [OF e] obtain s where s: "s \<in> set (withUSD_d sinput stables)"
      "stablecoinsRaw_d e = stablecoinsUSD_d s"
      and share: "DistEntryD.share_d e =
        [Fixed (dmul (ddiv (stablecoinsRaw_d e) (totalStables_d sinput stables)) (Num 100)) 1,
         Lit ''%'']"
      by auto
    from withUSD_d_mem [OF s(1)] fin have "finite_double (stablecoinsUSD_d s)"
      "dlt (Num 0) (stablecoinsUSD_d s)"
      by auto
    moreover from le s(1) have "dle (stablecoinsUSD_d s) (totalStables_d sinput stables)"
      by simp
    ultimately show ?thesis
      using share_between [of "stablecoinsUSD_d s" "totalStables_d sinput stables"]
      by (simp add: share s(2))
  qed
  have f2: "\<exists>r. BridgeEntryD.share_d e = [Fixed (Num r) 1, Lit ''%''] \<and> 0 \<le> r \<and> r \<le> 100"
    if fin: "\<forall>b\<in>set fetched. finite_double (volumeOf_d binput b)"
      and e: "e \<in> set (bridges_d (bridge_volume_output_d now binput fetched))" for e
  proof -
    from fin fd have "\<forall>b\<in>set fetched. is_double (volumeOf_d binput b)"
      by blast
    from total_pos(1) [OF sb [OF this]] have le: "\<forall>x\<in>set ?b. dle x (totalVolume_d_of binput fetched)"
      by (simp only: tv)
    from bridges_share_d [OF e] obtain b where b: "b \<in> set (bridge_sorted_d binput fetched)"
      "volumeRaw_d e = volumeOf_d binput b"
      and share: "BridgeEntryD.share_d e =
        [Fixed (dmul (ddiv (volumeRaw_d e) (totalVolume_d_of binput fetched)) (Num 100)) 1,
         Lit ''%'']"
      by auto
    from bridge_sorted_d_mem [OF b(1)] fin have "finite_double (volumeOf_d binput b)"
      "dlt (Num 0) (volumeOf_d binput b)"
      by auto
    moreover from le b(1) have "dle (volumeOf_d binput b) (totalVolume_d_of binput fetched)"
      by simp
    ultimately show ?thesis
      using share_between [of "volumeOf_d binput b" "totalVolume_d_of binput fetched"]
      by (simp add: share b(2))
  qed
  from z1 have z1': "(\<forall>s\<in>set stables. \<forall>v. peggedUSD_d (totalCirculatingUSD_d s) = Some v \<longrightarrow> is_double v) \<longrightarrow>
      (totalStables_d sinput stables = Num 0 \<longleftrightarrow> withUSD_d sinput stables = []) \<and>
      totalStables_d sinput stables \<noteq> NaN"
    by (rule impI)
  from z2 have z2': "(\<forall>b\<in>set fetched. is_double (volumeOf_d binput b)) \<longrightarrow>
      (totalVolume_d_of binput fetched = Num 0 \<longleftrightarrow> bridge_sorted_d binput fetched = []) \<and>
      totalVolume_d_of binput fetched \<noteq> NaN"
    by (rule impI)
  from f1 have f1': "(\<forall>s\<in>set stables. \<forall>v. peggedUSD_d (totalCirculatingUSD_d s) = Some v \<longrightarrow> finite_double v) \<longrightarrow>
      (\<forall>e\<in>set (distribution_d (stablecoin_flows_output_d now sinput stables)).
         \<exists>r. DistEntryD.share_d e = [Fixed (Num r) 1, Lit ''%''] \<and> 0 \<le> r \<and> r \<le> 100)"
    by (intro impI ballI)
  from f2 have f2': "(\<forall>b\<in>set fetched. finite_double (volumeOf_d binput b)) \<longrightarrow>
      (\<forall>e\<in>set (bridges_d (bridge_volume_output_d now binput fetched)).
         \<exists>r. BridgeEntryD.share_d e = [Fixed (Num r) 1, Lit ''%''] \<and> 0 \<le> r \<and> r \<le> 100)"
    by (intro impI ballI)
  from p1 z1' f1' p2 z2' f2' show ?thesis
    by (intro conjI)
qed

theorem shares_are_finite_witness:
  "\<not> (\<exists>s\<in>set example_stables_d. \<exists>v. peggedUSD_d (totalCirculatingUSD_d s) = Some v \<and>
        \<not> finite_double v) \<and>
   map stablecoinsRaw_d
     (distribution_d (stablecoin_flows_output_d ''now'' \<lparr> StablecoinFlowsInput.limit = 20 \<rparr>
        example_stables_d)) =
     [Num 3, Num 1] \<and>
   (\<exists>r q. map DistEntryD.share_d
          (distribution_d (stablecoin_flows_output_d ''now'' \<lparr> StablecoinFlowsInput.limit = 20 \<rparr>
             example_stables_d)) =
        [[Fixed (Num r) 1, Lit ''%''], [Fixed (Num q) 1, Lit ''%'']] \<and>
        0 \<le> r \<and> r \<le> 100 \<and> 0 \<le> q \<and> q \<le> 100) \<and>
   totalStables_d \<lparr> StablecoinFlowsInput.limit = 20 \<rparr> example_stables_d \<noteq> Num 0 \<and>
   withUSD_d \<lparr> StablecoinFlowsInput.limit = 20 \<rparr> [example_stables_d ! 3] = [] \<and>
   totalStables_d \<lparr> StablecoinFlowsInput.limit = 20 \<rparr> [example_stables_d ! 3] = Num 0 \<and>
   \<not> (\<exists>b\<in>set example_bridges_d.
        \<not> finite_double (volumeOf_d \<lparr> BridgeVolumeInput.limit = 10, period = P7d \<rparr> b)) \<and>
   map volumeRaw_d
     (bridges_d (bridge_volume_output_d ''now'' \<lparr> BridgeVolumeInput.limit = 10, period = P7d \<rparr>
        example_bridges_d)) =
     [Num 100] \<and>
   (\<exists>r. map BridgeEntryD.share_d
          (bridges_d (bridge_volume_output_d ''now''
             \<lparr> BridgeVolumeInput.limit = 10, period = P7d \<rparr> example_bridges_d)) =
        [[Fixed (Num r) 1, Lit ''%'']] \<and> 0 \<le> r \<and> r \<le> 100) \<and>
   totalVolume_d_of \<lparr> BridgeVolumeInput.limit = 10, period = P7d \<rparr> example_bridges_d \<noteq> Num 0"
proof -
  let ?si = "\<lparr> StablecoinFlowsInput.limit = 20 \<rparr>"
  let ?bi = "\<lparr> BridgeVolumeInput.limit = 10, period = P7d \<rparr>"
  let ?dist = "distribution_d (stablecoin_flows_output_d ''now'' ?si example_stables_d)"
  let ?brs = "bridges_d (bridge_volume_output_d ''now'' ?bi example_bridges_d)"
  note inst = shares_are_finite [where now = "''now''" and sinput = ?si
      and stables = example_stables_d and binput = ?bi and fetched = example_bridges_d]
  note zero = shares_are_finite [where sinput = ?si and stables = "[example_stables_d ! 3]"]
  have fs: "\<forall>s\<in>set example_stables_d. \<forall>v. peggedUSD_d (totalCirculatingUSD_d s) = Some v \<longrightarrow>
      finite_double v"
    by (simp add: example_stables_d_def finite_double_def double_eval)
  have ds: "\<forall>s\<in>set example_stables_d. \<forall>v. peggedUSD_d (totalCirculatingUSD_d s) = Some v \<longrightarrow>
      is_double v"
    by (simp add: example_stables_d_def is_double_def double_eval)
  have fb: "\<forall>b\<in>set example_bridges_d. finite_double (volumeOf_d ?bi b)"
    by (simp add: example_bridges_d_def volumeOf_d_def volumeKey_d_def finite_double_def double_eval)
  have db: "\<forall>b\<in>set example_bridges_d. is_double (volumeOf_d ?bi b)"
    by (simp add: example_bridges_d_def volumeOf_d_def volumeKey_d_def is_double_def double_eval)
  have w: "withUSD_d ?si example_stables_d =
     [\<lparr> WithUSDD.name_d = ''Ethereum'', stablecoinsUSD_d = Num 3, tokenSymbol_d = Some ''ETH'' \<rparr>,
      \<lparr> WithUSDD.name_d = ''Tron'', stablecoinsUSD_d = Num 1, tokenSymbol_d = Some ''TRON'' \<rparr>]"
    by (simp add: withUSD_d_def example_stables_d_def dtruthy_def dpositive_def js_sort_def
        slice0_def trunc_def double_eval)
  have raw: "map stablecoinsRaw_d ?dist = [Num 3, Num 1]"
    by (simp add: raw_distribution_d w)
  then have "length ?dist = 2"
    using length_map [of stablecoinsRaw_d ?dist] by simp
  then obtain e1 e2 where d: "?dist = [e1, e2]"
    by (cases ?dist; cases "tl ?dist") auto
  from inst fs have all: "\<forall>e\<in>set ?dist. \<exists>r. DistEntryD.share_d e = [Fixed (Num r) 1, Lit ''%''] \<and>
      0 \<le> r \<and> r \<le> 100"
    by blast
  from all d obtain r where r: "DistEntryD.share_d e1 = [Fixed (Num r) 1, Lit ''%'']" "0 \<le> r" "r \<le> 100"
    by auto
  from all d obtain q where q: "DistEntryD.share_d e2 = [Fixed (Num q) 1, Lit ''%'']" "0 \<le> q" "q \<le> 100"
    by auto
  from d r q have share: "\<exists>r q. map DistEntryD.share_d ?dist =
        [[Fixed (Num r) 1, Lit ''%''], [Fixed (Num q) 1, Lit ''%'']] \<and>
        0 \<le> r \<and> r \<le> 100 \<and> 0 \<le> q \<and> q \<le> 100"
    by auto
  from inst ds have "totalStables_d ?si example_stables_d = Num 0 \<longleftrightarrow>
      withUSD_d ?si example_stables_d = []"
    by blast
  then have nz: "totalStables_d ?si example_stables_d \<noteq> Num 0"
    by (simp add: w)
  have empty: "withUSD_d ?si [example_stables_d ! 3] = []"
    by (simp add: withUSD_d_def example_stables_d_def dtruthy_def dpositive_def js_sort_def
        slice0_def trunc_def)
  have "\<forall>s\<in>set [example_stables_d ! 3]. \<forall>v. peggedUSD_d (totalCirculatingUSD_d s) = Some v \<longrightarrow>
      is_double v"
    by (simp add: example_stables_d_def is_double_def double_eval)
  with zero have "totalStables_d ?si [example_stables_d ! 3] = Num 0 \<longleftrightarrow>
      withUSD_d ?si [example_stables_d ! 3] = []"
    by blast
  with empty have z: "totalStables_d ?si [example_stables_d ! 3] = Num 0"
    by simp
  have braw: "map volumeRaw_d ?brs = [Num 100]"
    unfolding volumeRaw_bridges_d example_bridge_sorted_d
    by (simp add: volumeOf_d_def volumeKey_d_def example_bridges_d_def)
  then have "length ?brs = 1"
    using length_map [of volumeRaw_d ?brs] by simp
  then obtain b where bd: "?brs = [b]"
    by (cases ?brs) auto
  from inst fb have ball: "\<forall>e\<in>set ?brs. \<exists>r. BridgeEntryD.share_d e = [Fixed (Num r) 1, Lit ''%''] \<and>
      0 \<le> r \<and> r \<le> 100"
    by blast
  with bd have bshare: "\<exists>r. map BridgeEntryD.share_d ?brs = [[Fixed (Num r) 1, Lit ''%'']] \<and>
      0 \<le> r \<and> r \<le> 100"
    by auto
  from inst db have "totalVolume_d_of ?bi example_bridges_d = Num 0 \<longleftrightarrow>
      bridge_sorted_d ?bi example_bridges_d = []"
    by blast
  then have bnz: "totalVolume_d_of ?bi example_bridges_d \<noteq> Num 0"
    by (simp add: example_bridge_sorted_d)
  from fs have fs': "\<not> (\<exists>s\<in>set example_stables_d. \<exists>v. peggedUSD_d (totalCirculatingUSD_d s) = Some v \<and>
        \<not> finite_double v)"
    by blast
  from fb have fb': "\<not> (\<exists>b\<in>set example_bridges_d. \<not> finite_double (volumeOf_d ?bi b))"
    by blast
  from fs' raw share nz empty z fb' braw bshare bnz show ?thesis
    by (intro conjI)
qed

text \<open>
  C5, as the specification states it, fails: for a supply or a volume that is Infinity the
  share is NaN and the total is Infinity.
\<close>

theorem infinite_value_gives_NaN_share:
  "is_double PosInf \<and>
   map stablecoinsRaw_d
     (distribution_d (stablecoin_flows_output_d ''now'' \<lparr> StablecoinFlowsInput.limit = 20 \<rparr>
        example_huge_stables)) =
     [PosInf] \<and>
   map DistEntryD.share_d
     (distribution_d (stablecoin_flows_output_d ''now'' \<lparr> StablecoinFlowsInput.limit = 20 \<rparr>
        example_huge_stables)) =
     [[Fixed NaN 1, Lit ''%'']] \<and>
   totalStablecoins_d (stablecoin_flows_output_d ''now'' \<lparr> StablecoinFlowsInput.limit = 20 \<rparr>
        example_huge_stables) =
     [Lit ''$'', Fixed PosInf 2, Lit ''B''] \<and>
   map volumeRaw_d
     (bridges_d (bridge_volume_output_d ''now'' \<lparr> BridgeVolumeInput.limit = 10, period = P24h \<rparr>
        example_huge_bridges)) =
     [PosInf] \<and>
   map BridgeEntryD.share_d
     (bridges_d (bridge_volume_output_d ''now'' \<lparr> BridgeVolumeInput.limit = 10, period = P24h \<rparr>
        example_huge_bridges)) =
     [[Fixed NaN 1, Lit ''%'']] \<and>
   totalVolume_d (bridge_volume_output_d ''now'' \<lparr> BridgeVolumeInput.limit = 10, period = P24h \<rparr>
        example_huge_bridges) =
     [Lit ''$'', Fixed PosInf 2, Lit ''B'']"
proof -
  let ?si = "\<lparr> StablecoinFlowsInput.limit = 20 \<rparr>"
  let ?bi = "\<lparr> BridgeVolumeInput.limit = 10, period = P24h \<rparr>"
  have w: "withUSD_d ?si example_huge_stables =
     [\<lparr> WithUSDD.name_d = ''Ethereum'', stablecoinsUSD_d = PosInf, tokenSymbol_d = Some ''ETH'' \<rparr>]"
    by (simp add: withUSD_d_def example_huge_stables_def dtruthy_def dpositive_def js_sort_def
        slice0_def trunc_def)
  have t: "totalStables_d ?si example_huge_stables = PosInf"
    by (simp add: totalStables_d_def reduce_def w)
  have b: "bridge_sorted_d ?bi example_huge_bridges = example_huge_bridges"
    by (simp add: bridge_sorted_d_def volumeOf_d_def volumeKey_d_def example_huge_bridges_def
        js_sort_def slice0_def trunc_def)
  have v: "map (volumeOf_d ?bi) example_huge_bridges = [PosInf]"
    by (simp add: volumeOf_d_def volumeKey_d_def example_huge_bridges_def)
  have tv: "totalVolume_d_of ?bi example_huge_bridges = PosInf"
    using v by (simp add: totalVolume_d_of_def reduce_dadd b)
  have c1: "is_double PosInf"
    by (simp add: is_double_def)
  have c2: "map stablecoinsRaw_d (distribution_d (stablecoin_flows_output_d ''now'' ?si
      example_huge_stables)) = [PosInf]"
    by (simp add: raw_distribution_d w)
  have c3: "map DistEntryD.share_d (distribution_d (stablecoin_flows_output_d ''now'' ?si
      example_huge_stables)) = [[Fixed NaN 1, Lit ''%'']]"
    by (simp add: stablecoin_flows_output_d_def mapi_def w t)
  have c4: "totalStablecoins_d (stablecoin_flows_output_d ''now'' ?si example_huge_stables) =
     [Lit ''$'', Fixed PosInf 2, Lit ''B'']"
    by (simp add: stablecoin_flows_output_d_def t)
  have c5: "map volumeRaw_d (bridges_d (bridge_volume_output_d ''now'' ?bi example_huge_bridges)) =
     [PosInf]"
    by (simp add: volumeRaw_bridges_d b v)
  have c6: "map BridgeEntryD.share_d (bridges_d (bridge_volume_output_d ''now'' ?bi
      example_huge_bridges)) = [[Fixed NaN 1, Lit ''%'']]"
    unfolding bridge_volume_output_d_def b tv
    by (simp add: mapi_def example_huge_bridges_def volumeOf_d_def volumeKey_d_def)
  have c7: "totalVolume_d (bridge_volume_output_d ''now'' ?bi example_huge_bridges) =
     [Lit ''$'', Fixed PosInf 2, Lit ''B'']"
    by (simp add: bridge_volume_output_d_def tv)
  from c1 c2 c3 c4 c5 c6 c7 show ?thesis
    by (intro conjI)
qed

section \<open>Ranks, order and ties\<close>

lemma stable_desc_slice_sort:
  "stable_desc f xs (slice0 e (js_sort (\<lambda>a b. f b - f a) xs))"
proof -
  let ?ys = "js_sort (\<lambda>a b. f b - f a) xs"
  obtain k where k: "slice0 e ?ys = take k ?ys"
    using slice0_take by blast
  have "sorted_wrt (\<lambda>a b. f b \<le> f a) (take k ?ys)"
    using sorted_js_sort by (rule sorted_wrt_take)
  moreover have "prefix (filter (\<lambda>x. f x = v) (take k ?ys)) (filter (\<lambda>x. f x = v) xs)" for v
  proof -
    have "filter (\<lambda>x. f x = v) (take k ?ys) @ filter (\<lambda>x. f x = v) (drop k ?ys) =
        filter (\<lambda>x. f x = v) ?ys"
      by (simp flip: filter_append)
    then show ?thesis
      unfolding stable_js_sort by (metis prefixI)
  qed
  ultimately show ?thesis
    by (simp add: stable_desc_def k)
qed

lemma subseq_by_category: "subseq (by_category cat cs) cs"
  by (simp add: by_category_def)

text \<open>
  C4. In overview, top-chains, stablecoin-flows and bridge-volume the ranks of the entries
  shown are 1, 2, ..., n in this order; each entry shows the name and the value of the
  record at its position in the handler's sorted and sliced list; the values do not
  increase along the output; and the sort is stable: for every value, the records shown
  with that value are the first candidates with that value, in the order in which the
  candidates came (the fetched chains for overview; for the other views the records that
  passed the filters, which keep the order of the fetched collection).
\<close>

theorem ranked_views:
  "map Top5Entry.rank (top5 (overview_output now chainsFetched)) =
     [1 ..< Suc (length (top5 (overview_output now chainsFetched)))] \<and>
   map Top5Entry.name (top5 (overview_output now chainsFetched)) =
     map Chain.name (slice0 5 (js_sort (\<lambda>a b. Chain.tvl b - Chain.tvl a) chainsFetched)) \<and>
   map Top5Entry.tvl (top5 (overview_output now chainsFetched)) =
     map (\<lambda>c. [Lit ''$'', Fixed (Num (Chain.tvl c / 1000000000)) 2, Lit ''B''])
       (slice0 5 (js_sort (\<lambda>a b. Chain.tvl b - Chain.tvl a) chainsFetched)) \<and>
   stable_desc Chain.tvl chainsFetched
     (slice0 5 (js_sort (\<lambda>a b. Chain.tvl b - Chain.tvl a) chainsFetched)) \<and>
   map TopChainEntry.rank (TopChains.chains (top_chains_output now tinput chainsFetched)) =
     [1 ..< Suc (length (TopChains.chains (top_chains_output now tinput chainsFetched)))] \<and>
   map (\<lambda>e. (TopChainEntry.name e, TopChainEntry.tvlRaw e))
       (TopChains.chains (top_chains_output now tinput chainsFetched)) =
     map (\<lambda>c. (Chain.name c, Chain.tvl c)) (top_chains_sorted tinput chainsFetched) \<and>
   sorted_wrt (\<lambda>a b. TopChainEntry.tvlRaw b \<le> TopChainEntry.tvlRaw a)
     (TopChains.chains (top_chains_output now tinput chainsFetched)) \<and>
   stable_desc Chain.tvl (top_chains_filtered tinput chainsFetched)
     (top_chains_sorted tinput chainsFetched) \<and>
   subseq (top_chains_filtered tinput chainsFetched) chainsFetched \<and>
   map DistEntry.rank (distribution (stablecoin_flows_output now sinput stables)) =
     [1 ..< Suc (length (distribution (stablecoin_flows_output now sinput stables)))] \<and>
   map (\<lambda>e. (DistEntry.chain e, DistEntry.stablecoinsRaw e))
       (distribution (stablecoin_flows_output now sinput stables)) =
     map (\<lambda>s. (WithUSD.name s, stablecoinsUSD s)) (withUSD sinput stables) \<and>
   sorted_wrt (\<lambda>a b. DistEntry.stablecoinsRaw b \<le> DistEntry.stablecoinsRaw a)
     (distribution (stablecoin_flows_output now sinput stables)) \<and>
   stable_desc stablecoinsUSD
     (map (\<lambda>s. \<lparr> WithUSD.name = StablecoinChain.name s,
                  stablecoinsUSD = the (peggedUSD (totalCirculatingUSD s)),
                  tokenSymbol = StablecoinChain.tokenSymbol s \<rparr>)
        (filter (\<lambda>s. truthy (peggedUSD (totalCirculatingUSD s)) \<and>
                      positive (peggedUSD (totalCirculatingUSD s)))
           stables))
     (withUSD sinput stables) \<and>
   map BridgeEntry.rank (BridgeVolume.bridges (bridge_volume_output now binput bridgesFetched)) =
     [1 ..< Suc (length (BridgeVolume.bridges (bridge_volume_output now binput bridgesFetched)))] \<and>
   map (\<lambda>e. (BridgeEntry.name e, volumeRaw e))
       (BridgeVolume.bridges (bridge_volume_output now binput bridgesFetched)) =
     map (\<lambda>b. (displayName b, volumeOf binput b)) (bridge_sorted binput bridgesFetched) \<and>
   sorted_wrt (\<lambda>a b. volumeRaw b \<le> volumeRaw a)
     (BridgeVolume.bridges (bridge_volume_output now binput bridgesFetched)) \<and>
   stable_desc (volumeOf binput) (filter (\<lambda>b. 0 < volumeOf binput b) bridgesFetched)
     (bridge_sorted binput bridgesFetched)"
proof -
  have ov: "map Top5Entry.rank (top5 (overview_output now chainsFetched)) =
     [1 ..< Suc (length (top5 (overview_output now chainsFetched)))]"
    "map Top5Entry.name (top5 (overview_output now chainsFetched)) =
     map Chain.name (slice0 5 (js_sort (\<lambda>a b. Chain.tvl b - Chain.tvl a) chainsFetched))"
    "map Top5Entry.tvl (top5 (overview_output now chainsFetched)) =
     map (\<lambda>c. [Lit ''$'', Fixed (Num (Chain.tvl c / 1000000000)) 2, Lit ''B''])
       (slice0 5 (js_sort (\<lambda>a b. Chain.tvl b - Chain.tvl a) chainsFetched))"
    by (simp_all add: overview_output_def Let_def mapi_proj mapi_const mapi_index length_mapi
        js_div_def del: upt_Suc)
  have tc: "map TopChainEntry.rank (TopChains.chains (top_chains_output now tinput chainsFetched)) =
     [1 ..< Suc (length (TopChains.chains (top_chains_output now tinput chainsFetched)))]"
    "map (\<lambda>e. (TopChainEntry.name e, TopChainEntry.tvlRaw e))
       (TopChains.chains (top_chains_output now tinput chainsFetched)) =
     map (\<lambda>c. (Chain.name c, Chain.tvl c)) (top_chains_sorted tinput chainsFetched)"
    by (simp_all add: top_chains_output_def Let_def mapi_proj mapi_const mapi_index length_mapi
        del: upt_Suc)
  have tcs: "stable_desc Chain.tvl (top_chains_filtered tinput chainsFetched)
     (top_chains_sorted tinput chainsFetched)"
    unfolding top_chains_sorted_def by (rule stable_desc_slice_sort)
  have tco: "sorted_wrt (\<lambda>a b. TopChainEntry.tvlRaw b \<le> TopChainEntry.tvlRaw a)
     (TopChains.chains (top_chains_output now tinput chainsFetched))"
  proof -
    have "sorted_wrt (\<lambda>a b. b \<le> a) (map Chain.tvl (top_chains_sorted tinput chainsFetched))"
      using tcs by (simp add: stable_desc_def sorted_wrt_map)
    then have "sorted_wrt (\<lambda>a b. b \<le> a)
        (map TopChainEntry.tvlRaw (TopChains.chains (top_chains_output now tinput chainsFetched)))"
      by (simp only: tvlRaw_chains)
    then show ?thesis
      by (simp add: sorted_wrt_map)
  qed
  have tsub: "subseq (top_chains_filtered tinput chainsFetched) chainsFetched"
    unfolding top_chains_filtered_def
    by (rule subseq_order.trans [OF subseq_by_category]) simp
  have sf: "map DistEntry.rank (distribution (stablecoin_flows_output now sinput stables)) =
     [1 ..< Suc (length (distribution (stablecoin_flows_output now sinput stables)))]"
    "map (\<lambda>e. (DistEntry.chain e, DistEntry.stablecoinsRaw e))
       (distribution (stablecoin_flows_output now sinput stables)) =
     map (\<lambda>s. (WithUSD.name s, stablecoinsUSD s)) (withUSD sinput stables)"
    by (simp_all add: stablecoin_flows_output_def mapi_proj mapi_const mapi_index length_mapi
        del: upt_Suc)
  have sfs: "stable_desc stablecoinsUSD
     (map (\<lambda>s. \<lparr> WithUSD.name = StablecoinChain.name s,
                  stablecoinsUSD = the (peggedUSD (totalCirculatingUSD s)),
                  tokenSymbol = StablecoinChain.tokenSymbol s \<rparr>)
        (filter (\<lambda>s. truthy (peggedUSD (totalCirculatingUSD s)) \<and>
                      positive (peggedUSD (totalCirculatingUSD s)))
           stables))
     (withUSD sinput stables)"
    unfolding withUSD_def by (rule stable_desc_slice_sort)
  have sfo: "sorted_wrt (\<lambda>a b. DistEntry.stablecoinsRaw b \<le> DistEntry.stablecoinsRaw a)
     (distribution (stablecoin_flows_output now sinput stables))"
  proof -
    have "sorted_wrt (\<lambda>a b. b \<le> a) (map stablecoinsUSD (withUSD sinput stables))"
      using sfs by (simp add: stable_desc_def sorted_wrt_map)
    then have "sorted_wrt (\<lambda>a b. b \<le> a)
        (map DistEntry.stablecoinsRaw (distribution (stablecoin_flows_output now sinput stables)))"
      by (simp only: raw_distribution)
    then show ?thesis
      by (simp add: sorted_wrt_map)
  qed
  have bv: "map BridgeEntry.rank (BridgeVolume.bridges (bridge_volume_output now binput bridgesFetched)) =
     [1 ..< Suc (length (BridgeVolume.bridges (bridge_volume_output now binput bridgesFetched)))]"
    "map (\<lambda>e. (BridgeEntry.name e, volumeRaw e))
       (BridgeVolume.bridges (bridge_volume_output now binput bridgesFetched)) =
     map (\<lambda>b. (displayName b, volumeOf binput b)) (bridge_sorted binput bridgesFetched)"
    by (simp_all add: bridge_volume_output_def mapi_proj mapi_const mapi_index length_mapi
        del: upt_Suc)
  have bvs: "stable_desc (volumeOf binput) (filter (\<lambda>b. 0 < volumeOf binput b) bridgesFetched)
     (bridge_sorted binput bridgesFetched)"
    unfolding bridge_sorted_def by (rule stable_desc_slice_sort)
  have bvo: "sorted_wrt (\<lambda>a b. volumeRaw b \<le> volumeRaw a)
     (BridgeVolume.bridges (bridge_volume_output now binput bridgesFetched))"
  proof -
    have "sorted_wrt (\<lambda>a b. b \<le> a) (map (volumeOf binput) (bridge_sorted binput bridgesFetched))"
      using bvs by (simp add: stable_desc_def sorted_wrt_map)
    then have "sorted_wrt (\<lambda>a b. b \<le> a)
        (map volumeRaw (BridgeVolume.bridges (bridge_volume_output now binput bridgesFetched)))"
      by (simp only: volumeRaw_bridges)
    then show ?thesis
      by (simp add: sorted_wrt_map)
  qed
  from ov tc tcs tco tsub sf sfs sfo bv bvs bvo
    stable_desc_slice_sort [of Chain.tvl chainsFetched 5]
  show ?thesis
    by blast
qed


theorem ranked_views_witness:
  "map Top5Entry.rank (top5 (overview_output ''now'' example_chains)) = [1, 2, 3] \<and>
   map Top5Entry.name (top5 (overview_output ''now'' example_chains)) =
     [''Ethereum'', ''Base'', ''Tron''] \<and>
   map Chain.name example_chains = [''Base'', ''Ethereum'', ''Tron''] \<and>
   map Chain.tvl example_chains = [5000000000, 50000000000, 5000000000] \<and>
   stable_desc Chain.tvl example_chains
     (slice0 5 (js_sort (\<lambda>a b. Chain.tvl b - Chain.tvl a) example_chains))"
proof -
  note inst = ranked_views [where now = "''now''" and chainsFetched = example_chains]
  have sorted: "js_sort (\<lambda>a b. Chain.tvl b - Chain.tvl a) example_chains =
      [example_chains ! 1, example_chains ! 0, example_chains ! 2]"
    by (simp add: js_sort_def example_defs)
  have names: "map Top5Entry.name (top5 (overview_output ''now'' example_chains)) =
      [''Ethereum'', ''Base'', ''Tron'']"
    using inst by (simp add: sorted slice0_numeral) (simp add: example_defs)
  then have "length (top5 (overview_output ''now'' example_chains)) = 3"
    by (metis length_map length_Cons list.size(3) numeral_3_eq_3)
  with inst have ranks: "map Top5Entry.rank (top5 (overview_output ''now'' example_chains)) = [1, 2, 3]"
    by (simp add: upt_rec)
  have feed: "map Chain.name example_chains = [''Base'', ''Ethereum'', ''Tron'']"
    "map Chain.tvl example_chains = [5000000000, 50000000000, 5000000000]"
    by (simp_all add: example_defs)
  from inst names ranks feed show ?thesis
    by simp
qed

section \<open>Chain comparison: the winners\<close>

lemma foldl_later_max:
  fixes f :: "'a \<Rightarrow> rat"
  shows "foldl (\<lambda>a b. if f a > f b then a else b) x xs \<in> set (x # xs) \<and>
         (\<forall>e\<in>set (x # xs). f e \<le> f (foldl (\<lambda>a b. if f a > f b then a else b) x xs)) \<and>
         foldl (\<lambda>a b. if f a > f b then a else b) x xs =
           last (filter (\<lambda>e. f e = f (foldl (\<lambda>a b. if f a > f b then a else b) x xs)) (x # xs))"
proof -
  define w where "w = (\<lambda>ys. foldl (\<lambda>a b. if f a > f b then a else b) x ys)"
  have "w xs \<in> set (x # xs) \<and> (\<forall>e\<in>set (x # xs). f e \<le> f (w xs)) \<and>
      w xs = last (filter (\<lambda>e. f e = f (w xs)) (x # xs))"
  proof (induction xs rule: rev_induct)
    case Nil
    then show ?case by (simp add: w_def)
  next
    case (snoc y xs)
    then have mem: "w xs \<in> set (x # xs)" and top: "\<forall>e\<in>set (x # xs). f e \<le> f (w xs)"
      and lst: "w xs = last (filter (\<lambda>e. f e = f (w xs)) (x # xs))"
      by blast+
    have step: "w (xs @ [y]) = (if f (w xs) > f y then w xs else y)"
      by (simp add: w_def)
    show ?case
    proof (cases "f (w xs) > f y")
      case True
      then have same: "w (xs @ [y]) = w xs"
        by (simp add: step)
      from True have "filter (\<lambda>e. f e = f (w xs)) (x # xs @ [y]) = filter (\<lambda>e. f e = f (w xs)) (x # xs)"
        by simp
      with lst have "w xs = last (filter (\<lambda>e. f e = f (w xs)) (x # xs @ [y]))"
        by simp
      moreover from True top have "\<forall>e\<in>set (x # xs @ [y]). f e \<le> f (w xs)"
        by (simp add: less_imp_le)
      moreover from mem have "w xs \<in> set (x # xs @ [y])"
        by auto
      ultimately show ?thesis
        unfolding same by blast
    next
      case False
      then have new: "w (xs @ [y]) = y"
        by (simp add: step)
      from False have le: "f (w xs) \<le> f y"
        by simp
      have "filter (\<lambda>e. f e = f y) (x # xs @ [y]) = filter (\<lambda>e. f e = f y) (x # xs) @ [y]"
        by simp
      then have "y = last (filter (\<lambda>e. f e = f y) (x # xs @ [y]))"
        by (simp only: last_snoc)
      moreover have "\<forall>e\<in>set (x # xs @ [y]). f e \<le> f y"
      proof
        fix e assume "e \<in> set (x # xs @ [y])"
        then have "e = y \<or> e \<in> set (x # xs)" by auto
        then show "f e \<le> f y"
        proof
          assume "e = y" then show ?thesis by simp
        next
          assume "e \<in> set (x # xs)"
          with top have "f e \<le> f (w xs)" by blast
          with le show ?thesis by simp
        qed
      qed
      moreover have "y \<in> set (x # xs @ [y])"
        by simp
      ultimately show ?thesis
        unfolding new by blast
    qed
  qed
  then show ?thesis
    unfolding w_def .
qed

lemma last_maximal:
  fixes f :: "'a \<Rightarrow> rat"
  shows "foldl (\<lambda>a b. if f a > f b then a else b) x xs =
     last (filter (\<lambda>e. \<forall>e'\<in>set (x # xs). f e' \<le> f e) (x # xs))"
proof -
  let ?w = "foldl (\<lambda>a b. if f a > f b then a else b) x xs"
  from foldl_later_max [of f x xs]
  have m: "?w \<in> set (x # xs)" "\<forall>e\<in>set (x # xs). f e \<le> f ?w"
    and l: "?w = last (filter (\<lambda>e. f e = f ?w) (x # xs))"
    by blast+
  have "filter (\<lambda>e. \<forall>e'\<in>set (x # xs). f e' \<le> f e) (x # xs) = filter (\<lambda>e. f e = f ?w) (x # xs)"
  proof (rule filter_cong [OF refl])
    fix e assume e: "e \<in> set (x # xs)"
    show "(\<forall>e'\<in>set (x # xs). f e' \<le> f e) = (f e = f ?w)"
    proof
      assume "\<forall>e'\<in>set (x # xs). f e' \<le> f e"
      with m(1) have "f ?w \<le> f e" by blast
      moreover from m(2) e have "f e \<le> f ?w" by blast
      ultimately show "f e = f ?w" by simp
    next
      assume "f e = f ?w"
      with m(2) show "\<forall>e'\<in>set (x # xs). f e' \<le> f e" by simp
    qed
  qed
  with l show ?thesis by simp
qed

lemma moreTVL_fun: "moreTVL = (\<lambda>a b. if CompareEntry.tvlRaw a > CompareEntry.tvlRaw b then a else b)"
  by (simp add: fun_eq_iff moreTVL_def)

lemma moreStable_fun:
  "moreStable = (\<lambda>a b. if CompareEntry.stablecoinsRaw a > CompareEntry.stablecoinsRaw b then a else b)"
  by (simp add: fun_eq_iff moreStable_def)

lemma reduce1_moreTVL:
  assumes "es \<noteq> []"
  shows "reduce1 moreTVL es =
     Inr (last (filter (\<lambda>e. \<forall>e'\<in>set es. CompareEntry.tvlRaw e' \<le> CompareEntry.tvlRaw e) es))"
proof -
  from assms obtain x xs where es: "es = x # xs"
    by (cases es) auto
  show ?thesis
    unfolding es reduce1_def moreTVL_fun list.case last_maximal ..
qed

lemma reduce1_moreStable:
  assumes "es \<noteq> []"
  shows "reduce1 moreStable es =
     Inr (last (filter (\<lambda>e. \<forall>e'\<in>set es. CompareEntry.stablecoinsRaw e' \<le> CompareEntry.stablecoinsRaw e) es))"
proof -
  from assms obtain x xs where es: "es = x # xs"
    by (cases es) auto
  show ?thesis
    unfolding es reduce1_def moreStable_fun list.case last_maximal ..
qed


lemma compare_entry_not_found:
  "\<not> CompareEntry.found (compare_entry allChains stables bs q) \<Longrightarrow>
     CompareEntry.tvlRaw (compare_entry allChains stables bs q) = 0 \<and>
     CompareEntry.name (compare_entry allChains stables bs q) = q"
  by (simp add: compare_entry_def Let_def or_zero_def split: option.splits)

lemma compare_entry_found:
  "CompareEntry.found (compare_entry allChains stables bs q) \<longleftrightarrow>
     (\<exists>c\<in>set allChains. sameName (Chain.name c) q)"
proof -
  have "CompareEntry.found (compare_entry allChains stables bs q) \<longleftrightarrow>
      js_find (\<lambda>c. sameName (Chain.name c) q) allChains \<noteq> None"
    by (simp add: compare_entry_def Let_def)
  then show ?thesis
    unfolding js_find_None by blast
qed

lemma compare_entry_no_stable:
  "\<forall>s\<in>set stables. \<not> sameName (StablecoinChain.name s) q \<Longrightarrow>
     CompareEntry.stablecoinsRaw (compare_entry allChains stables bs q) = 0"
  using js_find_None [of "\<lambda>s. sameName (StablecoinChain.name s) q" stables]
  by (simp add: compare_entry_def Let_def or_zero_def)

lemma last_all_maximal:
  fixes f :: "'a \<Rightarrow> rat"
  assumes "\<forall>e\<in>set es. f e = c"
  shows "last (filter (\<lambda>e. \<forall>e'\<in>set es. f e' \<le> f e) es) = last es"
proof -
  from assms have "filter (\<lambda>e. \<forall>e'\<in>set es. f e' \<le> f e) es = es"
    by (simp add: filter_id_conv)
  then show ?thesis by simp
qed

lemma example_missing:
  "\<forall>q\<in>set [''Polygon'', ''Avalanche'']. \<forall>c\<in>set example_chains. \<not> sameName (Chain.name c) q"
  "\<forall>q\<in>set [''Polygon'', ''Avalanche'']. \<forall>s\<in>set example_stables. \<not> sameName (StablecoinChain.name s) q"
  by code_simp+

lemma example_tie:
  "CompareEntry.name
     (last (filter (\<lambda>e. \<forall>e'\<in>set (map (compare_entry (js_sort (\<lambda>a b. Chain.tvl b - Chain.tvl a)
                        example_chains) example_stables example_bridges) [''base'', ''TRON'']).
                      CompareEntry.tvlRaw e' \<le> CompareEntry.tvlRaw e)
        (map (compare_entry (js_sort (\<lambda>a b. Chain.tvl b - Chain.tvl a) example_chains)
                example_stables example_bridges) [''base'', ''TRON'']))) = ''Tron''"
  "map CompareEntry.tvlRaw
     (map (compare_entry (js_sort (\<lambda>a b. Chain.tvl b - Chain.tvl a) example_chains)
             example_stables example_bridges) [''base'', ''TRON'']) = [5000000000, 5000000000]"
  by code_simp+

lemma example_clear:
  "CompareEntry.name
     (last (filter (\<lambda>e. \<forall>e'\<in>set (map (compare_entry (js_sort (\<lambda>a b. Chain.tvl b - Chain.tvl a)
                        example_chains) example_stables example_bridges) [''ETHEREUM'', ''base'']).
                      CompareEntry.tvlRaw e' \<le> CompareEntry.tvlRaw e)
        (map (compare_entry (js_sort (\<lambda>a b. Chain.tvl b - Chain.tvl a) example_chains)
                example_stables example_bridges) [''ETHEREUM'', ''base'']))) = ''Ethereum''"
  "CompareEntry.name
     (last (filter (\<lambda>e. \<forall>e'\<in>set (map (compare_entry (js_sort (\<lambda>a b. Chain.tvl b - Chain.tvl a)
                        example_chains) example_stables example_bridges) [''ETHEREUM'', ''base'']).
                      CompareEntry.stablecoinsRaw e' \<le> CompareEntry.stablecoinsRaw e)
        (map (compare_entry (js_sort (\<lambda>a b. Chain.tvl b - Chain.tvl a) example_chains)
                example_stables example_bridges) [''ETHEREUM'', ''base'']))) = ''Ethereum''"
  by code_simp+

text \<open>
  C1, as the code has it. For a non-empty list of names chain-compare returns an output in
  which \<open>highestTVL\<close> (resp. \<open>mostStablecoins\<close>) is the name of an entry of
  \<open>comparison\<close> whose \<open>tvlRaw\<close> (resp. \<open>stablecoinsRaw\<close>) is maximal, and among the
  entries with the maximal value it is the last one in input order. The two lookups of an
  entry are independent: the entry is found iff its name matches a chain record, an entry
  that is not found has \<open>tvlRaw\<close> 0 and echoes the name asked for, and an entry whose
  name matches no stablecoin record has \<open>stablecoinsRaw\<close> 0 (an entry that is not found
  may match a stablecoin record, and then counts with that record's supply). When all
  entries have the same \<open>tvlRaw\<close> (resp. \<open>stablecoinsRaw\<close>) the winner is the name of
  the last entry. So when no name matches a chain record, \<open>highestTVL\<close> is the last name
  of the input, and when moreover no name matches a stablecoin record, so is
  \<open>mostStablecoins\<close>.
\<close>

theorem compare_winners:
  assumes "chainNames \<noteq> []"
  shows
    "\<exists>out. chain_compare_output now chainNames fetched stables fetchedBridges = Inr out \<and>
       comparison out =
         map (compare_entry (js_sort (\<lambda>a b. Chain.tvl b - Chain.tvl a) fetched) stables fetchedBridges)
           chainNames \<and>
       highestTVL (winners out) =
         CompareEntry.name
           (last (filter (\<lambda>e. \<forall>e'\<in>set (comparison out). CompareEntry.tvlRaw e' \<le> CompareEntry.tvlRaw e)
                    (comparison out))) \<and>
       mostStablecoins (winners out) =
         CompareEntry.name
           (last (filter (\<lambda>e. \<forall>e'\<in>set (comparison out).
                                  CompareEntry.stablecoinsRaw e' \<le> CompareEntry.stablecoinsRaw e)
                    (comparison out))) \<and>
       (\<forall>i<length chainNames.
          (CompareEntry.found (comparison out ! i) \<longleftrightarrow>
             (\<exists>c\<in>set fetched. sameName (Chain.name c) (chainNames ! i))) \<and>
          (\<not> CompareEntry.found (comparison out ! i) \<longrightarrow>
             CompareEntry.tvlRaw (comparison out ! i) = 0 \<and>
             CompareEntry.name (comparison out ! i) = chainNames ! i) \<and>
          ((\<forall>s\<in>set stables. \<not> sameName (StablecoinChain.name s) (chainNames ! i)) \<longrightarrow>
             CompareEntry.stablecoinsRaw (comparison out ! i) = 0)) \<and>
       ((\<forall>e\<in>set (comparison out). CompareEntry.tvlRaw e = CompareEntry.tvlRaw (last (comparison out))) \<longrightarrow>
          highestTVL (winners out) = CompareEntry.name (last (comparison out))) \<and>
       ((\<forall>e\<in>set (comparison out).
            CompareEntry.stablecoinsRaw e = CompareEntry.stablecoinsRaw (last (comparison out))) \<longrightarrow>
          mostStablecoins (winners out) = CompareEntry.name (last (comparison out))) \<and>
       ((\<forall>q\<in>set chainNames. \<forall>c\<in>set fetched. \<not> sameName (Chain.name c) q) \<longrightarrow>
          highestTVL (winners out) = last chainNames \<and>
          ((\<forall>q\<in>set chainNames. \<forall>s\<in>set stables. \<not> sameName (StablecoinChain.name s) q) \<longrightarrow>
             mostStablecoins (winners out) = last chainNames))"
proof -
  let ?sorted = "js_sort (\<lambda>a b. Chain.tvl b - Chain.tvl a) fetched"
  let ?entry = "compare_entry ?sorted stables fetchedBridges"
  let ?cmp = "map ?entry chainNames"
  let ?tw = "last (filter (\<lambda>e. \<forall>e'\<in>set ?cmp. CompareEntry.tvlRaw e' \<le> CompareEntry.tvlRaw e) ?cmp)"
  let ?sw = "last (filter (\<lambda>e. \<forall>e'\<in>set ?cmp.
                                  CompareEntry.stablecoinsRaw e' \<le> CompareEntry.stablecoinsRaw e) ?cmp)"
  from assms have ne: "?cmp \<noteq> []"
    by simp
  define out where "out =
    \<lparr> Compare.fetchedAt = now,
      chainsCompared = length chainNames,
      comparison = ?cmp,
      winners = \<lparr> highestTVL = CompareEntry.name ?tw, mostStablecoins = CompareEntry.name ?sw \<rparr>,
      summary =
        join [Lit '' | '']
          (map (\<lambda>c. [Lit (CompareEntry.name c), Lit '': ''] @
                     (case CompareEntry.tvl c of None \<Rightarrow> [Lit ''N/A''] | Some t \<Rightarrow> t))
             ?cmp) \<rparr>"
  have run: "chain_compare_output now chainNames fetched stables fetchedBridges = Inr out"
    by (simp add: chain_compare_output_def Let_def reduce1_moreTVL [OF ne] reduce1_moreStable [OF ne]
        out_def)
  have sel: "comparison out = ?cmp" "highestTVL (winners out) = CompareEntry.name ?tw"
    "mostStablecoins (winners out) = CompareEntry.name ?sw"
    by (simp_all add: out_def)
  have lastq: "last ?cmp = ?entry (last chainNames)"
    using assms by (simp add: last_map)
  have each: "(CompareEntry.found (?cmp ! i) \<longleftrightarrow>
             (\<exists>c\<in>set fetched. sameName (Chain.name c) (chainNames ! i))) \<and>
          (\<not> CompareEntry.found (?cmp ! i) \<longrightarrow>
             CompareEntry.tvlRaw (?cmp ! i) = 0 \<and>
             CompareEntry.name (?cmp ! i) = chainNames ! i) \<and>
          ((\<forall>s\<in>set stables. \<not> sameName (StablecoinChain.name s) (chainNames ! i)) \<longrightarrow>
             CompareEntry.stablecoinsRaw (?cmp ! i) = 0)"
    if "i < length chainNames" for i
    using that
    by (simp add: compare_entry_found set_js_sort compare_entry_not_found compare_entry_no_stable)
  have tie: "CompareEntry.name ?tw = CompareEntry.name (last ?cmp)"
    if "\<forall>e\<in>set ?cmp. CompareEntry.tvlRaw e = CompareEntry.tvlRaw (last ?cmp)"
    using last_all_maximal [OF that] by simp
  have stie: "CompareEntry.name ?sw = CompareEntry.name (last ?cmp)"
    if "\<forall>e\<in>set ?cmp. CompareEntry.stablecoinsRaw e = CompareEntry.stablecoinsRaw (last ?cmp)"
    using last_all_maximal [OF that] by simp
  have tvl: "CompareEntry.name ?tw = last chainNames"
    if miss: "\<forall>q\<in>set chainNames. \<forall>c\<in>set fetched. \<not> sameName (Chain.name c) q"
  proof -
    from miss have nf: "\<forall>q\<in>set chainNames. \<not> CompareEntry.found (?entry q)"
      by (simp add: compare_entry_found set_js_sort)
    then have "\<forall>e\<in>set ?cmp. CompareEntry.tvlRaw e = 0"
      by (auto simp: compare_entry_not_found)
    then have "?tw = last ?cmp"
      by (rule last_all_maximal)
    moreover from nf assms have "\<not> CompareEntry.found (?entry (last chainNames))"
      by simp
    ultimately show ?thesis
      by (simp add: lastq compare_entry_not_found)
  qed
  have stable: "CompareEntry.name ?sw = last chainNames"
    if miss: "\<forall>q\<in>set chainNames. \<forall>c\<in>set fetched. \<not> sameName (Chain.name c) q"
      and nos: "\<forall>q\<in>set chainNames. \<forall>s\<in>set stables. \<not> sameName (StablecoinChain.name s) q"
  proof -
    from miss have nf: "\<forall>q\<in>set chainNames. \<not> CompareEntry.found (?entry q)"
      by (simp add: compare_entry_found set_js_sort)
    from nos have "\<forall>e\<in>set ?cmp. CompareEntry.stablecoinsRaw e = 0"
      by (auto simp: compare_entry_no_stable)
    then have "?sw = last ?cmp"
      by (rule last_all_maximal)
    moreover from nf assms have "\<not> CompareEntry.found (?entry (last chainNames))"
      by simp
    ultimately show ?thesis
      by (simp add: lastq compare_entry_not_found)
  qed
  show ?thesis
  proof (intro exI [of _ out] conjI impI allI)
    show "chain_compare_output now chainNames fetched stables fetchedBridges = Inr out"
      by (rule run)
    show "comparison out = ?cmp"
      by (rule sel)
    show "highestTVL (winners out) =
         CompareEntry.name
           (last (filter (\<lambda>e. \<forall>e'\<in>set (comparison out). CompareEntry.tvlRaw e' \<le> CompareEntry.tvlRaw e)
                    (comparison out)))"
      unfolding sel ..
    show "mostStablecoins (winners out) =
         CompareEntry.name
           (last (filter (\<lambda>e. \<forall>e'\<in>set (comparison out).
                                  CompareEntry.stablecoinsRaw e' \<le> CompareEntry.stablecoinsRaw e)
                    (comparison out)))"
      unfolding sel ..
    show "CompareEntry.found (comparison out ! i) \<longleftrightarrow>
             (\<exists>c\<in>set fetched. sameName (Chain.name c) (chainNames ! i))"
      if "i < length chainNames" for i
      unfolding sel using each [OF that] by blast
    show "CompareEntry.tvlRaw (comparison out ! i) = 0"
      if "i < length chainNames" "\<not> CompareEntry.found (comparison out ! i)" for i
      using each [OF that(1)] that(2) unfolding sel by blast
    show "CompareEntry.name (comparison out ! i) = chainNames ! i"
      if "i < length chainNames" "\<not> CompareEntry.found (comparison out ! i)" for i
      using each [OF that(1)] that(2) unfolding sel by blast
    show "CompareEntry.stablecoinsRaw (comparison out ! i) = 0"
      if "i < length chainNames"
        "\<forall>s\<in>set stables. \<not> sameName (StablecoinChain.name s) (chainNames ! i)" for i
      using each [OF that(1)] that(2) unfolding sel by blast
    show "highestTVL (winners out) = CompareEntry.name (last (comparison out))"
      if "\<forall>e\<in>set (comparison out). CompareEntry.tvlRaw e = CompareEntry.tvlRaw (last (comparison out))"
      using that unfolding sel by (rule tie)
    show "mostStablecoins (winners out) = CompareEntry.name (last (comparison out))"
      if "\<forall>e\<in>set (comparison out).
            CompareEntry.stablecoinsRaw e = CompareEntry.stablecoinsRaw (last (comparison out))"
      using that unfolding sel by (rule stie)
    show "highestTVL (winners out) = last chainNames"
      if "\<forall>q\<in>set chainNames. \<forall>c\<in>set fetched. \<not> sameName (Chain.name c) q"
      unfolding sel using that by (rule tvl)
    show "mostStablecoins (winners out) = last chainNames"
      if "\<forall>q\<in>set chainNames. \<forall>c\<in>set fetched. \<not> sameName (Chain.name c) q"
        and "\<forall>q\<in>set chainNames. \<forall>s\<in>set stables. \<not> sameName (StablecoinChain.name s) q"
      unfolding sel using that by (rule stable)
  qed
qed

theorem compare_winners_witness:
  "[''Polygon'', ''Avalanche''] \<noteq> [] \<and>
   \<not> (\<exists>q\<in>set [''Polygon'', ''Avalanche'']. \<exists>c\<in>set example_chains. sameName (Chain.name c) q) \<and>
   \<not> (\<exists>q\<in>set [''Polygon'', ''Avalanche'']. \<exists>s\<in>set example_stables.
         sameName (StablecoinChain.name s) q) \<and>
   (\<exists>out. chain_compare_output ''now'' [''Polygon'', ''Avalanche''] example_chains example_stables
            example_bridges = Inr out \<and>
          highestTVL (winners out) = ''Avalanche'' \<and>
          mostStablecoins (winners out) = ''Avalanche'') \<and>
   (\<exists>out. chain_compare_output ''now'' [''base'', ''TRON''] example_chains example_stables
            example_bridges = Inr out \<and>
          map CompareEntry.tvlRaw (comparison out) = [5000000000, 5000000000] \<and>
          highestTVL (winners out) = ''Tron'') \<and>
   (\<exists>out. chain_compare_output ''now'' [''ETHEREUM'', ''base''] example_chains example_stables
            example_bridges = Inr out \<and>
          highestTVL (winners out) = ''Ethereum'' \<and>
          mostStablecoins (winners out) = ''Ethereum'')"
proof -
  have ne: "[''Polygon'', ''Avalanche''] \<noteq> []"
    by simp
  from compare_winners [OF ne, where now = "''now''" and fetched = example_chains
      and stables = example_stables and fetchedBridges = example_bridges]
  obtain out where run: "chain_compare_output ''now'' [''Polygon'', ''Avalanche''] example_chains
        example_stables example_bridges = Inr out"
    and win: "(\<forall>q\<in>set [''Polygon'', ''Avalanche'']. \<forall>c\<in>set example_chains. \<not> sameName (Chain.name c) q) \<longrightarrow>
          highestTVL (winners out) = last [''Polygon'', ''Avalanche''] \<and>
          ((\<forall>q\<in>set [''Polygon'', ''Avalanche'']. \<forall>s\<in>set example_stables.
               \<not> sameName (StablecoinChain.name s) q) \<longrightarrow>
             mostStablecoins (winners out) = last [''Polygon'', ''Avalanche''])"
    by blast
  from win example_missing have "highestTVL (winners out) = ''Avalanche''"
    "mostStablecoins (winners out) = ''Avalanche''"
    by simp_all
  with run have miss: "\<exists>out. chain_compare_output ''now'' [''Polygon'', ''Avalanche''] example_chains
        example_stables example_bridges = Inr out \<and>
      highestTVL (winners out) = ''Avalanche'' \<and> mostStablecoins (winners out) = ''Avalanche''"
    by blast
  have tie: "\<exists>out. chain_compare_output ''now'' [''base'', ''TRON''] example_chains example_stables
            example_bridges = Inr out \<and>
          map CompareEntry.tvlRaw (comparison out) = [5000000000, 5000000000] \<and>
          highestTVL (winners out) = ''Tron''"
  proof -
    have "[''base'', ''TRON''] \<noteq> []"
      by simp
    from compare_winners [OF this, where now = "''now''" and fetched = example_chains
        and stables = example_stables and fetchedBridges = example_bridges]
    obtain o2 where r: "chain_compare_output ''now'' [''base'', ''TRON''] example_chains
          example_stables example_bridges = Inr o2"
      and c: "comparison o2 =
         map (compare_entry (js_sort (\<lambda>a b. Chain.tvl b - Chain.tvl a) example_chains)
                example_stables example_bridges) [''base'', ''TRON'']"
      and h: "highestTVL (winners o2) =
         CompareEntry.name
           (last (filter (\<lambda>e. \<forall>e'\<in>set (comparison o2). CompareEntry.tvlRaw e' \<le> CompareEntry.tvlRaw e)
                    (comparison o2)))"
      by blast
    from h have "highestTVL (winners o2) = ''Tron''"
      unfolding c example_tie .
    moreover have "map CompareEntry.tvlRaw (comparison o2) = [5000000000, 5000000000]"
      unfolding c example_tie ..
    ultimately show ?thesis
      using r by (intro exI [of _ o2] conjI)
  qed
  have clear: "\<exists>out. chain_compare_output ''now'' [''ETHEREUM'', ''base''] example_chains example_stables
            example_bridges = Inr out \<and>
          highestTVL (winners out) = ''Ethereum'' \<and>
          mostStablecoins (winners out) = ''Ethereum''"
  proof -
    have "[''ETHEREUM'', ''base''] \<noteq> []"
      by simp
    from compare_winners [OF this, where now = "''now''" and fetched = example_chains
        and stables = example_stables and fetchedBridges = example_bridges]
    obtain o3 where r: "chain_compare_output ''now'' [''ETHEREUM'', ''base''] example_chains
          example_stables example_bridges = Inr o3"
      and c: "comparison o3 =
         map (compare_entry (js_sort (\<lambda>a b. Chain.tvl b - Chain.tvl a) example_chains)
                example_stables example_bridges) [''ETHEREUM'', ''base'']"
      and h: "highestTVL (winners o3) =
         CompareEntry.name
           (last (filter (\<lambda>e. \<forall>e'\<in>set (comparison o3). CompareEntry.tvlRaw e' \<le> CompareEntry.tvlRaw e)
                    (comparison o3)))"
      and m: "mostStablecoins (winners o3) =
         CompareEntry.name
           (last (filter (\<lambda>e. \<forall>e'\<in>set (comparison o3).
                                  CompareEntry.stablecoinsRaw e' \<le> CompareEntry.stablecoinsRaw e)
                    (comparison o3)))"
      by blast
    from h have "highestTVL (winners o3) = ''Ethereum''"
      unfolding c example_clear .
    moreover from m have "mostStablecoins (winners o3) = ''Ethereum''"
      unfolding c example_clear .
    ultimately show ?thesis
      using r by blast
  qed
  from example_missing
  have "\<not> (\<exists>q\<in>set [''Polygon'', ''Avalanche'']. \<exists>c\<in>set example_chains. sameName (Chain.name c) q)"
    "\<not> (\<exists>q\<in>set [''Polygon'', ''Avalanche'']. \<exists>s\<in>set example_stables.
         sameName (StablecoinChain.name s) q)"
    by blast+
  with ne miss tie clear show ?thesis
    by (intro conjI)
qed

text \<open>
  C1, as the specification states it, fails twice. With two names that match no record of
  either feed, every entry is not found and neither winner is the first name. With two
  names that match no chain record, the first of which has a stablecoin record, both
  entries are not found and yet the values of \<open>stablecoinsRaw\<close> are not tied at 0.
\<close>

theorem first_name_does_not_win:
  "map_sum id (\<lambda>out. map CompareEntry.found (comparison out))
     (chain_compare_output ''now'' [''Polygon'', ''Avalanche''] example_chains example_stables
        example_bridges) = Inr [False, False] \<and>
   map_sum id (\<lambda>out. highestTVL (winners out))
     (chain_compare_output ''now'' [''Polygon'', ''Avalanche''] example_chains example_stables
        example_bridges) \<noteq> Inr ''Polygon'' \<and>
   map_sum id (\<lambda>out. mostStablecoins (winners out))
     (chain_compare_output ''now'' [''Polygon'', ''Avalanche''] example_chains example_stables
        example_bridges) \<noteq> Inr ''Polygon'' \<and>
   map_sum id (\<lambda>out. map CompareEntry.found (comparison out))
     (chain_compare_output ''now'' [''Aptos'', ''Polygon''] example_chains example_unlisted
        example_bridges) = Inr [False, False] \<and>
   map_sum id (\<lambda>out. map CompareEntry.stablecoinsRaw (comparison out))
     (chain_compare_output ''now'' [''Aptos'', ''Polygon''] example_chains example_unlisted
        example_bridges) = Inr [10, 0]"
  by code_simp

section \<open>The category filters\<close>

lemma take_prefix: "take (length t) s = t \<longleftrightarrow> prefix t s"
  by (metis prefix_def append_eq_conv_conj take_is_prefix)

lemma js_includes_sublist: "js_includes s t \<longleftrightarrow> sublist t s"
  by (induction s) (simp_all add: sublist_Cons_right take_prefix del: take_Suc_Cons)

lemma inL2_iff: "inL2 c \<longleftrightarrow> (\<exists>l\<in>set l2Names. sublist (toLowerCase l) (toLowerCase (Chain.name c)))"
  by (simp add: inL2_def some_def list_ex_iff js_includes_sublist)

lemma inL1_iff: "inL1 c \<longleftrightarrow> (\<exists>l\<in>set l1Names. sublist (toLowerCase l) (toLowerCase (Chain.name c)))"
  by (simp add: inL1_def some_def list_ex_iff js_includes_sublist)

lemma example_both_matches: "inL2 example_both" "inL1 example_both"
  by code_simp+

text \<open>
  C2, as the code has it. The category filters are tests on the name of a record: it
  passes the l2 (resp. l1) filter iff its lowercased name holds, as a contiguous run, the
  lowercased form of an entry of the L2 (resp. L1) list, and the alt-l1 filter iff it
  passes neither. So the three filtered views together hold every record of the collection,
  and the alt-l1 view shares no record with the l2 view nor with the l1 view. The l2 and l1
  views share exactly the records whose name matches both lists: the handler tests the
  requested category only and does not assign one category to a record.
\<close>

theorem category_filters:
  "set (by_category L2 cs) \<union> set (by_category L1 cs) \<union> set (by_category AltL1 cs) = set cs \<and>
   set (by_category L2 cs) \<inter> set (by_category AltL1 cs) = {} \<and>
   set (by_category L1 cs) \<inter> set (by_category AltL1 cs) = {} \<and>
   set (by_category L2 cs) \<inter> set (by_category L1 cs) = {c \<in> set cs. inL2 c \<and> inL1 c} \<and>
   by_category L2 cs = filter inL2 cs \<and>
   by_category L1 cs = filter inL1 cs \<and>
   by_category AltL1 cs = filter (\<lambda>c. \<not> inL2 c \<and> \<not> inL1 c) cs \<and>
   by_category All cs = cs \<and>
   (inL2 c \<longleftrightarrow> (\<exists>l\<in>set l2Names. sublist (toLowerCase l) (toLowerCase (Chain.name c)))) \<and>
   (inL1 c \<longleftrightarrow> (\<exists>l\<in>set l1Names. sublist (toLowerCase l) (toLowerCase (Chain.name c))))"
proof -
  have views: "by_category L2 cs = filter inL2 cs" "by_category L1 cs = filter inL1 cs"
    "by_category AltL1 cs = filter (\<lambda>c. \<not> inL2 c \<and> \<not> inL1 c) cs" "by_category All cs = cs"
    by (simp_all add: by_category_def)
  have cover: "set (by_category L2 cs) \<union> set (by_category L1 cs) \<union> set (by_category AltL1 cs) = set cs"
    unfolding views by auto
  have apart: "set (by_category L2 cs) \<inter> set (by_category AltL1 cs) = {}"
    "set (by_category L1 cs) \<inter> set (by_category AltL1 cs) = {}"
    unfolding views by auto
  have both: "set (by_category L2 cs) \<inter> set (by_category L1 cs) = {c \<in> set cs. inL2 c \<and> inL1 c}"
    unfolding views by auto
  from views cover apart both inL2_iff [of c] inL1_iff [of c] show ?thesis
    by blast
qed

theorem category_filters_witness:
  "map Chain.name (by_category L2 (example_chains @ [example_both])) = [''Base'', ''Ethereum Mode''] \<and>
   map Chain.name (by_category L1 (example_chains @ [example_both])) =
     [''Ethereum'', ''Tron'', ''Ethereum Mode''] \<and>
   by_category AltL1 (example_chains @ [example_both]) = []"
proof -
  have l2: "map inL2 example_chains = [True, False, False]"
    by code_simp
  have l1: "map inL1 example_chains = [False, True, True]"
    by code_simp
  have names: "map Chain.name example_chains = [''Base'', ''Ethereum'', ''Tron'']"
    "Chain.name example_both = ''Ethereum Mode''"
    by (simp_all add: example_defs example_both_def)
  obtain a b c where abc: "example_chains = [a, b, c]"
    by (simp add: example_defs)
  from category_filters [of "example_chains @ [example_both]"] l2 l1 names example_both_matches
  show ?thesis
    by (simp add: abc)
qed

text \<open>
  C2, as the specification states it, fails: a record whose name matches both lists is in
  the l2 view and in the l1 view.
\<close>

theorem l2_and_l1_views_overlap:
  "set (by_category L2 [example_both]) \<inter> set (by_category L1 [example_both]) \<noteq> {}"
  by (simp add: by_category_def example_both_matches)

end
